(* ===== verification/Prelude.thy ===== *)
theory Prelude
  imports Main "HOL-Library.Word" "HOL-Library.Signed_Division" "HOL-Library.Sublist"
begin

text \<open>
  Shared vocabulary of the development: the machine integers of the Rust sources, results as
  sums, byte readers, first-match updates of vectors, and little-endian byte strings.  Rust
  integers that are stored or sent keep their width as words; intermediate arithmetic on signed
  values is done on \<open>int\<close> with the wrap-around of the release profile written out.
\<close>

named_theorems wire_simps \<open>equations that evaluate byte readers and writers\<close>
named_theorems group_simps \<open>facts about first-match updates and group membership\<close>

type_synonym u8 = "8 word"
type_synonym u16 = "16 word"
type_synonym u32 = "32 word"
type_synonym u64 = "64 word"
type_synonym i32 = "32 word"

subsection \<open>Signed arithmetic with the width written out\<close>

definition wrap_i32 :: "int \<Rightarrow> int" where
  "wrap_i32 x = signed_take_bit 31 x"

definition wrap_i64 :: "int \<Rightarrow> int" where
  "wrap_i64 x = signed_take_bit 63 x"

definition in_i32 :: "int \<Rightarrow> bool" where
  "in_i32 x \<longleftrightarrow> - (2 ^ 31) \<le> x \<and> x < 2 ^ 31"

definition in_i64 :: "int \<Rightarrow> bool" where
  "in_i64 x \<longleftrightarrow> - (2 ^ 63) \<le> x \<and> x < 2 ^ 63"

lemma wrap_i32_id [simp]: "in_i32 x \<Longrightarrow> wrap_i32 x = x"
  unfolding wrap_i32_def in_i32_def by (rule signed_take_bit_int_eq_self) auto

lemma wrap_i64_id [simp]: "in_i64 x \<Longrightarrow> wrap_i64 x = x"
  unfolding wrap_i64_def in_i64_def by (rule signed_take_bit_int_eq_self) auto

lemma wrap_i32_range: "in_i32 (wrap_i32 x)"
  unfolding wrap_i32_def in_i32_def
  using signed_take_bit_int_greater_eq_minus_exp [of 31 x]
    signed_take_bit_int_less_exp [of 31 x] by simp

lemma wrap_i64_range: "in_i64 (wrap_i64 x)"
  unfolding wrap_i64_def in_i64_def
  using signed_take_bit_int_greater_eq_minus_exp [of 63 x]
    signed_take_bit_int_less_exp [of 63 x] by simp

lemma sint_of_int_i32: "sint (word_of_int x :: 32 word) = wrap_i32 x"
  unfolding wrap_i32_def
  by (simp add: sint_sbintrunc')

lemma sint_i32_range: "in_i32 (sint (w :: 32 word))"
  unfolding in_i32_def using sint_greater_eq [of w] sint_less [of w] by simp

lemma unat_u8_less: "unat (w :: u8) < 256"
  using unsigned_less [of w] by simp

lemma unat_u16_less: "unat (w :: u16) < 65536"
  using unsigned_less [of w] by simp

lemma unat_u32_less: "unat (w :: u32) < 4294967296"
  using unsigned_less [of w] by simp

lemma unat_u32_le: "unat (w :: u32) \<le> 4294967295"
  using unat_u32_less [of w] by simp

subsection \<open>First-match updates\<close>

text \<open>The effect of \<open>if let Some(x) = xs.iter_mut().find(p) { f(x) }\<close> on a vector.\<close>

fun update_first :: "('a \<Rightarrow> bool) \<Rightarrow> ('a \<Rightarrow> 'a) \<Rightarrow> 'a list \<Rightarrow> 'a list" where
  "update_first p f [] = []"
| "update_first p f (x # xs) = (if p x then f x # xs else x # update_first p f xs)"

lemma update_first_none [group_simps]: "\<forall>x\<in>set xs. \<not> p x \<Longrightarrow> update_first p f xs = xs"
  by (induction xs) auto

lemma map_update_first [group_simps]:
  "(\<And>x. g (f x) = g x) \<Longrightarrow> map g (update_first p f xs) = map g xs"
  by (induction xs) auto

lemma length_update_first [simp]: "length (update_first p f xs) = length xs"
  by (induction xs) auto

lemma find_update_first:
  "(\<And>x. p x \<Longrightarrow> p (f x)) \<Longrightarrow> find p (update_first p f xs) = map_option f (find p xs)"
  by (induction xs) auto

lemma find_None_set: "find p xs = None \<longleftrightarrow> (\<forall>x\<in>set xs. \<not> p x)"
  by (induction xs) auto

lemma find_Some_set: "find p xs = Some x \<Longrightarrow> x \<in> set xs \<and> p x"
  by (induction xs) (auto split: if_splits)

lemma find_Some_split:
  "find p xs = Some x \<Longrightarrow> \<exists>us vs. xs = us @ x # vs \<and> p x \<and> (\<forall>u\<in>set us. \<not> p u)"
proof (induction xs)
  case Nil
  then show ?case by simp
next
  case (Cons a xs)
  show ?case
  proof (cases "p a")
    case True
    with Cons.prems show ?thesis by (auto intro: exI [of _ "[]"])
  next
    case False
    with Cons obtain us vs where "xs = us @ x # vs" "p x" "\<forall>u\<in>set us. \<not> p u" by auto
    with False show ?thesis by (intro exI [of _ "a # us"] exI [of _ vs]) auto
  qed
qed

lemma update_first_split:
  "p x \<Longrightarrow> \<forall>u\<in>set us. \<not> p u \<Longrightarrow> update_first p f (us @ x # vs) = us @ f x # vs"
  by (induction us) auto

lemma find_append: "find p (xs @ ys) = (case find p xs of Some x \<Rightarrow> Some x | None \<Rightarrow> find p ys)"
  by (induction xs) auto

subsection \<open>Byte readers\<close>

text \<open>
  A reader consumes a prefix of its input and returns the rest, or fails; \<open>rd_bind\<close> is the
  \<open>?\<close> operator between two reads.
\<close>

type_synonym ('e, 'a) reader = "u8 list \<Rightarrow> 'e + 'a \<times> u8 list"

definition rd_return :: "'a \<Rightarrow> ('e, 'a) reader" where
  "rd_return x bs = Inr (x, bs)"

definition rd_fail :: "'e \<Rightarrow> ('e, 'a) reader" where
  "rd_fail e bs = Inl e"

definition rd_bind :: "('e, 'a) reader \<Rightarrow> ('a \<Rightarrow> ('e, 'b) reader) \<Rightarrow> ('e, 'b) reader" where
  "rd_bind m f bs = (case m bs of Inl e \<Rightarrow> Inl e | Inr (x, rest) \<Rightarrow> f x rest)"

lemmas reader_defs [wire_simps] = rd_return_def rd_fail_def rd_bind_def

lemma rd_bind_Inr:
  "rd_bind m f bs = Inr r \<longleftrightarrow> (\<exists>x rest. m bs = Inr (x, rest) \<and> f x rest = Inr r)"
  by (auto simp: rd_bind_def split: sum.splits)

lemma rd_bind_Inl:
  "rd_bind m f bs = Inl e \<longleftrightarrow> m bs = Inl e \<or> (\<exists>x rest. m bs = Inr (x, rest) \<and> f x rest = Inl e)"
  by (auto simp: rd_bind_def split: sum.splits)

subsection \<open>Little-endian byte strings\<close>

fun le_enc :: "nat \<Rightarrow> nat \<Rightarrow> u8 list" where
  "le_enc 0 n = []"
| "le_enc (Suc k) n = word_of_nat n # le_enc k (n div 256)"

fun le_dec :: "u8 list \<Rightarrow> nat" where
  "le_dec [] = 0"
| "le_dec (b # bs) = unat b + 256 * le_dec bs"

lemma length_le_enc [simp]: "length (le_enc k n) = k"
  by (induction k arbitrary: n) auto

lemma le_dec_le_enc: "le_dec (le_enc k n) = n mod 256 ^ k"
proof (induction k arbitrary: n)
  case 0
  then show ?case by simp
next
  case (Suc k)
  have "unat (word_of_nat n :: 8 word) = n mod 256" by (simp add: unat_of_nat)
  then show ?case by (simp add: Suc mod_mult2_eq)
qed

lemma le_dec_bound: "le_dec bs < 256 ^ length bs"
proof (induction bs)
  case Nil
  then show ?case by simp
next
  case (Cons b bs)
  have "unat b < 256" using unsigned_less [of b] by simp
  with Cons show ?case by simp
qed

lemma le_enc_le_dec: "le_enc (length bs) (le_dec bs) = bs"
proof (induction bs)
  case Nil
  then show ?case by simp
next
  case (Cons b bs)
  have b: "unat b < 256" using unsigned_less [of b] by simp
  have z: "(256 :: 8 word) = 0" by simp
  have "word_of_nat (unat b + 256 * le_dec bs) = b + 256 * word_of_nat (le_dec bs)" by simp
  then have "word_of_nat (unat b + 256 * le_dec bs) = b" by (simp only: z mult_zero_left add_0_right)
  with b Cons show ?case by simp
qed

subsection \<open>Wire codecs as an interface\<close>

text \<open>
  What every writer/reader pair of the protocol promises: reading what was written gives the
  value back and leaves the following bytes untouched.  The client lemmas are proved once here:
  the written forms are prefix-free, so frames can be concatenated on a byte stream, and a
  sequence of values written one after the other is read back in order.
\<close>

fun put_all :: "('a \<Rightarrow> u8 list) \<Rightarrow> 'a list \<Rightarrow> u8 list" where
  "put_all put [] = []"
| "put_all put (x # xs) = put x @ put_all put xs"

fun get_many :: "('e, 'a) reader \<Rightarrow> nat \<Rightarrow> ('e, 'a list) reader" where
  "get_many get 0 bs = Inr ([], bs)"
| "get_many get (Suc n) bs =
     (case get bs of
        Inl e \<Rightarrow> Inl e
      | Inr (x, rest) \<Rightarrow>
          (case get_many get n rest of
             Inl e \<Rightarrow> Inl e
           | Inr (xs, rest') \<Rightarrow> Inr (x # xs, rest')))"

locale wire_codec =
  fixes put :: "'a \<Rightarrow> u8 list"
    and get :: "u8 list \<Rightarrow> 'e + 'a \<times> u8 list"
    and ok :: "'a \<Rightarrow> bool"
  assumes get_put: "ok x \<Longrightarrow> get (put x @ rest) = Inr (x, rest)"
begin

lemma get_put_exact: "ok x \<Longrightarrow> get (put x) = Inr (x, [])"
  using get_put [of x "[]"] by simp

lemma bind_put: "ok x \<Longrightarrow> rd_bind get f (put x @ rest) = f x rest"
  by (simp add: rd_bind_def get_put)

lemma bind_put_exact: "ok x \<Longrightarrow> rd_bind get f (put x) = f x []"
  using bind_put [of x f "[]"] by simp

lemma put_prefix_free: "ok x \<Longrightarrow> ok y \<Longrightarrow> put x @ r = put y @ s \<Longrightarrow> x = y \<and> r = s"
proof -
  assume "ok x" "ok y" and eq: "put x @ r = put y @ s"
  then have "(Inr (x, r) :: 'e + 'a \<times> u8 list) = Inr (y, s)" by (metis get_put)
  then show "x = y \<and> r = s" by simp
qed

lemma put_inj: "ok x \<Longrightarrow> ok y \<Longrightarrow> put x = put y \<Longrightarrow> x = y"
  by (metis append_Nil2 put_prefix_free)

lemma get_many_put_all:
  "list_all ok xs \<Longrightarrow> get_many get (length xs) (put_all put xs @ rest) = Inr (xs, rest)"
proof (induction xs)
  case Nil
  then show ?case by simp
next
  case (Cons x xs)
  then have "get (put x @ put_all put xs @ rest) = Inr (x, put_all put xs @ rest)"
    by (simp add: get_put)
  with Cons show ?case by simp
qed

end

text \<open>
  An exact codec has one written form per value: whatever is read was written by the writer.
\<close>

locale exact_codec = wire_codec +
  assumes put_get: "get bs = Inr (x, rest) \<Longrightarrow> bs = put x @ rest \<and> ok x"
begin

lemma get_consumes: "get bs = Inr (x, rest) \<Longrightarrow> length bs = length (put x) + length rest"
  using put_get [of bs x rest] by simp

lemma bind_iff:
  "rd_bind get f bs = Inr r \<longleftrightarrow> (\<exists>x rest. bs = put x @ rest \<and> ok x \<and> f x rest = Inr r)"
  unfolding rd_bind_Inr using put_get get_put by blast

lemma get_iff: "get bs = Inr (x, rest) \<longleftrightarrow> bs = put x @ rest \<and> ok x"
  using put_get get_put by blast

end

subsection \<open>Transition systems\<close>

text \<open>The states a step relation can get to, and the invariants every step keeps.\<close>

inductive reach :: "('s \<Rightarrow> bool) \<Rightarrow> ('s \<Rightarrow> 's \<Rightarrow> bool) \<Rightarrow> 's \<Rightarrow> bool" for init step where
  reach_init: "init s \<Longrightarrow> reach init step s"
| reach_step: "reach init step s \<Longrightarrow> step s t \<Longrightarrow> reach init step t"

locale invariant_system =
  fixes init :: "'s \<Rightarrow> bool"
    and step :: "'s \<Rightarrow> 's \<Rightarrow> bool"
    and inv :: "'s \<Rightarrow> bool"
  assumes init_inv: "init s \<Longrightarrow> inv s"
    and step_inv: "inv s \<Longrightarrow> step s t \<Longrightarrow> inv t"
begin

lemma reach_inv: "reach init step s \<Longrightarrow> inv s"
  by (induction rule: reach.induct) (auto intro: init_inv step_inv)

lemma reach_inv_and:
  assumes "reach init step s" "\<And>s. init s \<Longrightarrow> P s" "\<And>s t. inv s \<Longrightarrow> P s \<Longrightarrow> step s t \<Longrightarrow> P t"
  shows "P s"
proof -
  have "inv s \<and> P s"
    using assms(1) by (induction rule: reach.induct) (auto intro: init_inv step_inv assms(2,3))
  then show ?thesis ..
qed

end

end
