(* ===== verification/Json.thy ===== *)
theory Json
  imports Prelude
begin

text \<open>
  JSON values and the shape of the code that \<open>serde\<close> derives for the structs of the sources.  The
  text form of a value is \<open>serde_json\<close>'s and is a parameter of the definitions that use it; what
  a \<open>#[derive(Serialize, Deserialize)]\<close> with its attributes says about field names, missing
  fields and number ranges is modelled here on values.
\<close>

datatype json =
    JNull
  | JBool bool
  | JInt int
  | JFrac int nat  \<comment> \<open>a number with a fraction, mantissa and decimal exponent\<close>
  | JStr string
  | JArr "json list"
  | JObj "(string \<times> json) list"

text \<open>
  The fields of a derived struct: from an object, unknown keys are ignored and a repeated known
  key is an error; from an array, by position, with exactly one element for each field.
\<close>

definition struct_fields :: "string list \<Rightarrow> json \<Rightarrow> (string \<times> json) list option" where
  "struct_fields names j =
     (case j of
        JObj kvs \<Rightarrow>
          (let known = filter (\<lambda>kv. fst kv \<in> set names) kvs in
           if distinct (List.map fst known) then Some known else None)
      | JArr js \<Rightarrow> if length js = length names then Some (zip names js) else None
      | _ \<Rightarrow> None)"

definition field :: "(json \<Rightarrow> 'a option) \<Rightarrow> string \<Rightarrow> (string \<times> json) list \<Rightarrow> 'a option" where
  "field f name kvs = Option.bind (map_of kvs name) f"

text \<open>An \<open>Option\<close> field may be missing or null.\<close>

definition opt_field ::
  "(json \<Rightarrow> 'a option) \<Rightarrow> string \<Rightarrow> (string \<times> json) list \<Rightarrow> 'a option option" where
  "opt_field f name kvs =
     (case map_of kvs name of
        None \<Rightarrow> Some None
      | Some JNull \<Rightarrow> Some None
      | Some j \<Rightarrow> map_option Some (f j))"

fun json_string :: "json \<Rightarrow> string option" where
  "json_string (JStr s) = Some s"
| "json_string _ = None"

fun json_bool :: "json \<Rightarrow> bool option" where
  "json_bool (JBool b) = Some b"
| "json_bool _ = None"

fun json_range :: "int \<Rightarrow> int \<Rightarrow> json \<Rightarrow> int option" where
  "json_range lo hi (JInt i) = (if lo \<le> i \<and> i \<le> hi then Some i else None)"
| "json_range lo hi _ = None"

definition json_u16 :: "json \<Rightarrow> u16 option" where
  "json_u16 j = map_option word_of_int (json_range 0 (2 ^ 16 - 1) j)"

definition json_u32 :: "json \<Rightarrow> u32 option" where
  "json_u32 j = map_option word_of_int (json_range 0 (2 ^ 32 - 1) j)"

definition json_i32 :: "json \<Rightarrow> i32 option" where
  "json_i32 j = map_option word_of_int (json_range (- (2 ^ 31)) (2 ^ 31 - 1) j)"

definition of_u16 :: "u16 \<Rightarrow> json" where
  "of_u16 w = JInt (uint w)"

definition of_u32 :: "u32 \<Rightarrow> json" where
  "of_u32 w = JInt (uint w)"

definition of_i32 :: "i32 \<Rightarrow> json" where
  "of_i32 w = JInt (sint w)"

lemma json_u16_of [simp]: "json_u16 (of_u16 w) = Some w"
  using uint_bounded [of w] by (simp add: json_u16_def of_u16_def)

lemma json_u32_of [simp]: "json_u32 (of_u32 w) = Some w"
  using uint_bounded [of w] by (simp add: json_u32_def of_u32_def)

lemma json_i32_of [simp]: "json_i32 (of_i32 w) = Some w"
  using sint_i32_range [of w] by (simp add: json_i32_def of_i32_def in_i32_def)

lemma of_u32_not_null [simp]: "of_u32 w \<noteq> JNull"
  by (simp add: of_u32_def)

end
