(* ===== verification/Utf8.thy ===== *)
theory Utf8
  imports Prelude
begin

text \<open>
  Rust strings.  A \<open>String\<close> is a byte sequence that is valid UTF-8; it is modelled by the HOL
  type \<open>string\<close>, one \<open>char\<close> per byte, so that literals stay readable.  This theory has the
  byte/character conversions, the validity check, and \<open>String::from_utf8_lossy\<close> as the standard
  library computes it: maximal valid runs are kept and each maximal invalid prefix becomes the
  three bytes of U+FFFD.  It also has the decimal printing and parsing of unsigned integers and
  the string splitting that the parsers of the sources use.
\<close>

definition byte_of :: "char \<Rightarrow> u8" where
  "byte_of c = word_of_nat (of_char c)"

definition char_of_byte :: "u8 \<Rightarrow> char" where
  "char_of_byte b = char_of (unat b)"

definition as_bytes :: "string \<Rightarrow> u8 list" where
  "as_bytes s = map byte_of s"

definition from_bytes :: "u8 list \<Rightarrow> string" where
  "from_bytes bs = map char_of_byte bs"

lemma char_of_byte_of [simp]: "char_of_byte (byte_of c) = c"
  by (simp add: char_of_byte_def byte_of_def unat_of_nat)

lemma byte_of_char_of [simp]: "byte_of (char_of_byte b) = b"
proof -
  have "unat b < 256" using unsigned_less [of b] by simp
  then show ?thesis by (simp add: char_of_byte_def byte_of_def)
qed

lemma from_bytes_as_bytes [simp]: "from_bytes (as_bytes s) = s"
  by (simp add: from_bytes_def as_bytes_def comp_def)

lemma as_bytes_from_bytes [simp]: "as_bytes (from_bytes bs) = bs"
  by (simp add: from_bytes_def as_bytes_def comp_def)

lemma length_as_bytes [simp]: "length (as_bytes s) = length s"
  by (simp add: as_bytes_def)

lemma length_from_bytes [simp]: "length (from_bytes bs) = length bs"
  by (simp add: from_bytes_def)

lemma as_bytes_inj [simp]: "as_bytes s = as_bytes t \<longleftrightarrow> s = t"
  by (metis from_bytes_as_bytes)

subsection \<open>UTF-8 validity and lossy decoding\<close>

definition utf8_cont :: "u8 \<Rightarrow> bool" where
  "utf8_cont b \<longleftrightarrow> 0x80 \<le> b \<and> b \<le> 0xBF"

definition safe_get :: "u8 list \<Rightarrow> nat \<Rightarrow> u8" where
  "safe_get bs i = (if i < length bs then bs ! i else 0)"

definition utf8_second_ok :: "u8 \<Rightarrow> u8 \<Rightarrow> bool" where
  "utf8_second_ok b c \<longleftrightarrow>
     (if b = 0xE0 then 0xA0 \<le> c \<and> c \<le> 0xBF
      else if b = 0xED then 0x80 \<le> c \<and> c \<le> 0x9F
      else if b = 0xF0 then 0x90 \<le> c \<and> c \<le> 0xBF
      else if b = 0xF4 then 0x80 \<le> c \<and> c \<le> 0x8F
      else utf8_cont c)"

text \<open>
  One step of the decoder at a non-empty input: whether the bytes at the front form a character,
  and how many bytes that character, or the maximal invalid prefix, has.
\<close>

definition utf8_step :: "u8 list \<Rightarrow> bool \<times> nat" where
  "utf8_step bs =
     (let b = safe_get bs 0 in
      if b < 0x80 then (True, 1)
      else if 0xC2 \<le> b \<and> b \<le> 0xDF then
        (if utf8_cont (safe_get bs 1) then (True, 2) else (False, 1))
      else if 0xE0 \<le> b \<and> b \<le> 0xEF then
        (if \<not> utf8_second_ok b (safe_get bs 1) then (False, 1)
         else if \<not> utf8_cont (safe_get bs 2) then (False, 2)
         else (True, 3))
      else if 0xF0 \<le> b \<and> b \<le> 0xF4 then
        (if \<not> utf8_second_ok b (safe_get bs 1) then (False, 1)
         else if \<not> utf8_cont (safe_get bs 2) then (False, 2)
         else if \<not> utf8_cont (safe_get bs 3) then (False, 3)
         else (True, 4))
      else (False, 1))"

lemma utf8_step_pos: "0 < snd (utf8_step bs)"
  by (simp add: utf8_step_def Let_def)

function utf8_valid :: "u8 list \<Rightarrow> bool" where
  "utf8_valid bs =
     (if bs = [] then True
      else fst (utf8_step bs) \<and> utf8_valid (drop (snd (utf8_step bs)) bs))"
  by pat_completeness auto
termination
  by (relation "measure length") (simp_all add: utf8_step_pos)

declare utf8_valid.simps [simp del]

definition replacement_char :: "u8 list" where
  "replacement_char = [0xEF, 0xBF, 0xBD]"

function from_utf8_lossy :: "u8 list \<Rightarrow> u8 list" where
  "from_utf8_lossy bs =
     (if bs = [] then []
      else (if fst (utf8_step bs) then take (snd (utf8_step bs)) bs else replacement_char)
           @ from_utf8_lossy (drop (snd (utf8_step bs)) bs))"
  by pat_completeness auto
termination
  by (relation "measure length") (simp_all add: utf8_step_pos)

declare from_utf8_lossy.simps [simp del]

lemma utf8_valid_Nil [simp]: "utf8_valid []"
  by (simp add: utf8_valid.simps)

lemma from_utf8_lossy_Nil [simp]: "from_utf8_lossy [] = []"
  by (simp add: from_utf8_lossy.simps)

lemma from_utf8_lossy_valid: "utf8_valid bs \<Longrightarrow> from_utf8_lossy bs = bs"
proof (induction bs rule: from_utf8_lossy.induct)
  case (1 bs)
  show ?case
  proof (cases "bs = []")
    case True
    then show ?thesis by simp
  next
    case False
    with "1.prems" have "fst (utf8_step bs)" "utf8_valid (drop (snd (utf8_step bs)) bs)"
      by (simp_all add: utf8_valid.simps [of bs])
    with False "1.IH" show ?thesis by (simp add: from_utf8_lossy.simps [of bs])
  qed
qed

text \<open>A step looks only at the bytes of the character it recognises.\<close>

lemma utf8_cont_inside: "utf8_cont (safe_get bs i) \<Longrightarrow> Suc i \<le> length bs"
  by (auto simp: utf8_cont_def safe_get_def split: if_splits)

lemma utf8_step_inside:
  "0 < length bs \<Longrightarrow> case utf8_step bs of (good, n) \<Rightarrow> good \<longrightarrow> n \<le> length bs"
  unfolding utf8_step_def Let_def
  using utf8_cont_inside [of bs 1] utf8_cont_inside [of bs 2] utf8_cont_inside [of bs 3]
  by (simp add: Suc_le_eq numeral_eq_Suc del: length_greater_0_conv split: if_split)

lemma utf8_step_fits: "fst (utf8_step bs) \<Longrightarrow> bs \<noteq> [] \<Longrightarrow> snd (utf8_step bs) \<le> length bs"
  using utf8_step_inside [of bs] by (simp add: split_beta)

lemma utf8_step_local:
  "case utf8_step bs of (good, n) \<Rightarrow>
     good \<longrightarrow> (\<forall>i<n. safe_get cs i = safe_get bs i) \<longrightarrow> utf8_step cs = (good, n)"
  unfolding utf8_step_def [where bs = bs] Let_def
  by (auto simp: utf8_step_def [where bs = cs] Let_def split: if_split)

lemma utf8_step_cong:
  assumes "\<And>i. i < snd (utf8_step bs) \<Longrightarrow> safe_get cs i = safe_get bs i"
    and "fst (utf8_step bs)"
  shows "utf8_step cs = utf8_step bs"
  using utf8_step_local [where bs = bs and cs = cs] assms by (auto simp: split_beta prod_eq_iff)

lemma utf8_step_take:
  assumes "fst (utf8_step bs)" and "bs \<noteq> []"
  shows "utf8_step (take (snd (utf8_step bs)) bs @ cs) = utf8_step bs"
proof (rule utf8_step_cong [OF _ assms(1)])
  fix i assume "i < snd (utf8_step bs)"
  then show "safe_get (take (snd (utf8_step bs)) bs @ cs) i = safe_get bs i"
    using utf8_step_fits [OF assms] by (auto simp: safe_get_def nth_append)
qed

lemma utf8_valid_step:
  assumes "fst (utf8_step bs)" and "bs \<noteq> []"
  shows "utf8_valid (take (snd (utf8_step bs)) bs @ cs) = utf8_valid cs"
proof -
  let ?n = "snd (utf8_step bs)"
  have n: "0 < ?n" "?n \<le> length bs" using utf8_step_pos utf8_step_fits [OF assms] by auto
  have "take ?n bs @ cs \<noteq> []" using n assms(2) by simp
  moreover have "drop ?n (take ?n bs @ cs) = cs" using n by simp
  ultimately show ?thesis
    using utf8_valid.simps [of "take ?n bs @ cs"] utf8_step_take [OF assms, of cs] assms(1)
    by simp
qed

lemma utf8_valid_replacement: "utf8_valid (replacement_char @ cs) = utf8_valid cs"
proof -
  have s: "utf8_step (replacement_char @ cs) = (True, 3)"
    by (simp add: utf8_step_def replacement_char_def safe_get_def utf8_second_ok_def utf8_cont_def)
  then show ?thesis
    using utf8_valid.simps [of "replacement_char @ cs"] by (simp add: replacement_char_def)
qed

lemma from_utf8_lossy_is_valid: "utf8_valid (from_utf8_lossy bs)"
proof (induction bs rule: from_utf8_lossy.induct)
  case (1 bs)
  then show ?case
    by (auto simp: from_utf8_lossy.simps [of bs] utf8_valid_step utf8_valid_replacement)
qed

lemma utf8_valid_ascii_Cons: "b < 0x80 \<Longrightarrow> utf8_valid (b # bs) = utf8_valid bs"
  by (simp add: utf8_valid.simps [of "b # bs"] utf8_step_def safe_get_def)

lemma utf8_valid_ascii: "list_all (\<lambda>b. b < 0x80) bs \<Longrightarrow> utf8_valid bs"
  by (induction bs) (auto simp: utf8_valid_ascii_Cons)

text \<open>The strings a Rust \<open>String\<close> can hold.\<close>

definition str_ok :: "string \<Rightarrow> bool" where
  "str_ok s \<longleftrightarrow> utf8_valid (as_bytes s)"

lemma str_ok_Nil [simp]: "str_ok []"
  by (simp add: str_ok_def as_bytes_def)

end
