(* ===== verification/Strings.thy ===== *)
theory Strings
  imports Utf8
begin

text \<open>
  The string operations of the Rust standard library that the parsers of the sources use:
  decimal printing of unsigned integers, \<open>str::parse\<close> for unsigned types, and splitting at a
  separator.
\<close>

subsection \<open>Decimal numbers\<close>

definition digit_char :: "nat \<Rightarrow> char" where
  "digit_char d = char_of (48 + d)"

definition to_digit :: "char \<Rightarrow> nat option" where
  "to_digit c = (let n = of_char c in if 48 \<le> n \<and> n \<le> 57 then Some (n - 48) else None)"

lemma to_digit_char [simp]: "d < 10 \<Longrightarrow> to_digit (digit_char d) = Some d"
  by (simp add: to_digit_def digit_char_def Let_def)

lemma to_digit_bound: "to_digit c = Some d \<Longrightarrow> d < 10"
  by (auto simp: to_digit_def Let_def split: if_splits)

fun show_nat :: "nat \<Rightarrow> string" where
  "show_nat n = (if n < 10 then [digit_char n] else show_nat (n div 10) @ [digit_char (n mod 10)])"

declare show_nat.simps [simp del]

lemma show_nat_not_Nil [simp]: "show_nat n \<noteq> []"
  by (simp add: show_nat.simps [of n])

lemma show_nat_digits: "\<forall>c\<in>set (show_nat n). to_digit c \<noteq> None"
proof (induction n rule: show_nat.induct)
  case (1 n)
  then show ?case by (auto simp: show_nat.simps [of n])
qed

text \<open>\<open>ParseIntError\<close> as \<open>from_str_radix(_, 10)\<close> reports it for an unsigned type.\<close>

datatype num_error = EmptyNumber | InvalidDigit | PosOverflow

fun parse_digits :: "nat \<Rightarrow> nat \<Rightarrow> string \<Rightarrow> num_error + nat" where
  "parse_digits m r [] = Inr r"
| "parse_digits m r (c # cs) =
     (case to_digit c of
        None \<Rightarrow> Inl InvalidDigit
      | Some d \<Rightarrow> if m < r * 10 + d then Inl PosOverflow else parse_digits m (r * 10 + d) cs)"

definition parse_unsigned :: "nat \<Rightarrow> string \<Rightarrow> num_error + nat" where
  "parse_unsigned m s =
     (case s of
        [] \<Rightarrow> Inl EmptyNumber
      | c # cs \<Rightarrow>
          if c = CHR ''+'' then (if cs = [] then Inl InvalidDigit else parse_digits m 0 cs)
          else parse_digits m 0 s)"

lemma parse_digits_append:
  "parse_digits m r (xs @ ys) =
     (case parse_digits m r xs of Inl e \<Rightarrow> Inl e | Inr r' \<Rightarrow> parse_digits m r' ys)"
  by (induction xs arbitrary: r) (auto split: option.split)

lemma parse_digits_show_nat: "n \<le> m \<Longrightarrow> parse_digits m 0 (show_nat n) = Inr n"
proof (induction n rule: show_nat.induct)
  case (1 n)
  show ?case
  proof (cases "n < 10")
    case True
    with 1 show ?thesis by (simp add: show_nat.simps [of n])
  next
    case False
    with 1 have "parse_digits m 0 (show_nat (n div 10)) = Inr (n div 10)" by simp
    with False 1 show ?thesis
      by (simp add: show_nat.simps [of n] parse_digits_append)
  qed
qed

lemma parse_digits_bound: "parse_digits m r s = Inr n \<Longrightarrow> r \<le> m \<Longrightarrow> n \<le> m"
  by (induction s arbitrary: r) (auto split: option.splits if_splits)

lemma parse_unsigned_bound: "parse_unsigned m s = Inr n \<Longrightarrow> n \<le> m"
  using parse_digits_bound [of m 0]
  by (auto simp: parse_unsigned_def simp del: parse_digits.simps split: list.splits if_splits)

lemma plus_no_digit [simp]: "to_digit CHR ''+'' = None"
  by (simp add: to_digit_def Let_def)

lemma show_nat_hd: "show_nat n = c # cs \<Longrightarrow> to_digit c \<noteq> None"
  using show_nat_digits [of n] by simp

lemma show_nat_parse [simp]: "n \<le> m \<Longrightarrow> parse_unsigned m (show_nat n) = Inr n"
  using parse_digits_show_nat [of n m] show_nat_hd [of n]
  by (auto simp: parse_unsigned_def split: list.split)

lemma show_nat_inj: "show_nat n = show_nat k \<Longrightarrow> n = k"
  by (metis show_nat_parse nle_le sum.inject(2))

lemma to_digit_notin_show [simp]: "to_digit c = None \<Longrightarrow> c \<notin> set (show_nat n)"
  using show_nat_digits [of n] by auto

subsection \<open>Splitting\<close>

text \<open>\<open>str::split\<close> at a character: always at least one piece.\<close>

fun split_on :: "char \<Rightarrow> string \<Rightarrow> string list" where
  "split_on c [] = [[]]"
| "split_on c (x # xs) =
     (if x = c then [] # split_on c xs
      else case split_on c xs of [] \<Rightarrow> [[x]] | p # ps \<Rightarrow> (x # p) # ps)"

lemma split_on_not_Nil [simp]: "split_on c s \<noteq> []"
  by (induction s) (auto split: list.split)

lemma split_on_whole: "c \<notin> set s \<Longrightarrow> split_on c s = [s]"
  by (induction s) auto

lemma split_on_append: "c \<notin> set a \<Longrightarrow> split_on c (a @ c # b) = a # split_on c b"
  by (induction a) auto

text \<open>\<open>str::split_once\<close> at a character.\<close>

fun split_once :: "char \<Rightarrow> string \<Rightarrow> (string \<times> string) option" where
  "split_once c [] = None"
| "split_once c (x # xs) =
     (if x = c then Some ([], xs)
      else map_option (\<lambda>(a, b). (x # a, b)) (split_once c xs))"

lemma split_once_Some: "split_once c s = Some (a, b) \<longleftrightarrow> s = a @ c # b \<and> c \<notin> set a"
proof (induction s arbitrary: a)
  case Nil
  then show ?case by simp
next
  case (Cons x xs)
  show ?case
  proof (cases a)
    case Nil
    then show ?thesis by (cases "x = c") auto
  next
    case (Cons y ys)
    then show ?thesis by (cases "x = c") (auto simp: Cons.IH)
  qed
qed

lemma split_once_None: "split_once c s = None \<longleftrightarrow> c \<notin> set s"
  by (induction s) auto

lemma split_once_append [simp]: "c \<notin> set a \<Longrightarrow> split_once c (a @ c # b) = Some (a, b)"
  by (simp add: split_once_Some)

text \<open>\<open>split_once\<close>, \<open>rsplit_once\<close> and \<open>strip_prefix\<close> with a string or at the last place.\<close>

fun strip_prefix :: "string \<Rightarrow> string \<Rightarrow> string option" where
  "strip_prefix [] s = Some s"
| "strip_prefix (p # ps) [] = None"
| "strip_prefix (p # ps) (x # xs) = (if p = x then strip_prefix ps xs else None)"

lemma strip_prefix_Some: "strip_prefix p s = Some r \<longleftrightarrow> s = p @ r"
  by (induction p s rule: strip_prefix.induct) auto

lemma strip_prefix_append [simp]: "strip_prefix p (p @ r) = Some r"
  by (simp add: strip_prefix_Some)

fun split_once_str :: "string \<Rightarrow> string \<Rightarrow> (string \<times> string) option" where
  "split_once_str p [] = (if p = [] then Some ([], []) else None)"
| "split_once_str p (x # xs) =
     (case strip_prefix p (x # xs) of
        Some r \<Rightarrow> Some ([], r)
      | None \<Rightarrow> map_option (\<lambda>(a, b). (x # a, b)) (split_once_str p xs))"

lemma split_once_str_sound: "split_once_str p s = Some (a, b) \<Longrightarrow> s = a @ p @ b"
  by (induction p s arbitrary: a rule: split_once_str.induct)
    (auto simp: strip_prefix_Some split: if_splits option.splits)

definition rsplit_once :: "char \<Rightarrow> string \<Rightarrow> (string \<times> string) option" where
  "rsplit_once c s = map_option (\<lambda>(b, a). (rev a, rev b)) (split_once c (rev s))"

lemma rsplit_once_Some: "rsplit_once c s = Some (a, b) \<longleftrightarrow> s = a @ c # b \<and> c \<notin> set b"
proof
  assume "rsplit_once c s = Some (a, b)"
  then obtain x y where "split_once c (rev s) = Some (x, y)" "a = rev y" "b = rev x"
    by (auto simp: rsplit_once_def)
  then show "s = a @ c # b \<and> c \<notin> set b" by (auto simp: split_once_Some rev_swap)
next
  assume "s = a @ c # b \<and> c \<notin> set b"
  then have "split_once c (rev s) = Some (rev b, rev a)" by (simp add: split_once_Some)
  then show "rsplit_once c s = Some (a, b)" by (simp add: rsplit_once_def)
qed

subsection \<open>Trimming\<close>

text \<open>The UTF-8 forms of the characters with the Unicode property \<open>White_Space\<close>.\<close>

definition whitespace :: "string list" where
  "whitespace = List.map (List.map char_of)
     ([[9], [10], [11], [12], [13], [32], [194, 133], [194, 160], [225, 154, 128]]
      @ List.map (\<lambda>k. [226, 128, k]) [128, 129, 130, 131, 132, 133, 134, 135, 136, 137, 138, 168, 169, 175]
      @ [[226, 129, 159], [227, 128, 128 :: nat]])"

lemma whitespace_not_Nil: "[] \<notin> set whitespace"
  by (auto simp: whitespace_def)

function trim_start :: "string \<Rightarrow> string" where
  "trim_start s =
     (case find (\<lambda>w. prefix w s) whitespace of
        None \<Rightarrow> s
      | Some w \<Rightarrow> trim_start (drop (length w) s))"
  by pat_completeness auto
termination
proof (relation "measure length")
  fix s w assume "find (\<lambda>w. prefix w s) whitespace = Some w"
  then have "w \<in> set whitespace" "prefix w s" using find_Some_set by fastforce+
  then have "w \<noteq> []" "s \<noteq> []" using whitespace_not_Nil by auto
  then show "(drop (length w) s, s) \<in> measure length" by simp
qed simp

declare trim_start.simps [simp del]

function trim_end :: "string \<Rightarrow> string" where
  "trim_end s =
     (case find (\<lambda>w. suffix w s) whitespace of
        None \<Rightarrow> s
      | Some w \<Rightarrow> trim_end (take (length s - length w) s))"
  by pat_completeness auto
termination
proof (relation "measure length")
  fix s w assume "find (\<lambda>w. suffix w s) whitespace = Some w"
  then have "w \<in> set whitespace" "suffix w s" using find_Some_set by fastforce+
  then have "w \<noteq> []" "s \<noteq> []" using whitespace_not_Nil by auto
  then show "(take (length s - length w) s, s) \<in> measure length" by simp
qed simp

declare trim_end.simps [simp del]

definition trim :: "string \<Rightarrow> string" where
  "trim s = trim_end (trim_start s)"

text \<open>\<open>trim_matches\<close> and \<open>trim_start_matches\<close> with a set of ASCII characters.\<close>

definition trim_start_matches :: "(char \<Rightarrow> bool) \<Rightarrow> string \<Rightarrow> string" where
  "trim_start_matches p s = dropWhile p s"

definition trim_matches :: "(char \<Rightarrow> bool) \<Rightarrow> string \<Rightarrow> string" where
  "trim_matches p s = rev (dropWhile p (rev (dropWhile p s)))"

lemma trim_no_ws:
  assumes "\<forall>w\<in>set whitespace. \<not> prefix w s \<and> \<not> suffix w s"
  shows "trim s = s"
proof -
  have "find (\<lambda>w. prefix w s) whitespace = None" "find (\<lambda>w. suffix w s) whitespace = None"
    using assms by (simp_all add: find_None_set)
  then show ?thesis by (simp add: trim_def trim_start.simps [of s] trim_end.simps [of s])
qed

definition printable :: "char \<Rightarrow> bool" where
  "printable c \<longleftrightarrow> 33 \<le> (of_char c :: nat) \<and> (of_char c :: nat) < 128"

lemma whitespace_bytes: "w \<in> set whitespace \<Longrightarrow> \<forall>c\<in>set w. \<not> printable c"
  by (auto simp: whitespace_def printable_def)

lemma trim_printable:
  assumes "s \<noteq> []" "printable (hd s)" "printable (last s)"
  shows "trim s = s"
proof (rule trim_no_ws, intro ballI conjI notI)
  fix w assume w: "w \<in> set whitespace"
  then have ne: "w \<noteq> []" using whitespace_not_Nil by auto
  { assume "prefix w s"
    then have "hd w = hd s" using ne by (auto simp: prefix_def)
    with ne assms(2) whitespace_bytes [OF w] show False by (metis hd_in_set) }
  { assume "suffix w s"
    then have "last w = last s" using ne by (auto simp: suffix_def)
    with ne assms(3) whitespace_bytes [OF w] show False by (metis last_in_set) }
qed

end
