(* ===== verification/Status.thy ===== *)
theory Status
  imports Json Strings
begin

text \<open>
  The status types of \<open>snapcast-proto/src/status.rs\<close>: what \<open>Server.GetStatus\<close> returns, with the
  defaults that the sources derive or write out.
\<close>

definition PROTOCOL_VERSION :: u32 where
  "PROTOCOL_VERSION = 2"

definition CONTROL_PROTOCOL_VERSION :: u32 where
  "CONTROL_PROTOCOL_VERSION = 1"

record status_host =
  sh_arch :: string
  sh_ip :: string
  sh_mac :: string
  sh_name :: string
  sh_os :: string

definition status_host_default :: status_host where
  "status_host_default = \<lparr>sh_arch = [], sh_ip = [], sh_mac = [], sh_name = [], sh_os = []\<rparr>"

record snapserver_info =
  sn_name :: string
  sn_protocol_version :: u32
  sn_control_protocol_version :: u32
  sn_version :: string

text \<open>The crate version is fixed by the build and is an argument.\<close>

definition snapserver_default :: "string \<Rightarrow> snapserver_info" where
  "snapserver_default pkg_version =
     \<lparr>sn_name = ''snapcast-rs'', sn_protocol_version = PROTOCOL_VERSION,
      sn_control_protocol_version = CONTROL_PROTOCOL_VERSION, sn_version = pkg_version\<rparr>"

record server_info =
  sv_host :: status_host
  sv_snapserver :: snapserver_info

record status_volume =
  sl_muted :: bool
  sl_percent :: u16

record status_client_config =
  scc_instance :: u32
  scc_latency :: i32
  scc_name :: string
  scc_volume :: status_volume

record snapclient_info =
  sni_name :: string
  sni_protocol_version :: u32
  sni_version :: string

definition snapclient_default :: snapclient_info where
  "snapclient_default = \<lparr>sni_name = [], sni_protocol_version = 0, sni_version = []\<rparr>"

record last_seen =
  ls_sec :: u64
  ls_usec :: u64

definition last_seen_default :: last_seen where
  "last_seen_default = \<lparr>ls_sec = 0, ls_usec = 0\<rparr>"

record status_client =
  sc_id :: string
  sc_connected :: bool
  sc_config :: status_client_config
  sc_host :: status_host
  sc_snapclient :: snapclient_info
  sc_last_seen :: last_seen

record status_group =
  sg_id :: string
  sg_name :: string
  sg_stream_id :: string
  sg_muted :: bool
  sg_clients :: "status_client list"

datatype stream_status = SIdle | SPlaying | SDisabled | SUnknown

definition stream_status_from :: "string \<Rightarrow> stream_status" where
  "stream_status_from s =
     (if s = ''playing'' then SPlaying
      else if s = ''idle'' then SIdle
      else if s = ''disabled'' then SDisabled
      else SUnknown)"

text \<open>The query map as its entries in iteration order.\<close>

record stream_uri =
  su_fragment :: string
  su_host :: string
  su_path :: string
  su_query :: "(string \<times> string) list"
  su_raw :: string
  su_scheme :: string

definition stream_uri_raw :: "string \<Rightarrow> stream_uri" where
  "stream_uri_raw raw =
     \<lparr>su_fragment = [], su_host = [], su_path = [], su_query = [], su_raw = raw,
      su_scheme = []\<rparr>"

text \<open>\<open>Stream::properties\<close> is left out of the snapshot by the only code that builds one.\<close>

record status_stream =
  st_id :: string
  st_properties :: "json option"
  st_status :: stream_status
  st_uri :: stream_uri

record status_server =
  srv_server :: server_info
  srv_groups :: "status_group list"
  srv_streams :: "status_stream list"

record server_status =
  ss_server :: status_server

end
