(* ===== verification/ServerState.thy ===== *)
theory ServerState
  imports Status
begin

text \<open>
  The server state of \<open>snapcast-server/src/state.rs\<close>: clients by id, groups of clients that share
  a stream, and streams.  Fresh group ids come from a supply \<open>fresh\<close> of which the first \<open>n\<close> are
  used; every operation that creates a group returns the supply's new position.
\<close>

subsection \<open>Data\<close>

record volume =
  vol_percent :: u16
  vol_muted :: bool

definition volume_default :: volume where
  "volume_default = \<lparr>vol_percent = 100, vol_muted = False\<rparr>"

record client_config =
  cc_name :: string
  cc_volume :: volume
  cc_latency :: i32

definition client_config_default :: client_config where
  "client_config_default = \<lparr>cc_name = [], cc_volume = volume_default, cc_latency = 0\<rparr>"

record client =
  c_id :: string
  c_host_name :: string
  c_mac :: string
  c_connected :: bool
  c_config :: client_config

record group =
  g_id :: string
  g_name :: string
  g_stream_id :: string
  g_muted :: bool
  g_clients :: "string list"

record stream_info =
  si_id :: string
  si_status :: string
  si_uri :: string
  si_properties :: "string \<rightharpoonup> json"

record server_state =
  s_clients :: "string \<rightharpoonup> client"
  s_groups :: "group list"
  s_streams :: "stream_info list"

definition server_state_default :: server_state where
  "server_state_default = \<lparr>s_clients = (\<lambda>_. None), s_groups = [], s_streams = []\<rparr>"

subsection \<open>Operations\<close>

definition get_or_create_client ::
  "string \<Rightarrow> string \<Rightarrow> string \<Rightarrow> server_state \<Rightarrow> server_state" where
  "get_or_create_client cid host mac s =
     (case s_clients s cid of
        None \<Rightarrow> s\<lparr>s_clients := (s_clients s)(cid \<mapsto>
          \<lparr>c_id = cid, c_host_name = host, c_mac = mac, c_connected = False,
           c_config = client_config_default\<rparr>)\<rparr>
      | Some c \<Rightarrow> s\<lparr>s_clients := (s_clients s)(cid \<mapsto> c\<lparr>c_host_name := host, c_mac := mac\<rparr>)\<rparr>)"

text \<open>A new group of one client, unnamed and not muted.\<close>

definition new_group :: "string \<Rightarrow> string \<Rightarrow> string \<Rightarrow> group" where
  "new_group gid stream cid =
     \<lparr>g_id = gid, g_name = [], g_stream_id = stream, g_muted = False, g_clients = [cid]\<rparr>"

definition has_client :: "string \<Rightarrow> group \<Rightarrow> bool" where
  "has_client cid g \<longleftrightarrow> cid \<in> set (g_clients g)"

text \<open>\<open>group_for_client\<close>: the state after the call and the group it returns.\<close>

definition group_for_client ::
  "(nat \<Rightarrow> string) \<Rightarrow> nat \<Rightarrow> string \<Rightarrow> string \<Rightarrow> server_state \<Rightarrow> server_state \<times> nat \<times> group" where
  "group_for_client fresh n cid default_stream s =
     (case find (has_client cid) (s_groups s) of
        Some g \<Rightarrow> (s, n, g)
      | None \<Rightarrow>
          (let g = new_group (fresh n) default_stream cid in
           (s\<lparr>s_groups := s_groups s @ [g]\<rparr>, Suc n, g)))"

definition drop_client :: "string \<Rightarrow> group \<Rightarrow> group" where
  "drop_client cid g = g\<lparr>g_clients := filter (\<lambda>c. c \<noteq> cid) (g_clients g)\<rparr>"

definition nonempty_groups :: "group list \<Rightarrow> group list" where
  "nonempty_groups gs = filter (\<lambda>g. g_clients g \<noteq> []) gs"

definition remove_client_from_groups :: "string \<Rightarrow> server_state \<Rightarrow> server_state" where
  "remove_client_from_groups cid s =
     s\<lparr>s_groups := nonempty_groups (List.map (drop_client cid) (s_groups s))\<rparr>"

text \<open>\<open>self.groups.iter_mut().find(|g| g.id == group_id)\<close> with an update of what it finds.\<close>

definition update_group :: "string \<Rightarrow> (group \<Rightarrow> group) \<Rightarrow> group list \<Rightarrow> group list" where
  "update_group gid f gs = update_first (\<lambda>g. g_id g = gid) f gs"

fun evicted_groups :: "(nat \<Rightarrow> string) \<Rightarrow> nat \<Rightarrow> string \<Rightarrow> string list \<Rightarrow> group list" where
  "evicted_groups fresh n stream [] = []"
| "evicted_groups fresh n stream (c # cs) =
     new_group (fresh n) stream c # evicted_groups fresh (Suc n) stream cs"

text \<open>Step 1 of \<open>set_group_clients\<close>: members that are not listed get a group of their own.\<close>

definition evict_clients ::
  "(nat \<Rightarrow> string) \<Rightarrow> nat \<Rightarrow> string \<Rightarrow> string list \<Rightarrow> group list \<Rightarrow> group list \<times> nat" where
  "evict_clients fresh n gid cids gs =
     (let stream = (case find (\<lambda>g. g_id g = gid) gs of Some g \<Rightarrow> g_stream_id g | None \<Rightarrow> []) in
      case find (\<lambda>g. g_id g = gid) gs of
        None \<Rightarrow> (gs, n)
      | Some g \<Rightarrow>
          (let evicted = filter (\<lambda>c. c \<notin> set cids) (g_clients g) in
           (update_group gid (\<lambda>g. g\<lparr>g_clients := filter (\<lambda>c. c \<in> set cids) (g_clients g)\<rparr>) gs
              @ evicted_groups fresh n stream evicted,
            n + length evicted)))"

text \<open>Step 2: listed clients move from their groups to the target.\<close>

definition add_client :: "string \<Rightarrow> string \<Rightarrow> group list \<Rightarrow> group list" where
  "add_client gid cid gs =
     (if list_ex (\<lambda>g. g_id g = gid \<and> has_client cid g) gs then gs
      else update_group gid (\<lambda>g. g\<lparr>g_clients := g_clients g @ [cid]\<rparr>) (List.map (drop_client cid) gs))"

fun add_clients :: "string \<Rightarrow> string list \<Rightarrow> group list \<Rightarrow> group list" where
  "add_clients gid [] gs = gs"
| "add_clients gid (c # cs) gs = add_clients gid cs (add_client gid c gs)"

definition set_group_clients ::
  "(nat \<Rightarrow> string) \<Rightarrow> nat \<Rightarrow> string \<Rightarrow> string list \<Rightarrow> server_state \<Rightarrow> server_state \<times> nat" where
  "set_group_clients fresh n gid cids s =
     (let (gs, n') = evict_clients fresh n gid cids (s_groups s) in
      (s\<lparr>s_groups := nonempty_groups (add_clients gid cids gs)\<rparr>, n'))"

definition set_group_stream :: "string \<Rightarrow> string \<Rightarrow> server_state \<Rightarrow> server_state" where
  "set_group_stream gid stream s =
     s\<lparr>s_groups := update_group gid (\<lambda>g. g\<lparr>g_stream_id := stream\<rparr>) (s_groups s)\<rparr>"

subsection \<open>Status snapshot\<close>

definition status_of_client :: "client \<Rightarrow> status_client" where
  "status_of_client c =
     \<lparr>sc_id = c_id c, sc_connected = c_connected c,
      sc_config = \<lparr>scc_instance = 0, scc_latency = cc_latency (c_config c),
        scc_name = cc_name (c_config c),
        scc_volume = \<lparr>sl_muted = vol_muted (cc_volume (c_config c)),
          sl_percent = vol_percent (cc_volume (c_config c))\<rparr>\<rparr>,
      sc_host = status_host_default\<lparr>sh_name := c_host_name c, sh_mac := c_mac c\<rparr>,
      sc_snapclient = snapclient_default, sc_last_seen = last_seen_default\<rparr>"

definition status_of_group :: "(string \<rightharpoonup> client) \<Rightarrow> group \<Rightarrow> status_group" where
  "status_of_group clients g =
     \<lparr>sg_id = g_id g, sg_name = g_name g, sg_stream_id = g_stream_id g, sg_muted = g_muted g,
      sg_clients = List.map status_of_client (List.map_filter clients (g_clients g))\<rparr>"

definition status_of_stream :: "stream_info \<Rightarrow> status_stream" where
  "status_of_stream st =
     \<lparr>st_id = si_id st, st_properties = None, st_status = stream_status_from (si_status st),
      st_uri = stream_uri_raw (si_uri st)\<rparr>"

definition to_status :: "string \<Rightarrow> server_state \<Rightarrow> server_status" where
  "to_status pkg_version s =
     \<lparr>ss_server = \<lparr>srv_server = \<lparr>sv_host = status_host_default,
                                sv_snapserver = snapserver_default pkg_version\<rparr>,
        srv_groups = List.map (status_of_group (s_clients s)) (s_groups s),
        srv_streams = List.map status_of_stream (s_streams s)\<rparr>\<rparr>"

subsection \<open>Well-formed states\<close>

text \<open>Group \<open>i\<close> has client \<open>c\<close>.\<close>

definition member_of :: "group list \<Rightarrow> string \<Rightarrow> string \<Rightarrow> bool" where
  "member_of gs c i \<longleftrightarrow> (\<exists>g\<in>set gs. g_id g = i \<and> has_client c g)"

definition groups_ok :: "group list \<Rightarrow> bool" where
  "groups_ok gs \<longleftrightarrow>
     distinct (List.map g_id gs) \<and>
     (\<forall>g\<in>set gs. distinct (g_clients g)) \<and>
     (\<forall>g\<in>set gs. \<forall>h\<in>set gs. \<forall>c\<in>set (g_clients g). has_client c h \<longrightarrow> g_id g = g_id h)"

definition groups_nonempty :: "group list \<Rightarrow> bool" where
  "groups_nonempty gs \<longleftrightarrow> (\<forall>g\<in>set gs. g_clients g \<noteq> [])"

definition clients_ok :: "(string \<rightharpoonup> client) \<Rightarrow> bool" where
  "clients_ok cs \<longleftrightarrow> (\<forall>i c. cs i = Some c \<longrightarrow> c_id c = i)"

definition state_ok :: "server_state \<Rightarrow> bool" where
  "state_ok s \<longleftrightarrow> groups_ok (s_groups s) \<and> groups_nonempty (s_groups s) \<and> clients_ok (s_clients s)"

text \<open>The ids that are still to come are pairwise distinct and not in use.\<close>

definition supply_ok :: "(nat \<Rightarrow> string) \<Rightarrow> nat \<Rightarrow> group list \<Rightarrow> bool" where
  "supply_ok fresh n gs \<longleftrightarrow> inj fresh \<and> (\<forall>k\<ge>n. fresh k \<notin> g_id ` set gs)"

end
