(* ===== verification/StatusJson.thy ===== *)
theory StatusJson
  imports ServerState
begin

text \<open>
  The JSON value of the status snapshot, as the derived serializers of
  \<open>snapcast-proto/src/status.rs\<close> build it (the order of an object's keys is not observable), and
  the read access that the control code has to JSON values: an index that is missing, or into a
  value that is no object, is null, and of a repeated key the last counts.
\<close>

definition jfield :: "string \<Rightarrow> json \<Rightarrow> json" where
  "jfield key j =
     (case j of JObj kvs \<Rightarrow> (case map_of (rev kvs) key of Some v \<Rightarrow> v | None \<Rightarrow> JNull) | _ \<Rightarrow> JNull)"

fun json_array :: "json \<Rightarrow> json list option" where
  "json_array (JArr xs) = Some xs"
| "json_array _ = None"

fun json_object :: "json \<Rightarrow> (string \<times> json) list option" where
  "json_object (JObj kvs) = Some kvs"
| "json_object _ = None"

definition json_u64 :: "json \<Rightarrow> int option" where
  "json_u64 = json_range 0 (2 ^ 64 - 1)"

definition json_i64 :: "json \<Rightarrow> int option" where
  "json_i64 = json_range (- (2 ^ 63)) (2 ^ 63 - 1)"

lemma jfield_simps [simp]:
  "jfield k JNull = JNull" "jfield k (JStr s) = JNull" "jfield k (JArr xs) = JNull"
  "jfield k (JObj []) = JNull"
  by (simp_all add: jfield_def)

lemma jfield_eval: "jfield k (JObj kvs) = (case map_of (rev kvs) k of Some v \<Rightarrow> v | None \<Rightarrow> JNull)"
  by (simp add: jfield_def)

lemma jfield_obj: "distinct (List.map fst kvs) \<Longrightarrow> (k, v) \<in> set kvs \<Longrightarrow> jfield k (JObj kvs) = v"
  by (simp add: jfield_def rev_map [symmetric] map_of_eq_Some_iff)

subsection \<open>The snapshot\<close>

definition host_json :: "status_host \<Rightarrow> json" where
  "host_json h = JObj [(''arch'', JStr (sh_arch h)), (''ip'', JStr (sh_ip h)), (''mac'', JStr (sh_mac h)),
     (''name'', JStr (sh_name h)), (''os'', JStr (sh_os h))]"

definition snapserver_json :: "snapserver_info \<Rightarrow> json" where
  "snapserver_json s = JObj [(''name'', JStr (sn_name s)),
     (''protocolVersion'', of_u32 (sn_protocol_version s)),
     (''controlProtocolVersion'', of_u32 (sn_control_protocol_version s)),
     (''version'', JStr (sn_version s))]"

definition server_info_json :: "server_info \<Rightarrow> json" where
  "server_info_json s = JObj [(''host'', host_json (sv_host s)),
     (''snapserver'', snapserver_json (sv_snapserver s))]"

definition volume_json :: "status_volume \<Rightarrow> json" where
  "volume_json v = JObj [(''muted'', JBool (sl_muted v)), (''percent'', of_u16 (sl_percent v))]"

definition client_config_json :: "status_client_config \<Rightarrow> json" where
  "client_config_json c = JObj [(''instance'', of_u32 (scc_instance c)), (''latency'', of_i32 (scc_latency c)),
     (''name'', JStr (scc_name c)), (''volume'', volume_json (scc_volume c))]"

definition snapclient_json :: "snapclient_info \<Rightarrow> json" where
  "snapclient_json s = JObj [(''name'', JStr (sni_name s)),
     (''protocolVersion'', of_u32 (sni_protocol_version s)), (''version'', JStr (sni_version s))]"

definition last_seen_json :: "last_seen \<Rightarrow> json" where
  "last_seen_json l = JObj [(''sec'', JInt (uint (ls_sec l))), (''usec'', JInt (uint (ls_usec l)))]"

definition client_json :: "status_client \<Rightarrow> json" where
  "client_json c = JObj [(''id'', JStr (sc_id c)), (''connected'', JBool (sc_connected c)),
     (''config'', client_config_json (sc_config c)), (''host'', host_json (sc_host c)),
     (''snapclient'', snapclient_json (sc_snapclient c)), (''lastSeen'', last_seen_json (sc_last_seen c))]"

definition group_json :: "status_group \<Rightarrow> json" where
  "group_json g = JObj [(''id'', JStr (sg_id g)), (''name'', JStr (sg_name g)),
     (''stream_id'', JStr (sg_stream_id g)), (''muted'', JBool (sg_muted g)),
     (''clients'', JArr (List.map client_json (sg_clients g)))]"

fun stream_status_json :: "stream_status \<Rightarrow> json" where
  "stream_status_json SIdle = JStr ''idle''"
| "stream_status_json SPlaying = JStr ''playing''"
| "stream_status_json SDisabled = JStr ''disabled''"
| "stream_status_json SUnknown = JStr ''unknown''"

definition uri_json :: "stream_uri \<Rightarrow> json" where
  "uri_json u = JObj [(''fragment'', JStr (su_fragment u)), (''host'', JStr (su_host u)),
     (''path'', JStr (su_path u)),
     (''query'', JObj (List.map (\<lambda>(k, v). (k, JStr v)) (su_query u))),
     (''raw'', JStr (su_raw u)), (''scheme'', JStr (su_scheme u))]"

definition stream_json :: "status_stream \<Rightarrow> json" where
  "stream_json s = JObj ([(''id'', JStr (st_id s))]
     @ (case st_properties s of None \<Rightarrow> [] | Some p \<Rightarrow> [(''properties'', p)])
     @ [(''status'', stream_status_json (st_status s)), (''uri'', uri_json (st_uri s))])"

definition status_json :: "server_status \<Rightarrow> json" where
  "status_json s = JObj [(''server'',
     JObj [(''server'', server_info_json (srv_server (ss_server s))),
       (''groups'', JArr (List.map group_json (srv_groups (ss_server s)))),
       (''streams'', JArr (List.map stream_json (srv_streams (ss_server s))))])]"

lemma status_groups [simp]:
  "jfield ''groups'' (jfield ''server'' (status_json s)) = JArr (List.map group_json (srv_groups (ss_server s)))"
  by (simp add: status_json_def jfield_def)

lemma group_fields [simp]:
  "jfield ''id'' (group_json g) = JStr (sg_id g)"
  "jfield ''clients'' (group_json g) = JArr (List.map client_json (sg_clients g))"
  by (simp_all add: group_json_def jfield_def)

lemma client_fields [simp]: "jfield ''id'' (client_json c) = JStr (sc_id c)"
  by (simp add: client_json_def jfield_def)

end
