(* ===== verification/Timeval.thy ===== *)
theory Timeval
  imports Prelude
begin

text \<open>
  \<open>Timeval\<close> of \<open>snapcast-proto/src/types.rs\<close>: two \<open>i32\<close> fields.  Additions and subtractions of
  the fields wrap, as the release profile does; \<open>/\<close> and \<open>%\<close> truncate towards zero.  The borrow
  loop of the subtraction is a recursion whose termination is proved.
\<close>

record timeval =
  tv_sec :: i32
  tv_usec :: i32

definition tv_zero :: timeval where
  "tv_zero = \<lparr>tv_sec = 0, tv_usec = 0\<rparr>"

definition from_usec :: "int \<Rightarrow> timeval" where
  "from_usec u = \<lparr>tv_sec = word_of_int (u sdiv 1000000), tv_usec = word_of_int (u smod 1000000)\<rparr>"

definition to_usec :: "timeval \<Rightarrow> int" where
  "to_usec tv = sint (tv_sec tv) * 1000000 + sint (tv_usec tv)"

definition tv_add :: "timeval \<Rightarrow> timeval \<Rightarrow> timeval" where
  "tv_add a b =
     (let sec = tv_sec a + tv_sec b; usec = tv_usec a + tv_usec b in
      if 1000000 \<le> sint usec then
        \<lparr>tv_sec = sec + word_of_int (sint usec sdiv 1000000),
         tv_usec = word_of_int (sint usec smod 1000000)\<rparr>
      else \<lparr>tv_sec = sec, tv_usec = usec\<rparr>)"

lemma sint_i32_bounds: "- 2147483648 \<le> sint (w :: i32)" "sint (w :: i32) < 2147483648"
  using sint_i32_range [of w] by (simp_all add: in_i32_def)

lemma sint_add_wrap: "sint (a + b :: i32) = wrap_i32 (sint a + sint b)"
  using sint_of_int_i32 [of "sint a + sint b"] by simp

lemma sint_sub_wrap: "sint (a - b :: i32) = wrap_i32 (sint a - sint b)"
  using sint_of_int_i32 [of "sint a - sint b"] by simp

lemma sint_add_i32: "in_i32 (sint a + sint b) \<Longrightarrow> sint (a + b :: i32) = sint a + sint b"
  by (simp only: sint_add_wrap wrap_i32_id)

lemma sint_sub_i32: "in_i32 (sint a - sint b) \<Longrightarrow> sint (a - b :: i32) = sint a - sint b"
  by (simp only: sint_sub_wrap wrap_i32_id)

lemma sint_million [simp]: "sint (1000000 :: i32) = 1000000"
  by simp

lemma sint_carry: "sint (u :: i32) < 0 \<Longrightarrow> sint (u + 1000000) = sint u + 1000000"
  using sint_add_i32 [of u 1000000] sint_i32_bounds [of u] by (simp add: in_i32_def)

text \<open>The loop \<open>while usec < 0 { sec -= 1; usec += 1_000_000; }\<close>.\<close>

function tv_borrow :: "i32 \<Rightarrow> i32 \<Rightarrow> timeval" where
  "tv_borrow sec usec =
     (if sint usec < 0 then tv_borrow (sec - 1) (usec + 1000000)
      else \<lparr>tv_sec = sec, tv_usec = usec\<rparr>)"
  by pat_completeness auto
termination
  by (relation "measure (\<lambda>(sec, usec). nat (- sint usec))") (auto simp: sint_carry)

declare tv_borrow.simps [simp del]

definition tv_sub :: "timeval \<Rightarrow> timeval \<Rightarrow> timeval" where
  "tv_sub a b = tv_borrow (tv_sec a - tv_sec b) (tv_usec a - tv_usec b)"

subsection \<open>Microseconds\<close>

definition tv_normal :: "timeval \<Rightarrow> bool" where
  "tv_normal tv \<longleftrightarrow> 0 \<le> sint (tv_usec tv) \<and> sint (tv_usec tv) < 1000000"

lemma sdiv_smod_million: "(u sdiv 1000000) * 1000000 + u smod 1000000 = (u :: int)"
  by (rule sdiv_mult_smod_eq)

lemma smod_million_bounds: "- 1000000 < (u :: int) smod 1000000" "(u :: int) smod 1000000 < 1000000"
  using smod_int_range [of 1000000 u] by simp_all

lemma sdiv_million_range:
  assumes "\<bar>u\<bar> < 2147483648 * 1000000"
  shows "in_i32 (u sdiv 1000000)"
proof -
  have "0 \<le> \<bar>u\<bar> div 1000000" by (simp add: pos_imp_zdiv_nonneg_iff)
  moreover have "\<bar>u\<bar> div 1000000 < 2147483648"
    using assms by linarith
  ultimately show ?thesis
    by (cases u "0 :: int" rule: linorder_cases)
      (simp_all add: in_i32_def signed_divide_int_def sgn_if)
qed

lemma sint_word_of_int [simp]: "in_i32 x \<Longrightarrow> sint (word_of_int x :: i32) = x"
  by (simp add: sint_of_int_i32)

lemma tv_borrow_done [simp]: "0 \<le> sint usec \<Longrightarrow> tv_borrow sec usec = \<lparr>tv_sec = sec, tv_usec = usec\<rparr>"
  by (simp add: tv_borrow.simps [of sec usec])

lemma tv_borrow_once:
  "sint usec < 0 \<Longrightarrow> - 1000000 \<le> sint usec \<Longrightarrow>
   tv_borrow sec usec = \<lparr>tv_sec = sec - 1, tv_usec = usec + 1000000\<rparr>"
  by (simp add: tv_borrow.simps [of sec usec] sint_carry)

lemma tv_borrow_nonneg: "0 \<le> sint (tv_usec (tv_borrow sec usec))"
proof (induction sec usec rule: tv_borrow.induct)
  case (1 sec usec)
  then show ?case by (cases "sint usec < 0") (simp_all add: tv_borrow.simps [of sec usec])
qed

lemma tv_borrow_bound:
  "sint usec < 1000000 \<Longrightarrow> sint (tv_usec (tv_borrow sec usec)) < 1000000"
proof (induction sec usec rule: tv_borrow.induct)
  case (1 sec usec)
  then show ?case
    by (cases "sint usec < 0") (simp_all add: tv_borrow.simps [of sec usec] sint_carry)
qed

subsection \<open>Properties\<close>

text \<open>Converting microseconds to a \<open>Timeval\<close> and back is exact over the whole range that 32-bit
  seconds cover, negative times included, and the microsecond field is below one second.\<close>

lemma usec_roundtrip:
  assumes "\<bar>u\<bar> < 2147483648 * 1000000"
  shows "to_usec (from_usec u) = u \<and> \<bar>sint (tv_usec (from_usec u))\<bar> < 1000000"
proof -
  have eq: "(u sdiv 1000000) * 1000000 + u smod 1000000 = u" by (rule sdiv_smod_million)
  have "in_i32 (u sdiv 1000000)" using assms by (rule sdiv_million_range)
  moreover have "in_i32 (u smod 1000000)" using smod_million_bounds [of u] by (simp add: in_i32_def)
  ultimately
  show ?thesis
    using eq smod_million_bounds [of u] by (simp add: to_usec_def from_usec_def abs_less_iff)
qed

lemma usec_roundtrip_witness:
  "to_usec (from_usec (- 1500000)) = - 1500000 \<and> \<bar>sint (tv_usec (from_usec (- 1500000)))\<bar> < 1000000"
  by (rule usec_roundtrip) simp

lemma tv_add_carry:
  assumes "tv_normal a" "tv_normal b"
  shows "sint (tv_usec a + tv_usec b) = sint (tv_usec a) + sint (tv_usec b)"
  using assms by (intro sint_add_i32) (auto simp: tv_normal_def in_i32_def)

text \<open>Adding two normalised timestamps gives the normalised timestamp of the sum, as long as the
  seconds do not overflow.\<close>

lemma tv_add_exact:
  assumes "tv_normal a" "tv_normal b"
    and "in_i32 (sint (tv_sec a) + sint (tv_sec b))" "in_i32 (sint (tv_sec a) + sint (tv_sec b) + 1)"
  shows "to_usec (tv_add a b) = to_usec a + to_usec b \<and> tv_normal (tv_add a b)"
proof (cases "1000000 \<le> sint (tv_usec a) + sint (tv_usec b)")
  case False
  with tv_add_carry [OF assms(1,2)] assms sint_add_i32 [OF assms(3)] show ?thesis
    by (simp add: tv_add_def Let_def to_usec_def tv_normal_def)
next
  case True
  let ?u = "sint (tv_usec a) + sint (tv_usec b)"
  have u: "?u < 2000000" using assms by (simp add: tv_normal_def)
  with True have d: "?u sdiv 1000000 = 1" "?u smod 1000000 = ?u - 1000000"
    by (simp_all add: signed_divide_int_def signed_modulo_int_def minus_div_mult_eq_mod [symmetric]
        div_pos_geq)
  have "sint (tv_sec a + tv_sec b + 1) = sint (tv_sec a) + sint (tv_sec b) + 1"
    using assms(3,4) sint_add_i32 [of "tv_sec a + tv_sec b" 1] by (simp add: sint_add_i32)
  moreover have "sint (tv_usec a + tv_usec b - 1000000) = ?u - 1000000"
    using True u tv_add_carry [OF assms(1,2)] sint_sub_i32 [of "tv_usec a + tv_usec b" 1000000]
    by (simp add: in_i32_def)
  ultimately show ?thesis
    using True d u tv_add_carry [OF assms(1,2)]
    by (simp add: tv_add_def Let_def to_usec_def tv_normal_def in_i32_def)
qed

lemma tv_add_exact_witness:
  "to_usec (tv_add (from_usec 1700000) (from_usec 2600000))
     = to_usec (from_usec 1700000) + to_usec (from_usec 2600000)
   \<and> tv_normal (tv_add (from_usec 1700000) (from_usec 2600000))"
  by (rule tv_add_exact) (simp_all add: from_usec_def tv_normal_def in_i32_def)

lemma tv_sub_exact_lemma:
  assumes "tv_normal a" "tv_normal b"
    and "in_i32 (sint (tv_sec a) - sint (tv_sec b))" "in_i32 (sint (tv_sec a) - sint (tv_sec b) - 1)"
  shows "to_usec (tv_sub a b) = to_usec a - to_usec b \<and> tv_normal (tv_sub a b)"
proof -
  have u: "sint (tv_usec a - tv_usec b) = sint (tv_usec a) - sint (tv_usec b)"
    using assms by (intro sint_sub_i32) (auto simp: tv_normal_def in_i32_def)
  show ?thesis
  proof (cases "sint (tv_usec a) < sint (tv_usec b)")
    case False
    with u assms sint_sub_i32 [OF assms(3)] show ?thesis
      by (simp add: tv_sub_def to_usec_def tv_normal_def)
  next
    case True
    have "sint (tv_sec a - tv_sec b - 1) = sint (tv_sec a) - sint (tv_sec b) - 1"
      using assms(3,4) sint_sub_i32 [of "tv_sec a - tv_sec b" 1] by (simp add: sint_sub_i32)
    moreover have "sint (tv_usec a - tv_usec b) < 0" "- 1000000 \<le> sint (tv_usec a - tv_usec b)"
      using True u assms by (simp_all add: tv_normal_def)
    ultimately show ?thesis
      using u assms
      by (simp add: tv_sub_def to_usec_def tv_normal_def tv_borrow_once sint_carry)
  qed
qed

text \<open>Subtracting two normalised timestamps terminates with the normalised timestamp of the
  difference: the borrow loop runs at most once.\<close>

lemma tv_sub_exact:
  assumes "tv_normal a" "tv_normal b"
    and "in_i32 (sint (tv_sec a) - sint (tv_sec b))" "in_i32 (sint (tv_sec a) - sint (tv_sec b) - 1)"
  shows "to_usec (tv_sub a b) = to_usec a - to_usec b \<and> tv_normal (tv_sub a b)"
  using assms by (rule tv_sub_exact_lemma)

lemma tv_sub_exact_witness:
  "to_usec (tv_sub (from_usec 3200000) (from_usec 1900000))
     = to_usec (from_usec 3200000) - to_usec (from_usec 1900000)
   \<and> tv_normal (tv_sub (from_usec 3200000) (from_usec 1900000))"
  by (rule tv_sub_exact) (simp_all add: from_usec_def tv_normal_def in_i32_def)

end
