(* ===== verification/Wire.thy ===== *)
theory Wire
  imports Timeval Utf8
begin

text \<open>
  The wire primitives of \<open>snapcast-proto/src/message/wire.rs\<close> and the little-endian integers and
  timestamps that the messages are made of.  Writers produce bytes; readers consume a prefix of
  the input and report \<open>ProtoError\<close>.  \<open>io::Error\<close> can only be an early end of input here, since
  the sources read frames from memory.
\<close>

datatype proto_error = IoEof | JsonError | PayloadTooLarge nat nat

definition DEFAULT_MAX_PAYLOAD_SIZE :: nat where
  "DEFAULT_MAX_PAYLOAD_SIZE = 2 * 1024 * 1024"

subsection \<open>Fixed-width integers\<close>

definition read_exact :: "nat \<Rightarrow> (proto_error, u8 list) reader" where
  "read_exact k bs = (if length bs < k then Inl IoEof else Inr (take k bs, drop k bs))"

definition get_u16 :: "(proto_error, u16) reader" where
  "get_u16 = rd_bind (read_exact 2) (\<lambda>b. rd_return (word_of_nat (le_dec b)))"

definition put_u16 :: "u16 \<Rightarrow> u8 list" where
  "put_u16 w = le_enc 2 (unat w)"

definition get_u32 :: "(proto_error, u32) reader" where
  "get_u32 = rd_bind (read_exact 4) (\<lambda>b. rd_return (word_of_nat (le_dec b)))"

definition put_u32 :: "u32 \<Rightarrow> u8 list" where
  "put_u32 w = le_enc 4 (unat w)"

lemma read_exact_append [simp]: "length xs = k \<Longrightarrow> read_exact k (xs @ rest) = Inr (xs, rest)"
  by (simp add: read_exact_def)

lemma read_exact_Inr: "read_exact k bs = Inr (x, rest) \<longleftrightarrow> bs = x @ rest \<and> length x = k"
  by (auto simp: read_exact_def)

lemma length_put_u16 [simp]: "length (put_u16 w) = 2"
  by (simp add: put_u16_def)

lemma length_put_u32 [simp]: "length (put_u32 w) = 4"
  by (simp add: put_u32_def)

lemma le_enc_of_dec: "length b = k \<Longrightarrow> le_enc k (le_dec b) = b"
  using le_enc_le_dec [of b] by simp

interpretation u16c: exact_codec put_u16 get_u16 "\<lambda>_. True"
proof unfold_locales
  fix w :: u16 and rest :: "u8 list"
  have "unat w < 65536" using unsigned_less [of w] by simp
  then show "get_u16 (put_u16 w @ rest) = Inr (w, rest)"
    by (simp add: get_u16_def put_u16_def reader_defs le_dec_le_enc)
next
  fix bs rest and w :: u16
  assume "get_u16 bs = Inr (w, rest)"
  then obtain b where b: "bs = b @ rest" "length b = 2" "w = word_of_nat (le_dec b)"
    by (auto simp: get_u16_def rd_bind_Inr rd_return_def read_exact_Inr)
  have "unat w = le_dec b" using le_dec_bound [of b] b by (simp add: unat_of_nat)
  with b show "bs = put_u16 w @ rest \<and> True" by (simp add: put_u16_def le_enc_of_dec)
qed

interpretation u32c: exact_codec put_u32 get_u32 "\<lambda>_. True"
proof unfold_locales
  fix w :: u32 and rest :: "u8 list"
  have "unat w < 4294967296" using unsigned_less [of w] by simp
  then show "get_u32 (put_u32 w @ rest) = Inr (w, rest)"
    by (simp add: get_u32_def put_u32_def reader_defs le_dec_le_enc)
next
  fix bs rest and w :: u32
  assume "get_u32 bs = Inr (w, rest)"
  then obtain b where b: "bs = b @ rest" "length b = 4" "w = word_of_nat (le_dec b)"
    by (auto simp: get_u32_def rd_bind_Inr rd_return_def read_exact_Inr)
  have "unat w = le_dec b" using le_dec_bound [of b] b by (simp add: unat_of_nat)
  with b show "bs = put_u32 w @ rest \<and> True" by (simp add: put_u32_def le_enc_of_dec)
qed

subsection \<open>Timestamps\<close>

definition get_timeval :: "(proto_error, timeval) reader" where
  "get_timeval = rd_bind get_u32 (\<lambda>s. rd_bind get_u32 (\<lambda>u.
     rd_return \<lparr>tv_sec = s, tv_usec = u\<rparr>))"

definition put_timeval :: "timeval \<Rightarrow> u8 list" where
  "put_timeval tv = put_u32 (tv_sec tv) @ put_u32 (tv_usec tv)"

lemma length_put_timeval [simp]: "length (put_timeval tv) = 8"
  by (simp add: put_timeval_def)

interpretation tvc: exact_codec put_timeval get_timeval "\<lambda>_. True"
proof unfold_locales
  fix tv rest
  show "get_timeval (put_timeval tv @ rest) = Inr (tv, rest)"
    by (simp add: get_timeval_def put_timeval_def u32c.bind_put rd_return_def)
next
  fix bs tv rest
  assume "get_timeval bs = Inr (tv, rest)"
  then show "bs = put_timeval tv @ rest \<and> True"
    by (auto simp: get_timeval_def put_timeval_def u32c.bind_iff rd_return_def)
qed

subsection \<open>Length-prefixed fields\<close>

definition read_checked_len :: "(proto_error, nat) reader" where
  "read_checked_len = rd_bind get_u32 (\<lambda>len.
     if DEFAULT_MAX_PAYLOAD_SIZE < unat len
     then rd_fail (PayloadTooLarge (unat len) DEFAULT_MAX_PAYLOAD_SIZE)
     else rd_return (unat len))"

definition read_string :: "(proto_error, string) reader" where
  "read_string = rd_bind read_checked_len (\<lambda>len. rd_bind (read_exact len) (\<lambda>buf.
     rd_return (from_bytes (from_utf8_lossy buf))))"

definition write_string :: "string \<Rightarrow> u8 list" where
  "write_string s = put_u32 (word_of_nat (length s)) @ as_bytes s"

definition read_bytes :: "(proto_error, u8 list) reader" where
  "read_bytes = rd_bind read_checked_len (\<lambda>len. rd_bind (read_exact len) rd_return)"

definition write_bytes :: "u8 list \<Rightarrow> u8 list" where
  "write_bytes data = put_u32 (word_of_nat (length data)) @ data"

definition string_wire_size :: "string \<Rightarrow> u32" where
  "string_wire_size s = 4 + word_of_nat (length s)"

definition bytes_wire_size :: "u8 list \<Rightarrow> u32" where
  "bytes_wire_size data = 4 + word_of_nat (length data)"

definition small :: "'a list \<Rightarrow> bool" where
  "small xs \<longleftrightarrow> length xs \<le> DEFAULT_MAX_PAYLOAD_SIZE"

definition string_ok :: "string \<Rightarrow> bool" where
  "string_ok s \<longleftrightarrow> small s \<and> str_ok s"

lemma unat_small: "n \<le> DEFAULT_MAX_PAYLOAD_SIZE \<Longrightarrow> unat (word_of_nat n :: u32) = n"
  by (simp add: unat_of_nat DEFAULT_MAX_PAYLOAD_SIZE_def)

lemma read_checked_len_put [simp]:
  "n \<le> DEFAULT_MAX_PAYLOAD_SIZE \<Longrightarrow>
   read_checked_len (put_u32 (word_of_nat n) @ rest) = Inr (n, rest)"
  by (simp add: read_checked_len_def u32c.bind_put unat_small rd_return_def)

lemma read_checked_len_Inr:
  "read_checked_len bs = Inr (n, rest) \<Longrightarrow>
   n \<le> DEFAULT_MAX_PAYLOAD_SIZE \<and> bs = put_u32 (word_of_nat n) @ rest"
  by (auto simp: read_checked_len_def u32c.bind_iff rd_fail_def rd_return_def split: if_splits)

interpretation bytesc: exact_codec write_bytes read_bytes small
proof unfold_locales
  fix x :: "u8 list" and rest
  assume "small x"
  then show "read_bytes (write_bytes x @ rest) = Inr (x, rest)"
    by (simp add: read_bytes_def write_bytes_def small_def rd_bind_def rd_return_def)
next
  fix bs x rest
  assume "read_bytes bs = Inr (x, rest)"
  then show "bs = write_bytes x @ rest \<and> small x"
    by (auto simp: read_bytes_def write_bytes_def small_def rd_bind_Inr rd_return_def
        read_exact_Inr dest!: read_checked_len_Inr)
qed

interpretation stringc: wire_codec write_string read_string string_ok
proof unfold_locales
  fix s :: string and rest
  assume "string_ok s"
  then show "read_string (write_string s @ rest) = Inr (s, rest)"
    by (simp add: read_string_def write_string_def string_ok_def str_ok_def small_def rd_bind_def
        rd_return_def from_utf8_lossy_valid)
qed

text \<open>Whatever bytes a peer sends, a string that is read is valid UTF-8.\<close>

lemma read_string_str_ok: "read_string bs = Inr (s, rest) \<Longrightarrow> str_ok s"
  by (auto simp: read_string_def rd_bind_Inr rd_return_def str_ok_def from_utf8_lossy_is_valid)

subsection \<open>Properties\<close>

text \<open>A string that a Rust program can hold and that fits the payload limit is read back exactly
  as written; and whatever bytes a peer sends, a string that is read is valid UTF-8 and its
  announced length was within the limit.\<close>

lemma wire_string:
  "(string_ok s \<longrightarrow> read_string (write_string s @ rest) = Inr (s, rest)) \<and>
   (read_string bs = Inr (t, left) \<longrightarrow>
      str_ok t \<and> length bs \<le> 4 + DEFAULT_MAX_PAYLOAD_SIZE + length left)"
  using stringc.get_put [of s rest] read_string_str_ok [of bs t left]
  by (auto simp: read_string_def rd_bind_Inr rd_return_def read_exact_Inr
      dest!: read_checked_len_Inr)

lemma wire_string_witness: "read_string (write_string ''flac'' @ [7]) = Inr (''flac'', [7])"
proof -
  have "string_ok ''flac''"
    by (simp add: string_ok_def small_def DEFAULT_MAX_PAYLOAD_SIZE_def str_ok_def as_bytes_def
        byte_of_def utf8_valid_ascii)
  then show ?thesis using wire_string [of "''flac''" "[7]" "[]" "[]" "[]"] by simp
qed

end
