(* ===== verification/Messages.thy ===== *)
theory Messages
  imports Wire Json
begin

text \<open>
  The messages of \<open>snapcast-proto/src/message/\<close>: the message types (\<open>mod.rs\<close>), the 26-byte base
  header (\<open>base.rs\<close>), the payload of each message and the factory that turns a header with its
  payload bytes into a typed message and back.  The text form of the JSON payloads is a
  parameter; the values they stand for are modelled field by field.
\<close>

subsection \<open>Message types\<close>

datatype message_type =
    MBase | MCodecHeader | MWireChunk | MServerSettings | MTime | MHello | MStreamTags
  | MClientInfo | MError | MCustom u16 | MUnknown u16

text \<open>The flag says whether the crate is built with the feature \<open>custom-protocol\<close>.\<close>

definition from_u16 :: "bool \<Rightarrow> u16 \<Rightarrow> message_type" where
  "from_u16 custom v =
     (if v = 0 then MBase
      else if v = 1 then MCodecHeader
      else if v = 2 then MWireChunk
      else if v = 3 then MServerSettings
      else if v = 4 then MTime
      else if v = 5 then MHello
      else if v = 6 then MStreamTags
      else if v = 7 then MClientInfo
      else if v = 8 then MError
      else if custom then MCustom v
      else MUnknown v)"

fun to_u16 :: "message_type \<Rightarrow> u16" where
  "to_u16 MBase = 0"
| "to_u16 MCodecHeader = 1"
| "to_u16 MWireChunk = 2"
| "to_u16 MServerSettings = 3"
| "to_u16 MTime = 4"
| "to_u16 MHello = 5"
| "to_u16 MStreamTags = 6"
| "to_u16 MClientInfo = 7"
| "to_u16 MError = 8"
| "to_u16 (MCustom v) = v"
| "to_u16 (MUnknown v) = v"

text \<open>The message types the parser can produce.\<close>

fun type_ok :: "bool \<Rightarrow> message_type \<Rightarrow> bool" where
  "type_ok custom (MCustom v) \<longleftrightarrow> custom \<and> 9 \<le> v"
| "type_ok custom (MUnknown v) \<longleftrightarrow> \<not> custom \<and> 9 \<le> v"
| "type_ok custom _ \<longleftrightarrow> True"

lemma ge9_distinct:
  "9 \<le> (v :: u16) \<Longrightarrow> v \<noteq> 0 \<and> v \<noteq> 1 \<and> v \<noteq> 2 \<and> v \<noteq> 3 \<and> v \<noteq> 4 \<and> v \<noteq> 5 \<and> v \<noteq> 6 \<and> v \<noteq> 7 \<and> v \<noteq> 8"
  by (auto simp: word_le_nat_alt)

lemma from_u16_to_u16: "type_ok custom t \<Longrightarrow> from_u16 custom (to_u16 t) = t"
  by (cases t) (simp_all add: from_u16_def ge9_distinct)

lemma to_u16_from_u16 [simp]: "to_u16 (from_u16 custom v) = v"
  by (simp add: from_u16_def)

lemma ge9_of_not_small:
  assumes "v \<noteq> 0" "v \<noteq> 1" "v \<noteq> 2" "v \<noteq> 3" "v \<noteq> 4" "v \<noteq> 5" "v \<noteq> 6" "v \<noteq> 7" "v \<noteq> (8 :: u16)"
  shows "9 \<le> v"
proof -
  have "unat v \<noteq> 0" "unat v \<noteq> 1" "unat v \<noteq> 2" "unat v \<noteq> 3" "unat v \<noteq> 4" "unat v \<noteq> 5"
    "unat v \<noteq> 6" "unat v \<noteq> 7" "unat v \<noteq> 8"
    using assms word_unat_eq_iff [of v 0] word_unat_eq_iff [of v 1] word_unat_eq_iff [of v 2]
      word_unat_eq_iff [of v 3] word_unat_eq_iff [of v 4] word_unat_eq_iff [of v 5]
      word_unat_eq_iff [of v 6] word_unat_eq_iff [of v 7] word_unat_eq_iff [of v 8]
    by simp_all
  then have "9 \<le> unat v" by linarith
  then show ?thesis by (simp add: word_le_nat_alt)
qed

lemma type_ok_from_u16: "type_ok custom (from_u16 custom v)"
  using ge9_of_not_small [of v] by (simp add: from_u16_def)

subsection \<open>Base header\<close>

record base_message =
  bm_msg_type :: message_type
  bm_id :: u16
  bm_refers_to :: u16
  bm_sent :: timeval
  bm_received :: timeval
  bm_size :: u32

definition HEADER_SIZE :: nat where
  "HEADER_SIZE = 26"

definition read_base :: "bool \<Rightarrow> (proto_error, base_message) reader" where
  "read_base custom =
     rd_bind get_u16 (\<lambda>raw_type.
     rd_bind get_u16 (\<lambda>mid.
     rd_bind get_u16 (\<lambda>refers_to.
     rd_bind get_timeval (\<lambda>sent.
     rd_bind get_timeval (\<lambda>received.
     rd_bind get_u32 (\<lambda>sz.
     rd_return \<lparr>bm_msg_type = from_u16 custom raw_type, bm_id = mid, bm_refers_to = refers_to,
                bm_sent = sent, bm_received = received, bm_size = sz\<rparr>))))))"

definition write_base :: "base_message \<Rightarrow> u8 list" where
  "write_base m =
     put_u16 (to_u16 (bm_msg_type m)) @ put_u16 (bm_id m) @ put_u16 (bm_refers_to m) @
     put_timeval (bm_sent m) @ put_timeval (bm_received m) @ put_u32 (bm_size m)"

definition base_ok :: "bool \<Rightarrow> base_message \<Rightarrow> bool" where
  "base_ok custom m \<longleftrightarrow> type_ok custom (bm_msg_type m)"

lemma length_write_base [simp]: "length (write_base m) = HEADER_SIZE"
  by (simp add: write_base_def HEADER_SIZE_def)

interpretation basec: exact_codec write_base "read_base custom" "base_ok custom" for custom
proof unfold_locales
  fix m rest
  assume "base_ok custom m"
  then show "read_base custom (write_base m @ rest) = Inr (m, rest)"
    by (simp add: read_base_def write_base_def base_ok_def u16c.bind_put u32c.bind_put
        tvc.bind_put rd_return_def from_u16_to_u16)
next
  fix bs m rest
  assume "read_base custom bs = Inr (m, rest)"
  then show "bs = write_base m @ rest \<and> base_ok custom m"
    by (auto simp: read_base_def write_base_def base_ok_def u16c.bind_iff u32c.bind_iff
        tvc.bind_iff rd_return_def type_ok_from_u16)
qed

subsection \<open>Payloads\<close>

record auth =
  au_scheme :: string
  au_param :: string

record hello =
  h_mac :: string
  h_host_name :: string
  h_version :: string
  h_client_name :: string
  h_os :: string
  h_arch :: string
  h_instance :: u32
  h_id :: string
  h_protocol_version :: u32
  h_auth :: "auth option"

record client_info =
  ci_volume :: u16
  ci_muted :: bool

record server_settings =
  ss_buffer_ms :: i32
  ss_latency :: i32
  ss_volume :: u16
  ss_muted :: bool

record codec_header =
  ch_codec :: string
  ch_payload :: "u8 list"

record wire_chunk =
  wc_timestamp :: timeval
  wc_payload :: "u8 list"

record error_msg =
  em_code :: u32
  em_error :: string
  em_message :: string

record time_msg =
  tm_latency :: timeval

subsubsection \<open>The values of the JSON payloads\<close>

definition auth_to_json :: "auth \<Rightarrow> json" where
  "auth_to_json a = JObj [(''scheme'', JStr (au_scheme a)), (''param'', JStr (au_param a))]"

definition auth_of_json :: "json \<Rightarrow> auth option" where
  "auth_of_json j =
     Option.bind (struct_fields [''scheme'', ''param''] j) (\<lambda>kvs.
     Option.bind (field json_string ''scheme'' kvs) (\<lambda>s.
     Option.bind (field json_string ''param'' kvs) (\<lambda>p.
     Some \<lparr>au_scheme = s, au_param = p\<rparr>)))"

definition hello_to_json :: "hello \<Rightarrow> json" where
  "hello_to_json h = JObj
     ([(''MAC'', JStr (h_mac h)), (''HostName'', JStr (h_host_name h)),
       (''Version'', JStr (h_version h)), (''ClientName'', JStr (h_client_name h)),
       (''OS'', JStr (h_os h)), (''Arch'', JStr (h_arch h)),
       (''Instance'', of_u32 (h_instance h)), (''ID'', JStr (h_id h)),
       (''SnapStreamProtocolVersion'', of_u32 (h_protocol_version h))]
      @ (case h_auth h of None \<Rightarrow> [] | Some a \<Rightarrow> [(''Auth'', auth_to_json a)]))"

definition hello_of_json :: "json \<Rightarrow> hello option" where
  "hello_of_json j =
     Option.bind (struct_fields [''MAC'', ''HostName'', ''Version'', ''ClientName'', ''OS'',
       ''Arch'', ''Instance'', ''ID'', ''SnapStreamProtocolVersion'', ''Auth''] j) (\<lambda>kvs.
     Option.bind (field json_string ''MAC'' kvs) (\<lambda>mac.
     Option.bind (field json_string ''HostName'' kvs) (\<lambda>host.
     Option.bind (field json_string ''Version'' kvs) (\<lambda>ver.
     Option.bind (field json_string ''ClientName'' kvs) (\<lambda>cname.
     Option.bind (field json_string ''OS'' kvs) (\<lambda>osn.
     Option.bind (field json_string ''Arch'' kvs) (\<lambda>arch.
     Option.bind (field json_u32 ''Instance'' kvs) (\<lambda>inst.
     Option.bind (field json_string ''ID'' kvs) (\<lambda>cid.
     Option.bind (field json_u32 ''SnapStreamProtocolVersion'' kvs) (\<lambda>pv.
     Option.bind (opt_field auth_of_json ''Auth'' kvs) (\<lambda>au.
     Some \<lparr>h_mac = mac, h_host_name = host, h_version = ver, h_client_name = cname, h_os = osn,
           h_arch = arch, h_instance = inst, h_id = cid, h_protocol_version = pv,
           h_auth = au\<rparr>)))))))))))"

definition client_info_to_json :: "client_info \<Rightarrow> json" where
  "client_info_to_json c =
     JObj [(''volume'', of_u16 (ci_volume c)), (''muted'', JBool (ci_muted c))]"

definition client_info_of_json :: "json \<Rightarrow> client_info option" where
  "client_info_of_json j =
     Option.bind (struct_fields [''volume'', ''muted''] j) (\<lambda>kvs.
     Option.bind (field json_u16 ''volume'' kvs) (\<lambda>v.
     Option.bind (field json_bool ''muted'' kvs) (\<lambda>m.
     Some \<lparr>ci_volume = v, ci_muted = m\<rparr>)))"

definition server_settings_to_json :: "server_settings \<Rightarrow> json" where
  "server_settings_to_json s =
     JObj [(''bufferMs'', of_i32 (ss_buffer_ms s)), (''latency'', of_i32 (ss_latency s)),
           (''volume'', of_u16 (ss_volume s)), (''muted'', JBool (ss_muted s))]"

definition server_settings_of_json :: "json \<Rightarrow> server_settings option" where
  "server_settings_of_json j =
     Option.bind (struct_fields [''bufferMs'', ''latency'', ''volume'', ''muted''] j) (\<lambda>kvs.
     Option.bind (field json_i32 ''bufferMs'' kvs) (\<lambda>b.
     Option.bind (field json_i32 ''latency'' kvs) (\<lambda>l.
     Option.bind (field json_u16 ''volume'' kvs) (\<lambda>v.
     Option.bind (field json_bool ''muted'' kvs) (\<lambda>m.
     Some \<lparr>ss_buffer_ms = b, ss_latency = l, ss_volume = v, ss_muted = m\<rparr>)))))"

lemmas json_struct_defs = struct_fields_def field_def opt_field_def

lemma auth_json_roundtrip [simp]: "auth_of_json (auth_to_json a) = Some a"
  by (simp add: auth_of_json_def auth_to_json_def json_struct_defs)

lemma hello_json_roundtrip [simp]: "hello_of_json (hello_to_json h) = Some h"
proof (cases "h_auth h")
  case None
  then show ?thesis by (simp add: hello_of_json_def hello_to_json_def json_struct_defs)
next
  case (Some a)
  then show ?thesis
    by (simp add: hello_of_json_def hello_to_json_def json_struct_defs auth_to_json_def
        auth_json_roundtrip [unfolded auth_to_json_def])
qed

lemma client_info_json_roundtrip [simp]: "client_info_of_json (client_info_to_json c) = Some c"
  by (simp add: client_info_of_json_def client_info_to_json_def json_struct_defs)

lemma server_settings_json_roundtrip [simp]:
  "server_settings_of_json (server_settings_to_json s) = Some s"
  by (simp add: server_settings_of_json_def server_settings_to_json_def json_struct_defs)

subsubsection \<open>Reading and writing payloads\<close>

definition read_json :: "(string \<Rightarrow> json option) \<Rightarrow> (json \<Rightarrow> 'a option) \<Rightarrow> (proto_error, 'a) reader"
where
  "read_json parse decode = rd_bind read_string (\<lambda>s.
     case Option.bind (parse s) decode of None \<Rightarrow> rd_fail JsonError | Some x \<Rightarrow> rd_return x)"

definition write_json :: "(json \<Rightarrow> string) \<Rightarrow> ('a \<Rightarrow> json) \<Rightarrow> 'a \<Rightarrow> u8 list" where
  "write_json print encode x = write_string (print (encode x))"

definition json_wire_size :: "(json \<Rightarrow> string) \<Rightarrow> ('a \<Rightarrow> json) \<Rightarrow> 'a \<Rightarrow> u32" where
  "json_wire_size print encode x = string_wire_size (print (encode x))"

text \<open>What is asked of the JSON text form at one value: it fits, and it parses back.\<close>

definition json_text_ok :: "(json \<Rightarrow> string) \<Rightarrow> (string \<Rightarrow> json option) \<Rightarrow> json \<Rightarrow> bool" where
  "json_text_ok print parse j \<longleftrightarrow> string_ok (print j) \<and> parse (print j) = Some j"

lemma read_write_json:
  "json_text_ok print parse (encode x) \<Longrightarrow> decode (encode x) = Some x \<Longrightarrow>
   read_json parse decode (write_json print encode x @ rest) = Inr (x, rest)"
  by (simp add: read_json_def write_json_def json_text_ok_def stringc.bind_put rd_return_def)

lemma read_write_json_exact:
  "json_text_ok print parse (encode x) \<Longrightarrow> decode (encode x) = Some x \<Longrightarrow>
   read_json parse decode (write_json print encode x) = Inr (x, [])"
  using read_write_json [where rest = "[]"] by simp

definition read_codec_header :: "(proto_error, codec_header) reader" where
  "read_codec_header = rd_bind read_string (\<lambda>codec. rd_bind read_bytes (\<lambda>payload.
     rd_return \<lparr>ch_codec = codec, ch_payload = payload\<rparr>))"

definition write_codec_header :: "codec_header \<Rightarrow> u8 list" where
  "write_codec_header h = write_string (ch_codec h) @ write_bytes (ch_payload h)"

definition codec_header_ok :: "codec_header \<Rightarrow> bool" where
  "codec_header_ok h \<longleftrightarrow> string_ok (ch_codec h) \<and> small (ch_payload h)"

definition codec_header_wire_size :: "codec_header \<Rightarrow> u32" where
  "codec_header_wire_size h = string_wire_size (ch_codec h) + bytes_wire_size (ch_payload h)"

definition read_wire_chunk :: "(proto_error, wire_chunk) reader" where
  "read_wire_chunk = rd_bind get_timeval (\<lambda>ts. rd_bind read_bytes (\<lambda>payload.
     rd_return \<lparr>wc_timestamp = ts, wc_payload = payload\<rparr>))"

definition write_wire_chunk :: "wire_chunk \<Rightarrow> u8 list" where
  "write_wire_chunk c = put_timeval (wc_timestamp c) @ write_bytes (wc_payload c)"

definition wire_chunk_ok :: "wire_chunk \<Rightarrow> bool" where
  "wire_chunk_ok c \<longleftrightarrow> small (wc_payload c)"

definition wire_chunk_wire_size :: "wire_chunk \<Rightarrow> u32" where
  "wire_chunk_wire_size c = 8 + bytes_wire_size (wc_payload c)"

definition read_error_msg :: "(proto_error, error_msg) reader" where
  "read_error_msg = rd_bind get_u32 (\<lambda>code. rd_bind read_string (\<lambda>err. rd_bind read_string (\<lambda>msg.
     rd_return \<lparr>em_code = code, em_error = err, em_message = msg\<rparr>)))"

definition write_error_msg :: "error_msg \<Rightarrow> u8 list" where
  "write_error_msg e = put_u32 (em_code e) @ write_string (em_error e) @ write_string (em_message e)"

definition error_msg_ok :: "error_msg \<Rightarrow> bool" where
  "error_msg_ok e \<longleftrightarrow> string_ok (em_error e) \<and> string_ok (em_message e)"

definition error_msg_wire_size :: "error_msg \<Rightarrow> u32" where
  "error_msg_wire_size e = 4 + string_wire_size (em_error e) + string_wire_size (em_message e)"

definition time_new :: time_msg where
  "time_new = \<lparr>tm_latency = tv_zero\<rparr>"

definition read_time :: "(proto_error, time_msg) reader" where
  "read_time = rd_bind get_timeval (\<lambda>l. rd_return \<lparr>tm_latency = l\<rparr>)"

definition write_time :: "time_msg \<Rightarrow> u8 list" where
  "write_time t = put_timeval (tm_latency t)"

interpretation codec_headerc: wire_codec write_codec_header read_codec_header codec_header_ok
  by unfold_locales
    (simp add: read_codec_header_def write_codec_header_def codec_header_ok_def
      stringc.bind_put bytesc.bind_put rd_return_def)

interpretation wire_chunkc: exact_codec write_wire_chunk read_wire_chunk wire_chunk_ok
  by unfold_locales
    (auto simp: read_wire_chunk_def write_wire_chunk_def wire_chunk_ok_def tvc.bind_put
      bytesc.bind_put tvc.bind_iff bytesc.bind_iff rd_return_def)

interpretation error_msgc: wire_codec write_error_msg read_error_msg error_msg_ok
  by unfold_locales
    (simp add: read_error_msg_def write_error_msg_def error_msg_ok_def u32c.bind_put
      stringc.bind_put rd_return_def)

interpretation timec: exact_codec write_time read_time "\<lambda>_. True"
  by unfold_locales
    (auto simp: read_time_def write_time_def tvc.bind_put tvc.bind_iff rd_return_def)

text \<open>The announced wire sizes are the lengths of the written forms.\<close>

lemma length_write_string: "length (write_string s) = 4 + length s"
  by (simp add: write_string_def)

lemma length_write_bytes: "length (write_bytes b) = 4 + length b"
  by (simp add: write_bytes_def)

lemma codec_header_wire_size:
  "codec_header_wire_size h = word_of_nat (length (write_codec_header h))"
  by (simp add: codec_header_wire_size_def write_codec_header_def string_wire_size_def
      bytes_wire_size_def length_write_string length_write_bytes)

lemma wire_chunk_wire_size:
  "wire_chunk_wire_size c = word_of_nat (length (write_wire_chunk c))"
  by (simp add: wire_chunk_wire_size_def write_wire_chunk_def bytes_wire_size_def
      length_write_bytes)

lemma error_msg_wire_size:
  "error_msg_wire_size e = word_of_nat (length (write_error_msg e))"
  by (simp add: error_msg_wire_size_def write_error_msg_def string_wire_size_def
      length_write_string)

subsection \<open>Properties\<close>

text \<open>The numbering of message types is a bijection between the 16-bit values and the types the
  parser produces, with and without the custom protocol: no value is refused and none is
  confused with another.\<close>

lemma message_type_roundtrip:
  "to_u16 (from_u16 custom v) = v \<and> type_ok custom (from_u16 custom v) \<and>
   (type_ok custom t \<longrightarrow> from_u16 custom (to_u16 t) = t)"
  by (simp add: from_u16_to_u16 type_ok_from_u16 del: to_u16.simps type_ok.simps)

lemma message_type_roundtrip_witness: "from_u16 True (to_u16 (MCustom 300)) = MCustom 300"
  using message_type_roundtrip [of True 0 "MCustom 300"] by simp

end
