(* ===== verification/Frames.thy ===== *)
theory Frames
  imports Messages
begin

text \<open>
  Typed messages and whole frames: \<open>message/factory.rs\<close> (\<open>serialize\<close>, \<open>deserialize\<close>), and the
  reading of one frame from a byte stream, which \<open>snapcast-client/src/connection/mod.rs\<close>
  (\<open>read_frame\<close>) and \<open>snapcast-server/src/session.rs\<close> (\<open>read_frame_from\<close>) do in the same way.
  The stream is the list of bytes that arrive before it ends; the time of arrival is an argument.
\<close>

datatype payload =
    PTime time_msg
  | PHello hello
  | PServerSettings server_settings
  | PCodecHeader codec_header
  | PWireChunk wire_chunk
  | PClientInfo client_info
  | PError error_msg
  | PStreamTags "u8 list"
  | PCustom "u8 list"

record typed_message =
  msg_base :: base_message
  msg_payload :: payload

definition payload_of :: "('a \<Rightarrow> payload) \<Rightarrow> proto_error + 'a \<times> u8 list \<Rightarrow> proto_error + payload" where
  "payload_of f r = (case r of Inl e \<Rightarrow> Inl e | Inr (x, rest) \<Rightarrow> Inr (f x))"

definition deserialize_payload ::
  "(string \<Rightarrow> json option) \<Rightarrow> message_type \<Rightarrow> u8 list \<Rightarrow> proto_error + payload" where
  "deserialize_payload parse t bs =
     (case t of
        MTime \<Rightarrow> payload_of PTime (read_time bs)
      | MHello \<Rightarrow> payload_of PHello (read_json parse hello_of_json bs)
      | MServerSettings \<Rightarrow> payload_of PServerSettings (read_json parse server_settings_of_json bs)
      | MCodecHeader \<Rightarrow> payload_of PCodecHeader (read_codec_header bs)
      | MWireChunk \<Rightarrow> payload_of PWireChunk (read_wire_chunk bs)
      | MClientInfo \<Rightarrow> payload_of PClientInfo (read_json parse client_info_of_json bs)
      | MError \<Rightarrow> payload_of PError (read_error_msg bs)
      | MStreamTags \<Rightarrow> Inr (PStreamTags bs)
      | MBase \<Rightarrow> Inr (PStreamTags bs)
      | MUnknown _ \<Rightarrow> Inr (PStreamTags bs)
      | MCustom _ \<Rightarrow> Inr (PCustom bs))"

definition deserialize ::
  "(string \<Rightarrow> json option) \<Rightarrow> base_message \<Rightarrow> u8 list \<Rightarrow> proto_error + typed_message" where
  "deserialize parse base bs =
     (case deserialize_payload parse (bm_msg_type base) bs of
        Inl e \<Rightarrow> Inl e
      | Inr p \<Rightarrow> Inr \<lparr>msg_base = base, msg_payload = p\<rparr>)"

definition write_payload :: "(json \<Rightarrow> string) \<Rightarrow> payload \<Rightarrow> u8 list" where
  "write_payload print p =
     (case p of
        PTime m \<Rightarrow> write_time m
      | PHello m \<Rightarrow> write_json print hello_to_json m
      | PServerSettings m \<Rightarrow> write_json print server_settings_to_json m
      | PCodecHeader m \<Rightarrow> write_codec_header m
      | PWireChunk m \<Rightarrow> write_wire_chunk m
      | PClientInfo m \<Rightarrow> write_json print client_info_to_json m
      | PError m \<Rightarrow> write_error_msg m
      | PStreamTags bs \<Rightarrow> bs
      | PCustom bs \<Rightarrow> bs)"

text \<open>The frame, and the header with the \<open>size\<close> that the call stores in it.\<close>

definition serialize ::
  "(json \<Rightarrow> string) \<Rightarrow> base_message \<Rightarrow> payload \<Rightarrow> u8 list \<times> base_message" where
  "serialize print base p =
     (let payload_buf = write_payload print p;
          base' = base\<lparr>bm_size := word_of_nat (length payload_buf)\<rparr> in
      (write_base base' @ payload_buf, base'))"

datatype frame_error = FrameEof | FrameTooLarge nat | FrameProto proto_error

definition ensure_payload_size :: "u32 \<Rightarrow> frame_error option" where
  "ensure_payload_size sz =
     (if unat sz \<le> DEFAULT_MAX_PAYLOAD_SIZE then None else Some (FrameTooLarge (unat sz)))"

definition read_frame ::
  "bool \<Rightarrow> (string \<Rightarrow> json option) \<Rightarrow> timeval \<Rightarrow> u8 list \<Rightarrow>
   frame_error + typed_message \<times> u8 list" where
  "read_frame custom parse now bs =
     (case read_exact HEADER_SIZE bs of
        Inl _ \<Rightarrow> Inl FrameEof
      | Inr (header_buf, rest) \<Rightarrow>
          (case read_base custom header_buf of
             Inl e \<Rightarrow> Inl (FrameProto e)
           | Inr (base, _) \<Rightarrow>
               (let base = base\<lparr>bm_received := now\<rparr> in
                case ensure_payload_size (bm_size base) of
                  Some e \<Rightarrow> Inl e
                | None \<Rightarrow>
                    (case read_exact (unat (bm_size base)) rest of
                       Inl _ \<Rightarrow> Inl FrameEof
                     | Inr (payload_buf, rest') \<Rightarrow>
                         (case deserialize parse base payload_buf of
                            Inl e \<Rightarrow> Inl (FrameProto e)
                          | Inr m \<Rightarrow> Inr (m, rest'))))))"

subsection \<open>Frames that can be read back\<close>

definition payload_matches :: "message_type \<Rightarrow> payload \<Rightarrow> bool" where
  "payload_matches t p \<longleftrightarrow>
     (case p of
        PTime _ \<Rightarrow> t = MTime
      | PHello _ \<Rightarrow> t = MHello
      | PServerSettings _ \<Rightarrow> t = MServerSettings
      | PCodecHeader _ \<Rightarrow> t = MCodecHeader
      | PWireChunk _ \<Rightarrow> t = MWireChunk
      | PClientInfo _ \<Rightarrow> t = MClientInfo
      | PError _ \<Rightarrow> t = MError
      | PStreamTags _ \<Rightarrow>
          (case t of MStreamTags \<Rightarrow> True | MBase \<Rightarrow> True | MUnknown _ \<Rightarrow> True | _ \<Rightarrow> False)
      | PCustom _ \<Rightarrow> (case t of MCustom _ \<Rightarrow> True | _ \<Rightarrow> False))"

definition payload_ok :: "(json \<Rightarrow> string) \<Rightarrow> (string \<Rightarrow> json option) \<Rightarrow> payload \<Rightarrow> bool" where
  "payload_ok print parse p \<longleftrightarrow>
     (case p of
        PTime _ \<Rightarrow> True
      | PHello m \<Rightarrow> json_text_ok print parse (hello_to_json m)
      | PServerSettings m \<Rightarrow> json_text_ok print parse (server_settings_to_json m)
      | PCodecHeader m \<Rightarrow> codec_header_ok m
      | PWireChunk m \<Rightarrow> wire_chunk_ok m
      | PClientInfo m \<Rightarrow> json_text_ok print parse (client_info_to_json m)
      | PError m \<Rightarrow> error_msg_ok m
      | PStreamTags bs \<Rightarrow> True
      | PCustom bs \<Rightarrow> True)
     \<and> small (write_payload print p)"

lemma deserialize_write:
  "payload_matches t p \<Longrightarrow> payload_ok print parse p \<Longrightarrow>
   deserialize_payload parse t (write_payload print p) = Inr p"
  by (cases p)
    (auto simp: read_write_json_exact payload_matches_def payload_ok_def deserialize_payload_def write_payload_def
      payload_of_def timec.get_put_exact codec_headerc.get_put_exact
      wire_chunkc.get_put_exact error_msgc.get_put_exact split: message_type.splits)

text \<open>A message as it is after a read: stamped, with the size of its payload.\<close>

definition frame_ok ::
  "bool \<Rightarrow> (json \<Rightarrow> string) \<Rightarrow> (string \<Rightarrow> json option) \<Rightarrow> timeval \<Rightarrow> typed_message \<Rightarrow> bool" where
  "frame_ok custom print parse now m \<longleftrightarrow>
     base_ok custom (msg_base m) \<and>
     payload_matches (bm_msg_type (msg_base m)) (msg_payload m) \<and>
     payload_ok print parse (msg_payload m) \<and>
     bm_size (msg_base m) = word_of_nat (length (write_payload print (msg_payload m))) \<and>
     bm_received (msg_base m) = now"

lemma read_frame_written:
  assumes "base_ok custom base" "payload_matches (bm_msg_type base) p" "payload_ok print parse p"
  shows "read_frame custom parse now (fst (serialize print base p) @ rest) =
     Inr (\<lparr>msg_base = base\<lparr>bm_size := word_of_nat (length (write_payload print p)),
                            bm_received := now\<rparr>, msg_payload = p\<rparr>, rest)"
proof -
  let ?sz = "word_of_nat (length (write_payload print p)) :: u32"
  let ?b = "base\<lparr>bm_size := ?sz\<rparr>"
  have le: "length (write_payload print p) \<le> DEFAULT_MAX_PAYLOAD_SIZE"
    using assms(3) by (simp add: payload_ok_def small_def)
  have sz: "unat ?sz = length (write_payload print p)" using le by (rule unat_small)
  have hdr: "read_base custom (write_base ?b) = Inr (?b, [])"
    using assms(1) by (intro basec.get_put_exact) (simp add: base_ok_def)
  from le sz deserialize_write [OF assms(2,3)] show ?thesis
    by (simp add: read_frame_def serialize_def Let_def hdr ensure_payload_size_def
        deserialize_def)
qed

interpretation framec: wire_codec
  "\<lambda>m. fst (serialize print (msg_base m) (msg_payload m))" "read_frame custom parse now"
  "frame_ok custom print parse now" for print custom parse now
proof unfold_locales
  fix m rest
  assume ok: "frame_ok custom print parse now m"
  then have eq: "(msg_base m)\<lparr>bm_size := word_of_nat (length (write_payload print (msg_payload m))),
      bm_received := now\<rparr> = msg_base m"
    by (cases "msg_base m") (simp add: frame_ok_def)
  from ok read_frame_written [of custom "msg_base m" "msg_payload m" print parse now rest]
  show "read_frame custom parse now (fst (serialize print (msg_base m) (msg_payload m)) @ rest)
        = Inr (m, rest)"
    by (simp add: frame_ok_def eq)
qed

subsection \<open>Frames that are refused\<close>

lemma read_base_header:
  "length h = HEADER_SIZE \<Longrightarrow> \<exists>base. read_base custom h = Inr (base, []) \<and> h = write_base base"
proof -
  assume len: "length h = HEADER_SIZE"
  have "\<exists>r. read_base custom h = Inr r"
    using len
    by (simp add: read_base_def rd_bind_def rd_return_def get_u16_def get_u32_def get_timeval_def
        read_exact_def HEADER_SIZE_def)
  then obtain base rest where r: "read_base custom h = Inr (base, rest)" by (metis surj_pair)
  then have "h = write_base base @ rest" by (rule basec.put_get [THEN conjunct1])
  with r len show ?thesis by auto
qed

lemma read_frame_short: "length bs < HEADER_SIZE \<Longrightarrow> read_frame custom parse now bs = Inl FrameEof"
  by (simp add: read_frame_def read_exact_def)

lemma read_frame_oversized:
  assumes "base_ok custom base" "DEFAULT_MAX_PAYLOAD_SIZE < unat (bm_size base)"
  shows "read_frame custom parse now (write_base base @ rest) = Inl (FrameTooLarge (unat (bm_size base)))"
  using assms basec.get_put_exact [of custom base]
  by (simp add: read_frame_def Let_def ensure_payload_size_def)

text \<open>What was read was at most a header and the largest payload.\<close>

lemma read_frame_consumes:
  assumes "read_frame custom parse now bs = Inr (m, rest)"
  shows "length bs = HEADER_SIZE + unat (bm_size (msg_base m)) + length rest \<and>
    unat (bm_size (msg_base m)) \<le> DEFAULT_MAX_PAYLOAD_SIZE \<and>
    rest = drop (HEADER_SIZE + unat (bm_size (msg_base m))) bs"
  using assms
  by (auto simp: read_frame_def read_exact_def Let_def ensure_payload_size_def deserialize_def
      ac_simps split: sum.splits if_splits prod.splits option.splits)

subsection \<open>Properties\<close>

text \<open>C21: A sequence of frames written one after the other on a stream is read back frame by frame,
  each with its own payload, and nothing of what follows is consumed.\<close>

theorem frames_roundtrip:
  assumes "list_all (frame_ok custom print parse now) ms"
  shows "get_many (read_frame custom parse now) (length ms)
      (put_all (\<lambda>m. fst (serialize print (msg_base m) (msg_payload m))) ms @ rest) = Inr (ms, rest)"
  using assms by (rule framec.get_many_put_all)

definition sample_base :: "message_type \<Rightarrow> nat \<Rightarrow> base_message" where
  "sample_base t n = \<lparr>bm_msg_type = t, bm_id = 1, bm_refers_to = 0, bm_sent = tv_zero,
     bm_received = tv_zero, bm_size = word_of_nat n\<rparr>"

definition sample_time :: typed_message where
  "sample_time = \<lparr>msg_base = sample_base MTime 8, msg_payload = PTime time_new\<rparr>"

definition sample_info :: typed_message where
  "sample_info = \<lparr>msg_base = sample_base MClientInfo 6,
     msg_payload = PClientInfo \<lparr>ci_volume = 40, ci_muted = False\<rparr>\<rparr>"

definition sample_print :: "json \<Rightarrow> string" where
  "sample_print j = ''{}''"

definition sample_parse :: "string \<Rightarrow> json option" where
  "sample_parse s = Some (client_info_to_json \<lparr>ci_volume = 40, ci_muted = False\<rparr>)"

lemma ascii_braces [simp]: "str_ok ''{}''"
  by (simp add: str_ok_def as_bytes_def byte_of_def utf8_valid_ascii)

lemma sample_frames_ok:
  "list_all (frame_ok custom sample_print sample_parse tv_zero) [sample_time, sample_info]"
  by (simp add: frame_ok_def sample_time_def sample_info_def sample_base_def base_ok_def
      payload_matches_def payload_ok_def write_payload_def write_time_def small_def
      DEFAULT_MAX_PAYLOAD_SIZE_def json_text_ok_def sample_print_def sample_parse_def string_ok_def
      write_json_def length_write_string)

lemma frames_roundtrip_witness:
  "get_many (read_frame True sample_parse tv_zero) (length [sample_time, sample_info])
     (put_all (\<lambda>m. fst (serialize sample_print (msg_base m) (msg_payload m)))
        [sample_time, sample_info] @ [1, 2]) = Inr ([sample_time, sample_info], [1, 2])"
  by (rule frames_roundtrip) (rule sample_frames_ok)

text \<open>C27: A frame whose header announces more than the largest payload is refused from its header
  alone, whatever follows; a frame that is accepted has consumed its header and exactly the
  announced number of bytes, which is at most that bound.\<close>

theorem read_frame_bounded:
  "(base_ok custom base \<longrightarrow> DEFAULT_MAX_PAYLOAD_SIZE < unat (bm_size base) \<longrightarrow>
      read_frame custom parse now (write_base base @ rest)
        = Inl (FrameTooLarge (unat (bm_size base)))) \<and>
   (read_frame custom parse now bs = Inr (m, left) \<longrightarrow>
      length bs = HEADER_SIZE + unat (bm_size (msg_base m)) + length left \<and>
      unat (bm_size (msg_base m)) \<le> DEFAULT_MAX_PAYLOAD_SIZE)"
  using read_frame_oversized read_frame_consumes by blast

definition huge_base :: base_message where
  "huge_base = (sample_base MHello 0)\<lparr>bm_size := 0xFFFFFFFF\<rparr>"

lemma read_frame_bounded_witness:
  "read_frame False sample_parse tv_zero (write_base huge_base) = Inl (FrameTooLarge 4294967295)"
proof -
  have "base_ok False huge_base" "DEFAULT_MAX_PAYLOAD_SIZE < unat (bm_size huge_base)"
    "unat (bm_size huge_base) = 4294967295"
    by (simp_all add: huge_base_def sample_base_def base_ok_def DEFAULT_MAX_PAYLOAD_SIZE_def)
  with read_frame_bounded [of False huge_base sample_parse tv_zero "[]" "[]" sample_time "[]"]
  show ?thesis by simp
qed

end
