(* ===== verification/ServerAuth.thy ===== *)
theory ServerAuth
  imports Frames Strings
begin

text \<open>
  Authentication of streaming clients: \<open>snapcast-server/src/auth.rs\<close> and the checks that
  \<open>session.rs\<close> makes between the Hello message and the registration of a client.  A validator and a
  client filter are functions, as the traits \<open>AuthValidator\<close> and \<open>ClientFilter\<close> are; base64 is a
  parameter.
\<close>

unbundle bit_operations_syntax

record auth_result =
  ar_username :: string
  ar_permissions :: "string list"

datatype auth_error = Unauthorized string | Forbidden string

fun auth_code :: "auth_error \<Rightarrow> int" where
  "auth_code (Unauthorized _) = 401"
| "auth_code (Forbidden _) = 403"

fun auth_message :: "auth_error \<Rightarrow> string" where
  "auth_message (Unauthorized m) = m"
| "auth_message (Forbidden m) = m"

definition PERM_STREAMING :: string where
  "PERM_STREAMING = ''Streaming''"

record role =
  ro_name :: string
  ro_permissions :: "string list"

record user =
  us_name :: string
  us_password :: string
  us_role :: string

type_synonym user_map = "string \<rightharpoonup> string \<times> role"

text \<open>Collecting pairs into a \<open>HashMap\<close>: a later pair replaces an earlier one.\<close>

definition collect_map :: "('k \<times> 'v) list \<Rightarrow> 'k \<rightharpoonup> 'v" where
  "collect_map kvs = map_of (rev kvs)"

definition empty_role :: role where
  "empty_role = \<lparr>ro_name = [], ro_permissions = []\<rparr>"

text \<open>The role with a name, or the empty role; a later role of the same name counts.\<close>

definition role_of :: "role list \<Rightarrow> string \<Rightarrow> role" where
  "role_of roles nm =
     (case collect_map (List.map (\<lambda>r. (ro_name r, r)) roles) nm of
        Some r \<Rightarrow> r | None \<Rightarrow> empty_role)"

definition static_auth_new :: "user list \<Rightarrow> role list \<Rightarrow> user_map" where
  "static_auth_new users roles =
     collect_map (List.map (\<lambda>u. (us_name u, (us_password u, role_of roles (us_role u)))) users)"

definition ascii_lower :: "char \<Rightarrow> char" where
  "ascii_lower c =
     (let n = (of_char c :: nat) in if 65 \<le> n \<and> n \<le> 90 then char_of (n + 32) else c)"

definition eq_ignore_ascii_case :: "string \<Rightarrow> string \<Rightarrow> bool" where
  "eq_ignore_ascii_case a b \<longleftrightarrow> List.map ascii_lower a = List.map ascii_lower b"

definition constant_time_eq :: "u8 list \<Rightarrow> u8 list \<Rightarrow> bool" where
  "constant_time_eq a b \<longleftrightarrow>
     length a = length b \<and> foldl (\<lambda>acc (x, y). acc OR (x XOR y)) 0 (zip a b) = (0 :: u8)"

definition static_validate ::
  "(string \<Rightarrow> u8 list option) \<Rightarrow> user_map \<Rightarrow> string \<Rightarrow> string \<Rightarrow> auth_error + auth_result" where
  "static_validate b64_decode users scheme param =
     (if \<not> eq_ignore_ascii_case scheme ''basic'' then
        Inl (Unauthorized (''Unsupported auth scheme: '' @ scheme))
      else case b64_decode param of
        None \<Rightarrow> Inl (Unauthorized ''Invalid base64'')
      | Some bytes \<Rightarrow>
          (if \<not> utf8_valid bytes then Inl (Unauthorized ''Invalid UTF-8'')
           else case split_once CHR '':'' (from_bytes bytes) of
             None \<Rightarrow> Inl (Unauthorized ''Expected user:password'')
           | Some (username, password) \<Rightarrow>
               (case users username of
                  None \<Rightarrow> Inl (Unauthorized ''Unknown user'')
                | Some (stored_pw, r) \<Rightarrow>
                    (if \<not> constant_time_eq (as_bytes stored_pw) (as_bytes password) then
                       Inl (Unauthorized ''Wrong password'')
                     else Inr \<lparr>ar_username = username, ar_permissions = ro_permissions r\<rparr>))))"

subsection \<open>Admission of a client\<close>

text \<open>The outcome of the steps before registration, with the error frame that is sent, if any.\<close>

datatype admission = Admitted hello | Dropped | Refused error_msg

definition validate_auth ::
  "(string \<Rightarrow> string \<Rightarrow> auth_error + auth_result) \<Rightarrow> hello \<Rightarrow> error_msg option" where
  "validate_auth validate h =
     (let auth_result = (case h_auth h of
            Some a \<Rightarrow> validate (au_scheme a) (au_param a)
          | None \<Rightarrow> Inl (Unauthorized ''Authentication required'')) in
      case auth_result of
        Inr res \<Rightarrow>
          (if \<not> list_ex (\<lambda>p. p = PERM_STREAMING) (ar_permissions res) then
             Some \<lparr>em_code = 403, em_error = ''Permission 'Streaming' missing'',
                   em_message = ''Forbidden''\<rparr>
           else None)
      | Inl e \<Rightarrow> Some \<lparr>em_code = word_of_int (auth_code e), em_error = auth_message e,
                       em_message = auth_message e\<rparr>)"

definition admit ::
  "(hello \<Rightarrow> bool) option \<Rightarrow> (string \<Rightarrow> string \<Rightarrow> auth_error + auth_result) option \<Rightarrow>
   payload \<Rightarrow> admission" where
  "admit client_filter auth p =
     (case p of
        PHello h \<Rightarrow>
          (if (case client_filter of Some f \<Rightarrow> \<not> f h | None \<Rightarrow> False) then Dropped
           else case auth of
             None \<Rightarrow> Admitted h
           | Some validate \<Rightarrow>
               (case validate_auth validate h of None \<Rightarrow> Admitted h | Some e \<Rightarrow> Refused e))
      | _ \<Rightarrow> Dropped)"

subsection \<open>Lemmas\<close>

lemma or_zero: "(a :: u8) OR b = 0 \<longleftrightarrow> a = 0 \<and> b = 0"
  by (simp add: or_eq_0_iff)

lemma xor_zero: "(a :: u8) XOR b = 0 \<longleftrightarrow> a = b"
  by (metis xor_self_eq xor.assoc xor.right_neutral xor.left_neutral)

lemma ct_fold: "foldl (\<lambda>acc (x, y). acc OR (x XOR y)) (z :: u8) ps = 0 \<longleftrightarrow>
    z = 0 \<and> (\<forall>(x, y)\<in>set ps. x = y)"
  by (induction ps arbitrary: z) (auto simp: or_zero xor_zero)

lemma constant_time_eq [simp]: "constant_time_eq a b \<longleftrightarrow> a = b"
  by (simp add: constant_time_eq_def ct_fold list_eq_iff_zip_eq)

lemma collect_map_in: "collect_map kvs k = Some v \<Longrightarrow> (k, v) \<in> set kvs"
  by (auto simp: collect_map_def dest: map_of_SomeD)

lemma collect_map_distinct:
  "distinct (List.map fst kvs) \<Longrightarrow> (k, v) \<in> set kvs \<Longrightarrow> collect_map kvs k = Some v"
  by (simp add: collect_map_def rev_map [symmetric])

subsection \<open>Properties\<close>

lemma static_auth_lookup:
  assumes "distinct (List.map us_name users)"
  shows "static_auth_new users roles nm = Some (pw, r) \<longleftrightarrow>
    (\<exists>u\<in>set users. us_name u = nm \<and> us_password u = pw \<and> r = role_of roles (us_role u))"
proof -
  let ?entries = "List.map (\<lambda>u. (us_name u, (us_password u, role_of roles (us_role u)))) users"
  have "distinct (List.map fst ?entries)" using assms by (simp add: comp_def)
  then have "collect_map ?entries nm = Some (pw, r) \<longleftrightarrow> (nm, (pw, r)) \<in> set ?entries"
    using collect_map_in [of ?entries nm "(pw, r)"] collect_map_distinct [of ?entries nm "(pw, r)"]
    by blast
  then show ?thesis by (auto simp: static_auth_new_def)
qed

text \<open>C24: With distinct user names, the static validator accepts exactly Basic credentials that
  decode to the name and password of a configured user, and grants exactly the permissions of that
  user's role, none when the role does not exist.\<close>

theorem static_auth_spec:
  assumes "distinct (List.map us_name users)"
  shows "static_validate b64_decode (static_auth_new users roles) scheme param = Inr res \<longleftrightarrow>
    eq_ignore_ascii_case scheme ''basic'' \<and>
    (\<exists>u\<in>set users. \<exists>bytes. b64_decode param = Some bytes \<and> utf8_valid bytes \<and>
       CHR '':'' \<notin> set (us_name u) \<and>
       from_bytes bytes = us_name u @ CHR '':'' # us_password u \<and>
       res = \<lparr>ar_username = us_name u, ar_permissions = ro_permissions (role_of roles (us_role u))\<rparr>)"
    (is "?l \<longleftrightarrow> ?r")
proof
  assume ?l
  then obtain bytes nm pw pw' r where b: "b64_decode param = Some bytes" "utf8_valid bytes"
    "split_once CHR '':'' (from_bytes bytes) = Some (nm, pw)"
    "static_auth_new users roles nm = Some (pw', r)" "pw' = pw"
    "res = \<lparr>ar_username = nm, ar_permissions = ro_permissions r\<rparr>"
    "eq_ignore_ascii_case scheme ''basic''"
    by (auto simp: static_validate_def split: if_splits option.splits)
  moreover from b(4) obtain u where "u \<in> set users" "us_name u = nm" "us_password u = pw'"
    "r = role_of roles (us_role u)"
    unfolding static_auth_lookup [OF assms] by blast
  ultimately show ?r by (auto simp: split_once_Some)
next
  assume ?r
  then obtain u bytes where u: "u \<in> set users" "b64_decode param = Some bytes" "utf8_valid bytes"
    "CHR '':'' \<notin> set (us_name u)" "from_bytes bytes = us_name u @ CHR '':'' # us_password u"
    "res = \<lparr>ar_username = us_name u, ar_permissions = ro_permissions (role_of roles (us_role u))\<rparr>"
    "eq_ignore_ascii_case scheme ''basic''" by auto
  have "static_auth_new users roles (us_name u) = Some (us_password u, role_of roles (us_role u))"
    using u(1) by (auto simp: static_auth_lookup [OF assms])
  then show ?l using u by (simp add: static_validate_def)
qed

definition demo_users :: "user list" where
  "demo_users = [\<lparr>us_name = ''ann'', us_password = ''pw'', us_role = ''full''\<rparr>]"

definition demo_roles :: "role list" where
  "demo_roles = [\<lparr>ro_name = ''full'', ro_permissions = [PERM_STREAMING]\<rparr>]"

lemma static_auth_spec_witness:
  "static_validate (\<lambda>s. Some (as_bytes s)) (static_auth_new demo_users demo_roles) ''BASIC'' ''ann:pw''
     = Inr \<lparr>ar_username = ''ann'', ar_permissions = [PERM_STREAMING]\<rparr>"
proof -
  have "eq_ignore_ascii_case ''BASIC'' ''basic''" by code_simp
  moreover have "role_of demo_roles ''full'' = \<lparr>ro_name = ''full'', ro_permissions = [PERM_STREAMING]\<rparr>"
    by (simp add: role_of_def demo_roles_def collect_map_def)
  moreover have "utf8_valid (as_bytes ''ann:pw'')"
    by (simp add: as_bytes_def byte_of_def utf8_valid_ascii)
  ultimately show ?thesis by (subst static_auth_spec) (simp_all add: demo_users_def)
qed

end
