(* ===== verification/GroupLemmas.thy ===== *)
theory GroupLemmas
  imports ServerState
begin

text \<open>
  The library of the group operations: how each one changes which group a client is in, and that
  each keeps the groups well formed.  The update of the first group with an id is the update of
  every group with that id, since ids are distinct; this turns all operations into maps.
\<close>

lemma groups_ok_distinct: "groups_ok gs \<Longrightarrow> distinct (List.map g_id gs)"
  by (simp add: groups_ok_def)

lemma groups_okI:
  assumes "distinct (List.map g_id gs)"
    and "\<And>g. g \<in> set gs \<Longrightarrow> distinct (g_clients g)"
    and "\<And>g h c. g \<in> set gs \<Longrightarrow> h \<in> set gs \<Longrightarrow> has_client c g \<Longrightarrow> has_client c h \<Longrightarrow>
           g_id g = g_id h"
  shows "groups_ok gs"
  using assms unfolding groups_ok_def has_client_def by blast

lemma groups_ok_clients: "groups_ok gs \<Longrightarrow> g \<in> set gs \<Longrightarrow> distinct (g_clients g)"
  by (simp add: groups_ok_def)

lemma groups_ok_same:
  "groups_ok gs \<Longrightarrow> g \<in> set gs \<Longrightarrow> h \<in> set gs \<Longrightarrow> has_client c g \<Longrightarrow> has_client c h \<Longrightarrow>
   g_id g = g_id h"
  unfolding groups_ok_def has_client_def by blast

lemma groups_ok_unique:
  "groups_ok gs \<Longrightarrow> g \<in> set gs \<Longrightarrow> h \<in> set gs \<Longrightarrow> g_id g = g_id h \<Longrightarrow> g = h"
  by (auto simp: groups_ok_def distinct_map inj_on_def)

lemma member_of_unique: "groups_ok gs \<Longrightarrow> member_of gs c i \<Longrightarrow> member_of gs c j \<Longrightarrow> i = j"
  unfolding groups_ok_def member_of_def has_client_def by blast

lemma member_of_append [simp]: "member_of (xs @ ys) c i \<longleftrightarrow> member_of xs c i \<or> member_of ys c i"
  by (auto simp: member_of_def)

lemma member_of_Nil [simp]: "\<not> member_of [] c i"
  by (simp add: member_of_def)

lemma member_of_id: "member_of gs c i \<Longrightarrow> i \<in> g_id ` set gs"
  by (auto simp: member_of_def)

lemma update_group_map:
  "distinct (List.map g_id gs) \<Longrightarrow>
   update_group gid f gs = List.map (\<lambda>g. if g_id g = gid then f g else g) gs"
proof (induction gs)
  case Nil
  then show ?case by (simp add: update_group_def)
next
  case (Cons g gs)
  show ?case
  proof (cases "g_id g = gid")
    case True
    with Cons.prems have "gid \<notin> g_id ` set gs" by simp
    then have "\<forall>h\<in>set gs. g_id h \<noteq> gid" by blast
    then have "List.map (\<lambda>g. if g_id g = gid then f g else g) gs = gs" by (simp add: map_idI)
    with True show ?thesis by (simp add: update_group_def)
  next
    case False
    with Cons show ?thesis by (simp add: update_group_def)
  qed
qed

text \<open>
  Maps that keep the ids and, in each group, keep the remaining members distinct.
\<close>

lemma groups_ok_map:
  assumes "groups_ok gs"
    and "\<And>g. g \<in> set gs \<Longrightarrow> g_id (f g) = g_id g"
    and "\<And>g. g \<in> set gs \<Longrightarrow> distinct (g_clients (f g))"
    and "\<And>g h c. g \<in> set gs \<Longrightarrow> h \<in> set gs \<Longrightarrow> has_client c (f g) \<Longrightarrow> has_client c (f h) \<Longrightarrow>
           g_id g = g_id h"
  shows "groups_ok (List.map f gs)"
proof -
  have "List.map g_id (List.map f gs) = List.map g_id gs" using assms(2) by simp
  then have "distinct (List.map g_id (List.map f gs))" using assms(1) by (simp only: groups_ok_distinct)
  then show ?thesis
  proof (rule groups_okI)
    fix g assume "g \<in> set (List.map f gs)"
    then show "distinct (g_clients g)" using assms(3) by auto
  next
    fix g h c assume "g \<in> set (List.map f gs)" "h \<in> set (List.map f gs)" "has_client c g" "has_client c h"
    then obtain g' h' where gh: "g' \<in> set gs" "h' \<in> set gs" "g = f g'" "h = f h'"
      "has_client c (f g')" "has_client c (f h')" by auto
    then show "g_id g = g_id h" using assms(2) assms(4) [of g' h' c] by simp
  qed
qed

lemma groups_ok_sub:
  "groups_ok gs \<Longrightarrow> (\<And>g. g \<in> set gs \<Longrightarrow> g_id (f g) = g_id g) \<Longrightarrow>
   (\<And>g. g \<in> set gs \<Longrightarrow> distinct (g_clients (f g))) \<Longrightarrow>
   (\<And>g. g \<in> set gs \<Longrightarrow> set (g_clients (f g)) \<subseteq> set (g_clients g)) \<Longrightarrow> groups_ok (List.map f gs)"
proof (rule groups_ok_map)
  fix g h c
  assume "groups_ok gs" and sub: "\<And>g. g \<in> set gs \<Longrightarrow> set (g_clients (f g)) \<subseteq> set (g_clients g)"
    and "g \<in> set gs" "h \<in> set gs" "has_client c (f g)" "has_client c (f h)"
  moreover from this have "has_client c g" "has_client c h"
    unfolding has_client_def using sub by blast+
  ultimately show "g_id g = g_id h" using groups_ok_same by blast
qed

lemma groups_ok_filter: "groups_ok gs \<Longrightarrow> groups_ok (filter P gs)"
  by (rule groups_okI)
    (auto simp: groups_ok_clients distinct_map_filter groups_ok_distinct dest: groups_ok_same)

lemma groups_ok_nonempty_groups [simp]: "groups_ok gs \<Longrightarrow> groups_ok (nonempty_groups gs)"
  by (simp add: nonempty_groups_def groups_ok_filter)

lemma groups_nonempty_nonempty_groups [simp]: "groups_nonempty (nonempty_groups gs)"
  by (simp add: groups_nonempty_def nonempty_groups_def)

lemma member_of_nonempty_groups [simp]: "member_of (nonempty_groups gs) c i = member_of gs c i"
  by (auto simp: member_of_def nonempty_groups_def has_client_def)

lemma groups_ok_append:
  assumes "groups_ok xs" "groups_ok ys"
    and "g_id ` set xs \<inter> g_id ` set ys = {}"
    and "\<And>c i j. member_of xs c i \<Longrightarrow> \<not> member_of ys c j"
  shows "groups_ok (xs @ ys)"
proof -
  have no: False if "g \<in> set xs" "h \<in> set ys" "has_client c g" "has_client c h" for g h c
    using assms(4) [of c "g_id g" "g_id h"] that unfolding member_of_def by blast
  show ?thesis
  proof (rule groups_okI)
    show "distinct (List.map g_id (xs @ ys))"
      using assms(1-3) by (simp add: groups_ok_distinct del: distinct_map)
  next
    fix g assume "g \<in> set (xs @ ys)"
    then show "distinct (g_clients g)" using assms(1,2) groups_ok_clients by auto
  next
    fix g h c assume "g \<in> set (xs @ ys)" "h \<in> set (xs @ ys)" "has_client c g" "has_client c h"
    then show "g_id g = g_id h"
      using no [of g h c] no [of h g c] groups_ok_same [OF assms(1), of g h c]
        groups_ok_same [OF assms(2), of g h c] by auto
  qed
qed

subsection \<open>Dropping a client\<close>

lemma drop_client_id [simp]: "g_id (drop_client c g) = g_id g"
  by (simp add: drop_client_def)

lemma has_client_drop [simp]: "has_client c (drop_client d g) \<longleftrightarrow> c \<noteq> d \<and> has_client c g"
  by (auto simp: drop_client_def has_client_def)

lemma groups_ok_drop [simp]: "groups_ok gs \<Longrightarrow> groups_ok (List.map (drop_client c) gs)"
  by (rule groups_ok_sub) (auto simp: drop_client_def groups_ok_def)

lemma member_of_drop [simp]:
  "member_of (List.map (drop_client d) gs) c i \<longleftrightarrow> c \<noteq> d \<and> member_of gs c i"
  by (auto simp: member_of_def)

subsection \<open>New groups\<close>

lemma new_group_simps [simp]:
  "g_id (new_group i st c) = i" "g_stream_id (new_group i st c) = st"
  "g_clients (new_group i st c) = [c]" "g_muted (new_group i st c) = False"
  "g_name (new_group i st c) = []" "has_client d (new_group i st c) \<longleftrightarrow> d = c"
  by (auto simp: new_group_def has_client_def)

lemma evicted_ids: "List.map g_id (evicted_groups fresh n st cs) = List.map fresh [n..<n + length cs]"
  by (induction cs arbitrary: n) (simp_all add: upt_conv_Cons del: upt_Suc)

lemma evicted_clients: "List.map g_clients (evicted_groups fresh n st cs) = List.map (\<lambda>c. [c]) cs"
  by (induction cs arbitrary: n) simp_all

lemma evicted_mem:
  "g \<in> set (evicted_groups fresh n st cs) \<Longrightarrow>
   \<exists>k c. n \<le> k \<and> k < n + length cs \<and> c \<in> set cs \<and> g = new_group (fresh k) st c"
proof (induction cs arbitrary: n)
  case Nil
  then show ?case by simp
next
  case (Cons a cs)
  show ?case
  proof (cases "g = new_group (fresh n) st a")
    case True
    then show ?thesis by (intro exI [of _ n] exI [of _ a]) simp
  next
    case False
    with Cons.prems have "g \<in> set (evicted_groups fresh (Suc n) st cs)" by simp
    from Cons.IH [OF this] show ?thesis by (metis Suc_le_eq add_Suc_shift le_eq_less_or_eq
          length_Cons list.set_intros(2))
  qed
qed

lemma evicted_has: "c \<in> set cs \<Longrightarrow> \<exists>k\<ge>n. member_of (evicted_groups fresh n st cs) c (fresh k)"
proof (induction cs arbitrary: n)
  case Nil
  then show ?case by simp
next
  case (Cons a cs)
  show ?case
  proof (cases "c = a")
    case True
    then show ?thesis by (intro exI [of _ n]) (simp add: member_of_def)
  next
    case False
    with Cons.prems Cons.IH [of "Suc n"] obtain k where
      "Suc n \<le> k" "member_of (evicted_groups fresh (Suc n) st cs) c (fresh k)" by auto
    then show ?thesis by (intro exI [of _ k]) (auto simp: member_of_def)
  qed
qed

lemma groups_ok_evicted:
  assumes "inj fresh" "distinct cs"
  shows "groups_ok (evicted_groups fresh n st cs)"
  using assms
proof (induction cs arbitrary: n)
  case Nil
  then show ?case by (simp add: groups_ok_def)
next
  case (Cons a cs)
  have "groups_ok [new_group (fresh n) st a]" by (simp add: groups_ok_def)
  moreover have "groups_ok (evicted_groups fresh (Suc n) st cs)" using Cons by simp
  moreover have "g_id ` set [new_group (fresh n) st a]
      \<inter> g_id ` set (evicted_groups fresh (Suc n) st cs) = {}"
    by (auto simp: inj_eq [OF assms(1)] dest!: evicted_mem)
  moreover have "\<not> member_of (evicted_groups fresh (Suc n) st cs) c j"
    if "member_of [new_group (fresh n) st a] c i" for c i j
    using that Cons.prems by (auto simp: member_of_def dest!: evicted_mem)
  ultimately show ?case
    using groups_ok_append [of "[new_group (fresh n) st a]" "evicted_groups fresh (Suc n) st cs"]
    by simp
qed

subsection \<open>Which group and which stream a client has\<close>

definition group_of :: "group list \<Rightarrow> string \<Rightarrow> string option" where
  "group_of gs c = map_option g_id (find (has_client c) gs)"

definition stream_of :: "group list \<Rightarrow> string \<Rightarrow> string option" where
  "stream_of gs c = map_option g_stream_id (find (has_client c) gs)"

lemma find_client:
  "groups_ok gs \<Longrightarrow> g \<in> set gs \<Longrightarrow> has_client c g \<Longrightarrow> find (has_client c) gs = Some g"
  by (metis find_None_set find_Some_set groups_ok_same groups_ok_unique option.exhaust)

lemma find_group:
  "groups_ok gs \<Longrightarrow> g \<in> set gs \<Longrightarrow> find (\<lambda>h. g_id h = g_id g) gs = Some g"
proof (cases "find (\<lambda>h. g_id h = g_id g) gs")
  case None
  assume "g \<in> set gs"
  with None show ?thesis by (auto simp: find_None_set)
next
  case (Some h)
  assume "groups_ok gs" "g \<in> set gs"
  with Some show ?thesis by (auto dest!: find_Some_set dest: groups_ok_unique)
qed

lemma group_of_iff: "groups_ok gs \<Longrightarrow> group_of gs c = Some i \<longleftrightarrow> member_of gs c i"
  unfolding group_of_def member_of_def
  by (auto dest!: find_Some_set) (metis find_client option.simps(9))+

lemma group_of_None: "group_of gs c = None \<longleftrightarrow> (\<forall>i. \<not> member_of gs c i)"
  by (auto simp: group_of_def member_of_def find_None_set)

lemma stream_of_iff:
  "groups_ok gs \<Longrightarrow> stream_of gs c = Some st \<longleftrightarrow> (\<exists>g\<in>set gs. has_client c g \<and> g_stream_id g = st)"
  unfolding stream_of_def by (auto dest!: find_Some_set) (metis find_client option.simps(9))+

lemma stream_of_None: "stream_of gs c = None \<longleftrightarrow> group_of gs c = None"
  by (simp add: stream_of_def group_of_def)

text \<open>Everything of a group but its members.\<close>

definition group_sig :: "group \<Rightarrow> string \<times> string \<times> string \<times> bool" where
  "group_sig g = (g_id g, g_name g, g_stream_id g, g_muted g)"

lemma group_sig_clients [simp]: "group_sig (g\<lparr>g_clients := cs\<rparr>) = group_sig g"
  by (simp add: group_sig_def)

lemma group_sig_drop [simp]: "group_sig (drop_client c g) = group_sig g"
  by (simp add: drop_client_def)

lemma group_sig_id: "group_sig g = group_sig h \<Longrightarrow> g_id g = g_id h"
  by (simp add: group_sig_def)

lemma map_sig_id: "List.map group_sig gs = List.map group_sig hs \<Longrightarrow> List.map g_id gs = List.map g_id hs"
  by (metis (no_types, lifting) fst_conv group_sig_def list.map_comp map_cong comp_apply)

lemma stream_of_sig:
  "groups_ok gs \<Longrightarrow> member_of gs c i \<Longrightarrow> (i, nm, st, m) \<in> group_sig ` set gs \<Longrightarrow>
   stream_of gs c = Some st"
  by (auto simp: stream_of_iff member_of_def group_sig_def dest: groups_ok_unique)

subsection \<open>Adding clients to a group\<close>

lemma map_sig_add_client: "List.map group_sig (add_client gid c gs) = List.map group_sig gs"
  by (simp add: add_client_def update_group_def map_update_first comp_def)

lemma map_sig_add_clients: "List.map group_sig (add_clients gid cs gs) = List.map group_sig gs"
  by (induction cs arbitrary: gs) (simp_all add: map_sig_add_client)

lemma ids_add_client: "List.map g_id (add_client gid c gs) = List.map g_id gs"
  by (rule map_sig_id) (rule map_sig_add_client)

definition add_to :: "string \<Rightarrow> string \<Rightarrow> group \<Rightarrow> group" where
  "add_to gid c g =
     (if g_id g = gid then g\<lparr>g_clients := filter (\<lambda>x. x \<noteq> c) (g_clients g) @ [c]\<rparr>
      else drop_client c g)"

lemma add_to_id [simp]: "g_id (add_to gid c g) = g_id g"
  by (simp add: add_to_def)

lemma has_client_add_to:
  "has_client d (add_to gid c g) \<longleftrightarrow> (if d = c then g_id g = gid else has_client d g)"
  by (auto simp: add_to_def has_client_def drop_client_def)

lemma distinct_add_to: "distinct (g_clients g) \<Longrightarrow> distinct (g_clients (add_to gid c g))"
  by (simp add: add_to_def drop_client_def)

lemma add_client_map:
  assumes "groups_ok gs"
  shows "add_client gid c gs = (if member_of gs c gid then gs else List.map (add_to gid c) gs)"
proof -
  have "List.map (\<lambda>g. if g_id g = gid then (g\<lparr>g_clients := g_clients g @ [c]\<rparr>) else g)
      (List.map (drop_client c) gs) = List.map (add_to gid c) gs"
    by (auto simp: add_to_def drop_client_def)
  moreover have "distinct (List.map g_id (List.map (drop_client c) gs))"
    by (intro groups_ok_distinct groups_ok_drop assms)
  ultimately show ?thesis
    by (simp only: add_client_def update_group_map list_ex_iff member_of_def)
qed

lemma groups_ok_add_client: "groups_ok gs \<Longrightarrow> groups_ok (add_client gid c gs)"
  by (auto simp: add_client_map has_client_add_to distinct_add_to groups_ok_clients
      intro!: groups_ok_map split: if_splits dest: groups_ok_same)

lemma member_of_add_client:
  assumes "groups_ok gs" "gid \<in> g_id ` set gs"
  shows "member_of (add_client gid c gs) d i \<longleftrightarrow> (if d = c then i = gid else member_of gs d i)"
proof (cases "member_of gs c gid")
  case True
  with assms member_of_unique show ?thesis by (auto simp: add_client_map)
next
  case False
  with assms show ?thesis by (auto simp: add_client_map member_of_def has_client_add_to)
qed

lemma groups_ok_add_clients: "groups_ok gs \<Longrightarrow> groups_ok (add_clients gid cs gs)"
  by (induction cs arbitrary: gs) (simp_all add: groups_ok_add_client)

lemma member_of_add_clients:
  assumes "groups_ok gs" "gid \<in> g_id ` set gs"
  shows "member_of (add_clients gid cs gs) d i \<longleftrightarrow> (if d \<in> set cs then i = gid else member_of gs d i)"
  using assms
proof (induction cs arbitrary: gs)
  case Nil
  then show ?case by simp
next
  case (Cons c cs)
  have "gid \<in> g_id ` set (add_client gid c gs)"
    using Cons.prems(2) ids_add_client [of gid c gs] by (metis list.set_map)
  with Cons show ?case by (simp add: groups_ok_add_client member_of_add_client)
qed

subsection \<open>Evicting clients from a group\<close>

definition keep_listed :: "string \<Rightarrow> string list \<Rightarrow> group \<Rightarrow> group" where
  "keep_listed gid cids g =
     (if g_id g = gid then g\<lparr>g_clients := filter (\<lambda>c. c \<in> set cids) (g_clients g)\<rparr> else g)"

definition evicted_of :: "group \<Rightarrow> string list \<Rightarrow> string list" where
  "evicted_of g cids = filter (\<lambda>c. c \<notin> set cids) (g_clients g)"

lemma keep_listed_id [simp]: "g_id (keep_listed gid cids g) = g_id g"
  by (simp add: keep_listed_def)

lemma has_client_keep_listed:
  "has_client c (keep_listed gid cids g) \<longleftrightarrow> has_client c g \<and> (g_id g = gid \<longrightarrow> c \<in> set cids)"
  by (auto simp: keep_listed_def has_client_def)

lemma groups_ok_keep_listed: "groups_ok gs \<Longrightarrow> groups_ok (List.map (keep_listed gid cids) gs)"
  by (rule groups_ok_sub) (auto simp: keep_listed_def groups_ok_clients)

lemma member_of_keep_listed:
  "member_of (List.map (keep_listed gid cids) gs) c i
     \<longleftrightarrow> member_of gs c i \<and> (i = gid \<longrightarrow> c \<in> set cids)"
  by (auto simp: member_of_def has_client_keep_listed)

lemma map_sig_keep_listed [simp]: "group_sig (keep_listed gid cids g) = group_sig g"
  by (simp add: keep_listed_def)

lemma evict_clients_found:
  assumes "groups_ok gs" "g \<in> set gs"
  shows "evict_clients fresh n (g_id g) cids gs =
     (List.map (keep_listed (g_id g) cids) gs
        @ evicted_groups fresh n (g_stream_id g) (evicted_of g cids),
      n + length (evicted_of g cids))"
  using find_group [OF assms] groups_ok_distinct [OF assms(1)]
  by (simp add: evict_clients_def Let_def update_group_map keep_listed_def evicted_of_def cong: if_cong)

lemma evict_clients_unknown:
  "gid \<notin> g_id ` set gs \<Longrightarrow> evict_clients fresh n gid cids gs = (gs, n)"
  by (auto simp: evict_clients_def find_None_set split: option.split dest!: find_Some_set)

lemma member_of_evicted:
  "member_of (evicted_groups fresh n st cs) c i \<Longrightarrow> c \<in> set cs \<and> (\<exists>k\<ge>n. i = fresh k)"
  by (auto simp: member_of_def dest!: evicted_mem)

lemma supply_fresh: "supply_ok fresh n gs \<Longrightarrow> n \<le> k \<Longrightarrow> fresh k \<notin> g_id ` set gs"
  by (auto simp: supply_ok_def)

lemma supply_neq: "supply_ok fresh n gs \<Longrightarrow> n \<le> k \<Longrightarrow> i \<in> g_id ` set gs \<Longrightarrow> i \<noteq> fresh k"
  using supply_fresh by blast

lemma groups_ok_evict:
  assumes ok: "groups_ok gs" and fr: "supply_ok fresh n gs" and g: "g \<in> set gs"
  shows "groups_ok (fst (evict_clients fresh n (g_id g) cids gs))"
proof -
  let ?ev = "evicted_groups fresh n (g_stream_id g) (evicted_of g cids)"
  have "groups_ok (List.map (keep_listed (g_id g) cids) gs @ ?ev)"
  proof (rule groups_ok_append)
    show "groups_ok (List.map (keep_listed (g_id g) cids) gs)" by (rule groups_ok_keep_listed [OF ok])
    show "groups_ok ?ev"
      using fr groups_ok_clients [OF ok g]
      by (intro groups_ok_evicted) (simp_all add: supply_ok_def evicted_of_def)
    show "g_id ` set (List.map (keep_listed (g_id g) cids) gs) \<inter> g_id ` set ?ev = {}"
      using supply_fresh [OF fr] by (force dest!: evicted_mem)
    show "\<not> member_of ?ev c j" if m: "member_of (List.map (keep_listed (g_id g) cids) gs) c i" for c i j
    proof
      assume "member_of ?ev c j"
      then have c: "c \<notin> set cids" "has_client c g"
        by (auto simp: evicted_of_def has_client_def dest!: member_of_evicted)
      then have "member_of gs c (g_id g)" using g by (auto simp: member_of_def)
      with m c show False using member_of_unique [OF ok] by (auto simp: member_of_keep_listed)
    qed
  qed
  then show ?thesis by (simp add: evict_clients_found [OF ok g])
qed

subsection \<open>Setting the clients of a group\<close>

lemma set_group_clients_groups:
  "s_groups (fst (set_group_clients fresh n gid cids s)) =
     nonempty_groups (add_clients gid cids (fst (evict_clients fresh n gid cids (s_groups s))))"
  by (simp add: set_group_clients_def split_beta)

lemma set_group_clients_rest [simp]:
  "s_clients (fst (set_group_clients fresh n gid cids s)) = s_clients s"
  "s_streams (fst (set_group_clients fresh n gid cids s)) = s_streams s"
  by (simp_all add: set_group_clients_def split_beta)

lemma groups_ok_set_group_clients:
  assumes "groups_ok (s_groups s)" "supply_ok fresh n (s_groups s)"
  shows "groups_ok (s_groups (fst (set_group_clients fresh n gid cids s)))"
proof (cases "gid \<in> g_id ` set (s_groups s)")
  case True
  then obtain g where "g \<in> set (s_groups s)" "gid = g_id g" by auto
  with groups_ok_evict [OF assms] show ?thesis
    by (simp add: set_group_clients_groups groups_ok_add_clients)
next
  case False
  then show ?thesis
    by (simp add: set_group_clients_groups evict_clients_unknown groups_ok_add_clients assms)
qed

text \<open>The groups of all clients after the call, for a target that exists.\<close>

lemma member_of_set_group_clients:
  assumes ok: "groups_ok (s_groups s)" and fr: "supply_ok fresh n (s_groups s)"
    and g: "g \<in> set (s_groups s)"
  shows "member_of (s_groups (fst (set_group_clients fresh n (g_id g) cids s))) c i \<longleftrightarrow>
     (if c \<in> set cids then i = g_id g
      else member_of (s_groups s) c i \<and> i \<noteq> g_id g \<or>
        member_of (evicted_groups fresh n (g_stream_id g) (evicted_of g cids)) c i)"
proof -
  let ?gs = "fst (evict_clients fresh n (g_id g) cids (s_groups s))"
  have "g_id g \<in> g_id ` set ?gs"
    using g by (simp add: evict_clients_found [OF ok g] image_Un image_image)
  then have "member_of (add_clients (g_id g) cids ?gs) c i \<longleftrightarrow>
      (if c \<in> set cids then i = g_id g else member_of ?gs c i)"
    by (intro member_of_add_clients groups_ok_evict ok fr g)
  then show ?thesis
    by (auto simp: set_group_clients_groups evict_clients_found [OF ok g] member_of_keep_listed)
qed

text \<open>Every group after the call is one from before, up to its members, or a new one.\<close>

lemma sig_set_group_clients:
  assumes "groups_ok (s_groups s)" "g \<in> set (s_groups s)"
    and "h \<in> set (s_groups (fst (set_group_clients fresh n (g_id g) cids s)))"
  shows "group_sig h \<in> group_sig ` set (s_groups s) \<or>
    (\<exists>k\<ge>n. k < snd (set_group_clients fresh n (g_id g) cids s) \<and>
       group_sig h = (fresh k, [], g_stream_id g, False))"
proof -
  let ?gs = "fst (evict_clients fresh n (g_id g) cids (s_groups s))"
  have "h \<in> set (add_clients (g_id g) cids ?gs)"
    using assms(3) by (simp add: set_group_clients_groups nonempty_groups_def)
  then have "group_sig h \<in> group_sig ` set ?gs"
    using map_sig_add_clients [of "g_id g" cids ?gs] by (metis image_eqI list.set_map)
  then have "group_sig h \<in> group_sig ` set (s_groups s) \<or>
      group_sig h \<in> group_sig ` set (evicted_groups fresh n (g_stream_id g) (evicted_of g cids))"
    by (simp add: evict_clients_found [OF assms(1,2)] image_Un image_image)
  then show ?thesis
  proof
    assume "group_sig h \<in> group_sig ` set (evicted_groups fresh n (g_stream_id g) (evicted_of g cids))"
    then obtain k c where "n \<le> k" "k < n + length (evicted_of g cids)"
      "group_sig h = group_sig (new_group (fresh k) (g_stream_id g) c)"
      by (auto dest!: evicted_mem)
    then show ?thesis
      by (auto simp: group_sig_def set_group_clients_def evict_clients_found [OF assms(1,2)])
  qed simp
qed

lemma sig_set_group_clients_unknown:
  assumes "gid \<notin> g_id ` set (s_groups s)"
    and "h \<in> set (s_groups (fst (set_group_clients fresh n gid cids s)))"
  shows "group_sig h \<in> group_sig ` set (s_groups s)"
proof -
  have "h \<in> set (add_clients gid cids (s_groups s))"
    using assms by (simp add: set_group_clients_groups nonempty_groups_def evict_clients_unknown)
  then show ?thesis
    using map_sig_add_clients [of gid cids "s_groups s"] by (metis image_eqI list.set_map)
qed

lemma group_sig_id_eq: "group_sig h = (i, nm, st, m) \<Longrightarrow> g_id h = i \<and> g_stream_id h = st"
  by (simp add: group_sig_def)

lemma id_of_sig: "group_sig h \<in> group_sig ` set gs \<Longrightarrow> g_id h \<in> g_id ` set gs"
  by (auto dest: group_sig_id)

lemma set_group_clients_pos: "n \<le> snd (set_group_clients fresh n gid cids s)"
  by (auto simp: set_group_clients_def evict_clients_def Let_def split: option.split)

lemma supply_set_group_clients:
  assumes "groups_ok (s_groups s)" "supply_ok fresh n (s_groups s)"
  shows "supply_ok fresh (snd (set_group_clients fresh n gid cids s))
    (s_groups (fst (set_group_clients fresh n gid cids s)))"
proof -
  let ?r = "set_group_clients fresh n gid cids s"
  have "fresh k \<noteq> g_id h" if k: "snd ?r \<le> k" and h: "h \<in> set (s_groups (fst ?r))" for k h
  proof (cases "gid \<in> g_id ` set (s_groups s)")
    case False
    have "n \<le> k" using k set_group_clients_pos [of n fresh gid cids s] by simp
    from supply_neq [OF assms(2) this id_of_sig [OF sig_set_group_clients_unknown [OF False h]]]
    show ?thesis by simp
  next
    case True
    then obtain g where g: "g \<in> set (s_groups s)" "gid = g_id g" by auto
    have "g_id h \<in> g_id ` set (s_groups s) \<or> (\<exists>j. j < snd ?r \<and> g_id h = fresh j)"
      using sig_set_group_clients [OF assms(1) g(1)] h g(2) id_of_sig group_sig_id_eq by blast
    then show ?thesis
    proof
      assume "g_id h \<in> g_id ` set (s_groups s)"
      moreover have "n \<le> k" using k set_group_clients_pos [of n fresh gid cids s] by simp
      ultimately show ?thesis using supply_neq [OF assms(2)] by metis
    next
      assume "\<exists>j. j < snd ?r \<and> g_id h = fresh j"
      then show ?thesis using assms(2) k by (auto simp: supply_ok_def inj_eq)
    qed
  qed
  then show ?thesis using assms(2) by (auto simp: supply_ok_def)
qed

lemma stream_of_set_group_clients:
  assumes ok: "groups_ok (s_groups s)" and fr: "supply_ok fresh n (s_groups s)"
    and g: "g \<in> set (s_groups s)"
  shows "stream_of (s_groups (fst (set_group_clients fresh n (g_id g) cids s))) c =
    (if c \<in> set cids then Some (g_stream_id g) else stream_of (s_groups s) c)"
proof -
  let ?gs = "s_groups s" and ?gs' = "s_groups (fst (set_group_clients fresh n (g_id g) cids s))"
  note ok' = groups_ok_set_group_clients [OF ok fr, of "g_id g" cids]
  note mem = member_of_set_group_clients [OF ok fr g, of cids c]
  have old: "stream_of ?gs' c = Some (g_stream_id h)"
    if m: "member_of ?gs' c (g_id h)" and h: "h \<in> set ?gs" for h
  proof -
    from m obtain h' where h': "h' \<in> set ?gs'" "g_id h' = g_id h" "has_client c h'"
      by (auto simp: member_of_def)
    have "g_id h' \<noteq> fresh k" if "n \<le> k" for k
      using supply_neq [OF fr that] h h'(2) by simp
    with sig_set_group_clients [OF ok g h'(1)] have "group_sig h' \<in> group_sig ` set ?gs"
      using group_sig_id_eq by blast
    then obtain x where x: "x \<in> set ?gs" "group_sig h' = group_sig x" by auto
    then have "x = h" using h h'(2) group_sig_id [of h' x] by (intro groups_ok_unique [OF ok]) auto
    with x have "group_sig h' = group_sig h" by simp
    with h' ok' show ?thesis by (auto simp: stream_of_iff group_sig_def)
  qed
  show ?thesis
  proof (cases "c \<in> set cids")
    case True
    with mem [of "g_id g"] old [OF _ g] show ?thesis by simp
  next
    case False
    show ?thesis
    proof (cases "\<exists>h\<in>set ?gs. has_client c h")
      case none: False
      then have "\<not> member_of ?gs c i" for i by (auto simp: member_of_def)
      moreover have "\<not> member_of (evicted_groups fresh n (g_stream_id g) (evicted_of g cids)) c i" for i
        using none g by (auto simp: evicted_of_def has_client_def dest!: member_of_evicted)
      ultimately have "stream_of ?gs c = None" "stream_of ?gs' c = None"
        using mem False by (simp_all add: stream_of_None group_of_None)
      with False show ?thesis by simp
    next
      case True
      then obtain h where h: "h \<in> set ?gs" "has_client c h" by auto
      have st: "stream_of ?gs c = Some (g_stream_id h)" using h ok by (auto simp: stream_of_iff)
      show ?thesis
      proof (cases "g_id h = g_id g")
        case other: False
        with h have "member_of ?gs c (g_id h)" by (auto simp: member_of_def)
        with other False mem [of "g_id h"] have "member_of ?gs' c (g_id h)" by simp
        with old [OF _ h(1)] st False show ?thesis by simp
      next
        case True
        with h g ok have hg: "h = g" by (auto dest: groups_ok_unique)
        with h False have "c \<in> set (evicted_of g cids)" by (simp add: evicted_of_def has_client_def)
        from evicted_has [OF this, of n fresh "g_stream_id g"] obtain k where
          k: "n \<le> k" "member_of (evicted_groups fresh n (g_stream_id g) (evicted_of g cids)) c (fresh k)"
          by auto
        with mem [of "fresh k"] False have "member_of ?gs' c (fresh k)" by simp
        then obtain h' where h': "h' \<in> set ?gs'" "g_id h' = fresh k" "has_client c h'"
          by (auto simp: member_of_def)
        with sig_set_group_clients [OF ok g h'(1)] supply_fresh [OF fr k(1)]
        have "g_stream_id h' = g_stream_id g"
          by (metis group_sig_id_eq id_of_sig)
        with h' ok' st hg False show ?thesis by (auto simp: stream_of_iff)
      qed
    qed
  qed
qed

lemma evicted_single:
  assumes "inj fresh" "distinct cs"
    and "member_of (evicted_groups fresh n st cs) c i" "member_of (evicted_groups fresh n st cs) d i"
  shows "c = d"
proof -
  obtain g h where gh: "g \<in> set (evicted_groups fresh n st cs)" "g_id g = i" "has_client c g"
    "h \<in> set (evicted_groups fresh n st cs)" "g_id h = i" "has_client d h"
    using assms(3,4) by (auto simp: member_of_def)
  then have "g = h" using groups_ok_unique [OF groups_ok_evicted [OF assms(1,2)]] by auto
  with gh show ?thesis by (auto dest!: evicted_mem)
qed

lemma group_of_eqI:
  assumes "groups_ok gs" "groups_ok hs" "\<And>i. member_of hs c i = member_of gs c i"
  shows "group_of hs c = group_of gs c"
proof (cases "group_of gs c")
  case None
  then have "group_of hs c = None" using assms(3) by (simp add: group_of_None)
  with None show ?thesis by simp
next
  case (Some i)
  then have "group_of hs c = Some i"
    using assms(3) by (simp add: group_of_iff [OF assms(1)] group_of_iff [OF assms(2)])
  with Some show ?thesis by simp
qed

lemma group_of_set_group_clients:
  assumes ok: "groups_ok (s_groups s)" and fr: "supply_ok fresh n (s_groups s)"
    and g: "g \<in> set (s_groups s)"
  shows "c \<in> set cids \<Longrightarrow>
      group_of (s_groups (fst (set_group_clients fresh n (g_id g) cids s))) c = Some (g_id g)"
    and "c \<notin> set cids \<Longrightarrow> group_of (s_groups s) c \<noteq> Some (g_id g) \<Longrightarrow>
      group_of (s_groups (fst (set_group_clients fresh n (g_id g) cids s))) c = group_of (s_groups s) c"
    and "c \<notin> set cids \<Longrightarrow> group_of (s_groups s) c = Some (g_id g) \<Longrightarrow>
      \<exists>i. i \<notin> g_id ` set (s_groups s) \<and>
        (\<forall>d. group_of (s_groups (fst (set_group_clients fresh n (g_id g) cids s))) d = Some i \<longleftrightarrow> d = c)"
proof -
  let ?gs = "s_groups s" and ?gs' = "s_groups (fst (set_group_clients fresh n (g_id g) cids s))"
  let ?ev = "evicted_groups fresh n (g_stream_id g) (evicted_of g cids)"
  have ok': "groups_ok ?gs'" using groups_ok_set_group_clients [OF ok fr] .
  note mem = member_of_set_group_clients [OF ok fr g, of cids]
  have ev: "has_client d g \<and> d \<notin> set cids" if "member_of ?ev d i" for d i
    using member_of_evicted [OF that] by (auto simp: evicted_of_def has_client_def)
  have gmem: "member_of ?gs d (g_id g)" if "has_client d g" for d
    using that g by (auto simp: member_of_def)
  show "group_of ?gs' c = Some (g_id g)" if "c \<in> set cids"
    using mem [of c "g_id g"] that by (simp add: group_of_iff [OF ok'])
  show "group_of ?gs' c = group_of ?gs c" if c: "c \<notin> set cids" "group_of ?gs c \<noteq> Some (g_id g)"
  proof -
    have "\<not> member_of ?ev c i" for i
      using ev [of c i] gmem [of c] c(2) by (auto simp: group_of_iff [OF ok])
    with mem c have "member_of ?gs' c i = member_of ?gs c i" for i
      by (auto simp: group_of_iff [OF ok])
    then show ?thesis by (rule group_of_eqI [OF ok ok'])
  qed
  show "\<exists>i. i \<notin> g_id ` set ?gs \<and> (\<forall>d. group_of ?gs' d = Some i \<longleftrightarrow> d = c)"
    if c: "c \<notin> set cids" "group_of ?gs c = Some (g_id g)"
  proof -
    have "has_client c g"
      using c(2) g by (auto simp: group_of_iff [OF ok] member_of_def dest: groups_ok_unique [OF ok])
    with c(1) have "c \<in> set (evicted_of g cids)" by (simp add: evicted_of_def has_client_def)
    from evicted_has [OF this, of n fresh "g_stream_id g"] obtain k where k: "n \<le> k"
      "member_of ?ev c (fresh k)" by auto
    have new: "fresh k \<notin> g_id ` set ?gs" using supply_fresh [OF fr k(1)] .
    then have old: "\<not> member_of ?gs d (fresh k)" for d using member_of_id by blast
    have single: "d = c" if "member_of ?ev d (fresh k)" for d
      using evicted_single [of fresh "evicted_of g cids" n "g_stream_id g" d "fresh k" c]
        that k(2) fr groups_ok_clients [OF ok g]
      by (simp add: supply_ok_def evicted_of_def)
    have "fresh k \<noteq> g_id g" using new g by blast
    then have "member_of ?gs' d (fresh k) \<longleftrightarrow> d = c" for d
      using mem [of d "fresh k"] old [of d] single [of d] k(2) c(1) ev [of d "fresh k"] by auto
    with new show ?thesis by (auto simp: group_of_iff [OF ok'])
  qed
qed

end
