(* ===== verification/Session.thy ===== *)
theory Session
  imports ServerAuth GroupLemmas
begin

text \<open>
  The streaming sessions of \<open>snapcast-server/src/session.rs\<close>: the shared session context, routing,
  the registration of a client in the phases between which other tasks may run, and the arms of
  the session loop.  A session is known by its number; the maps of senders are keyed by client
  id, as in the source, and name the session that holds the receiving end.  What a session writes
  is kept as the list of its messages; \<open>serialize_msg\<close> gives their bytes.
\<close>

subsection \<open>Data\<close>

record session_routing =
  ro_stream_id :: string
  ro_client_muted :: bool
  ro_group_muted :: bool

record stream_codec_info =
  ci_codec :: string
  ci_header :: "u8 list"

record settings_update =
  up_client_id :: string
  up_buffer_ms :: i32
  up_latency :: i32
  up_volume :: u16
  up_muted :: bool

record custom_outbound =
  co_type_id :: u16
  co_payload :: "u8 list"

record wire_chunk_data =
  wd_stream_id :: string
  wd_timestamp_usec :: int
  wd_data :: "u8 list"

datatype server_event =
    StateChanged server_state
  | ClientConnected string hello
  | ClientDisconnected string
  | ClientVolumeChanged string u16 bool
  | ClientLatencyChanged string i32
  | ClientNameChanged string string
  | GroupStreamChanged string string
  | GroupMuteChanged string bool
  | StreamStatus string string
  | StreamMetaChanged string "string \<rightharpoonup> json"
  | GroupNameChanged string string
  | ServerUpdated
  | StreamControlEvent string string json
  | CustomMessageEvent string u16 "u8 list"

text \<open>A written message: its payload, the id it answers, and for audio and codec headers the
  stream they belong to, which is not on the wire.\<close>

datatype out_msg =
    OutSettings server_settings u16
  | OutCodec string stream_codec_info
  | OutChunk string wire_chunk
  | OutTime timeval u16
  | OutCustom u16 "u8 list"

text \<open>The loop is at the top of a turn, where custom messages are drained, in Draining, and waits in
  \<open>select!\<close> in Running.\<close>

datatype phase = Channels | Registered | Subscribed | Greeted | Draining | Running

record session =
  se_hello :: hello
  se_hello_id :: u16
  se_phase :: phase
  se_settings :: server_settings  \<comment> \<open>the settings computed at registration\<close>
  se_routing :: session_routing  \<comment> \<open>the local copy\<close>
  se_watch :: session_routing  \<comment> \<open>the value in the watch channel\<close>
  se_watch_changed :: bool
  se_settings_rx :: "settings_update list"
  se_custom_rx :: "custom_outbound list"
  se_out :: "out_msg list"

record config =
  k_buffer_ms :: i32
  k_auth :: "(string \<Rightarrow> string \<Rightarrow> auth_error + auth_result) option"
  k_client_filter :: "(hello \<Rightarrow> bool) option"
  k_send_audio_to_muted :: bool
  k_default_stream :: string

record server =
  v_state :: server_state
  v_next :: nat  \<comment> \<open>position of the id supply\<close>
  v_settings_senders :: "string \<rightharpoonup> nat"
  v_custom_senders :: "string \<rightharpoonup> nat"
  v_routing_senders :: "string \<rightharpoonup> nat"
  v_codec_headers :: "string \<rightharpoonup> stream_codec_info"
  v_sessions :: "nat \<rightharpoonup> session"
  v_events :: "server_event list"

definition se_client :: "session \<Rightarrow> string" where
  "se_client se = h_id (se_hello se)"

definition EVENT_CHANNEL_SIZE :: nat where
  "EVENT_CHANNEL_SIZE = 256"

definition SETTINGS_CHANNEL_SIZE :: nat where
  "SETTINGS_CHANNEL_SIZE = 16"

definition CUSTOM_CHANNEL_SIZE :: nat where
  "CUSTOM_CHANNEL_SIZE = 64"

text \<open>\<open>try_send\<close> drops the event when the channel is full; \<open>send(..).await\<close> waits, which is the
  result None.\<close>

definition try_event :: "server_event \<Rightarrow> server \<Rightarrow> server" where
  "try_event e v =
     (if length (v_events v) < EVENT_CHANNEL_SIZE then v\<lparr>v_events := v_events v @ [e]\<rparr> else v)"

definition send_event :: "server_event \<Rightarrow> server \<Rightarrow> server option" where
  "send_event e v =
     (if length (v_events v) < EVENT_CHANNEL_SIZE then Some (v\<lparr>v_events := v_events v @ [e]\<rparr>)
      else None)"

definition update_session :: "nat \<Rightarrow> (session \<Rightarrow> session) \<Rightarrow> server \<Rightarrow> server" where
  "update_session sid f v =
     (case v_sessions v sid of
        None \<Rightarrow> v
      | Some se \<Rightarrow> v\<lparr>v_sessions := (v_sessions v)(sid \<mapsto> f se)\<rparr>)"

subsection \<open>Routing\<close>

definition build_routing :: "server_state \<Rightarrow> string \<Rightarrow> session_routing option" where
  "build_routing s cid =
     (case find (has_client cid) (s_groups s) of
        None \<Rightarrow> None
      | Some g \<Rightarrow> Some \<lparr>ro_stream_id = g_stream_id g,
          ro_client_muted = (case s_clients s cid of
             Some c \<Rightarrow> vol_muted (cc_volume (c_config c)) | None \<Rightarrow> False),
          ro_group_muted = g_muted g\<rparr>)"

definition send_watch :: "nat \<Rightarrow> session_routing \<Rightarrow> server \<Rightarrow> server" where
  "send_watch sid r v = update_session sid (\<lambda>se. se\<lparr>se_watch := r, se_watch_changed := True\<rparr>) v"

definition push_routing :: "string \<Rightarrow> server \<Rightarrow> server" where
  "push_routing cid v =
     (case build_routing (v_state v) cid of
        None \<Rightarrow> v
      | Some r \<Rightarrow>
          (case v_routing_senders v cid of None \<Rightarrow> v | Some sid \<Rightarrow> send_watch sid r v))"

definition push_routing_clients :: "string list \<Rightarrow> server \<Rightarrow> server" where
  "push_routing_clients cids v = fold push_routing cids v"

definition push_routing_for_group :: "string \<Rightarrow> server \<Rightarrow> server" where
  "push_routing_for_group gid v =
     (case find (\<lambda>g. g_id g = gid) (s_groups (v_state v)) of
        None \<Rightarrow> v
      | Some g \<Rightarrow> push_routing_clients (g_clients g) v)"

definition push_routing_all :: "server \<Rightarrow> server" where
  "push_routing_all v = fold (\<lambda>g. push_routing_clients (g_clients g)) (s_groups (v_state v)) v"

subsection \<open>Session server\<close>

definition register_stream_codec :: "string \<Rightarrow> string \<Rightarrow> u8 list \<Rightarrow> server \<Rightarrow> server" where
  "register_stream_codec sid codec header v =
     v\<lparr>v_codec_headers := (v_codec_headers v)(sid \<mapsto> \<lparr>ci_codec = codec, ci_header = header\<rparr>)\<rparr>"

text \<open>None: the caller waits for the session to take updates from its full channel.\<close>

definition push_settings :: "settings_update \<Rightarrow> server \<Rightarrow> server option" where
  "push_settings u v =
     (case v_settings_senders v (up_client_id u) of
        None \<Rightarrow> Some v
      | Some sid \<Rightarrow>
          (case v_sessions v sid of
             None \<Rightarrow> Some v
           | Some se \<Rightarrow>
               if length (se_settings_rx se) < SETTINGS_CHANNEL_SIZE
               then Some (update_session sid (\<lambda>se. se\<lparr>se_settings_rx := se_settings_rx se @ [u]\<rparr>) v)
               else None))"

definition send_custom :: "string \<Rightarrow> u16 \<Rightarrow> u8 list \<Rightarrow> server \<Rightarrow> server option" where
  "send_custom cid type_id payload v =
     (case v_custom_senders v cid of
        None \<Rightarrow> Some v
      | Some sid \<Rightarrow>
          (case v_sessions v sid of
             None \<Rightarrow> Some v
           | Some se \<Rightarrow>
               if length (se_custom_rx se) < CUSTOM_CHANNEL_SIZE
               then Some (update_session sid (\<lambda>se. se\<lparr>se_custom_rx :=
                      se_custom_rx se @ [\<lparr>co_type_id = type_id, co_payload = payload\<rparr>]\<rparr>) v)
               else None))"

subsection \<open>Registration of a client\<close>

definition empty_routing :: session_routing where
  "empty_routing = \<lparr>ro_stream_id = [], ro_client_muted = False, ro_group_muted = False\<rparr>"

definition settings_zero :: server_settings where
  "settings_zero = \<lparr>ss_buffer_ms = 0, ss_latency = 0, ss_volume = 0, ss_muted = False\<rparr>"

text \<open>The channels of a new session, and a session that has not got further.\<close>

definition new_session :: "hello \<Rightarrow> u16 \<Rightarrow> session" where
  "new_session h hid =
     \<lparr>se_hello = h, se_hello_id = hid, se_phase = Channels, se_settings = settings_zero,
      se_routing = empty_routing, se_watch = empty_routing, se_watch_changed = False,
      se_settings_rx = [], se_custom_rx = [], se_out = []\<rparr>"

text \<open>Hello is read and admitted; the channels of the session are made and their senders stored.\<close>

definition open_session :: "config \<Rightarrow> nat \<Rightarrow> u16 \<Rightarrow> payload \<Rightarrow> server \<Rightarrow> server option" where
  "open_session cfg sid hid p v =
     (case admit (k_client_filter cfg) (k_auth cfg) p of
        Admitted h \<Rightarrow>
          Some (v\<lparr>v_sessions := (v_sessions v)(sid \<mapsto> new_session h hid),
               v_settings_senders := (v_settings_senders v)(h_id h \<mapsto> sid),
               v_custom_senders := (v_custom_senders v)(h_id h \<mapsto> sid)\<rparr>)
      | _ \<Rightarrow> None)"

definition connect_client :: "client \<Rightarrow> client" where
  "connect_client c = c\<lparr>c_connected := True\<rparr>"

definition client_settings :: "config \<Rightarrow> client \<Rightarrow> server_settings" where
  "client_settings cfg c =
     \<lparr>ss_buffer_ms = k_buffer_ms cfg, ss_latency = cc_latency (c_config c),
      ss_volume = vol_percent (cc_volume (c_config c)),
      ss_muted = vol_muted (cc_volume (c_config c))\<rparr>"

text \<open>Under the state lock: the client entry, its group, its settings and its first routing.\<close>

definition register_state :: "config \<Rightarrow> (nat \<Rightarrow> string) \<Rightarrow> nat \<Rightarrow> server \<Rightarrow> server option" where
  "register_state cfg fresh sid v =
     (case v_sessions v sid of
        None \<Rightarrow> None
      | Some se \<Rightarrow>
          (if se_phase se \<noteq> Channels then None
           else
             (let h = se_hello se;
                  s1 = get_or_create_client (h_id h) (h_host_name h) (h_mac h) (v_state v);
                  c = connect_client (the (s_clients s1 (h_id h)));
                  s2 = s1\<lparr>s_clients := (s_clients s1)(h_id h \<mapsto> c)\<rparr>;
                  (s3, n, g) = group_for_client fresh (v_next v) (h_id h) (k_default_stream cfg) s2;
                  initial = (case build_routing s3 (h_id h) of
                      Some r \<Rightarrow> r
                    | None \<Rightarrow> \<lparr>ro_stream_id = k_default_stream cfg, ro_client_muted = False,
                               ro_group_muted = False\<rparr>) in
              Some (v\<lparr>v_state := s3, v_next := n,
                      v_sessions := (v_sessions v)(sid \<mapsto>
                        se\<lparr>se_phase := Registered, se_settings := client_settings cfg c,
                           se_routing := initial\<rparr>)\<rparr>))))"

text \<open>The watch channel is made with the first routing and its sender stored.\<close>

definition subscribe_routing :: "nat \<Rightarrow> server \<Rightarrow> server option" where
  "subscribe_routing sid v =
     (case v_sessions v sid of
        None \<Rightarrow> None
      | Some se \<Rightarrow>
          (if se_phase se \<noteq> Registered then None
           else Some (v\<lparr>v_routing_senders := (v_routing_senders v)(se_client se \<mapsto> sid),
                        v_sessions := (v_sessions v)(sid \<mapsto>
                          se\<lparr>se_phase := Subscribed, se_watch := se_routing se,
                             se_watch_changed := False\<rparr>)\<rparr>)))"

definition codec_frames :: "server \<Rightarrow> string \<Rightarrow> out_msg list" where
  "codec_frames v stream =
     (case v_codec_headers v stream of None \<Rightarrow> [] | Some info \<Rightarrow> [OutCodec stream info])"

text \<open>The event, the server settings, and the codec header of the first stream.\<close>

definition greet_client :: "nat \<Rightarrow> server \<Rightarrow> server option" where
  "greet_client sid v =
     (case v_sessions v sid of
        None \<Rightarrow> None
      | Some se \<Rightarrow>
          (if se_phase se \<noteq> Subscribed then None
           else case send_event (ClientConnected (se_client se) (se_hello se)) v of
             None \<Rightarrow> None
           | Some v' \<Rightarrow>
               Some (update_session sid (\<lambda>se. se\<lparr>se_phase := Greeted,
                 se_out := se_out se @ OutSettings (se_settings se) (se_hello_id se)
                             # codec_frames v (ro_stream_id (se_routing se))\<rparr>) v')))"

text \<open>A write of the greeting fails: the handler returns early, past its own cleanup.\<close>

definition greet_fails :: "nat \<Rightarrow> server \<Rightarrow> server option" where
  "greet_fails sid v =
     (case v_sessions v sid of
        None \<Rightarrow> None
      | Some se \<Rightarrow>
          (if se_phase se \<noteq> Subscribed then None
           else case send_event (ClientConnected (se_client se) (se_hello se)) v of
             None \<Rightarrow> None
           | Some v' \<Rightarrow> Some (v'\<lparr>v_sessions := (v_sessions v')(sid := None)\<rparr>)))"

subsection \<open>The session loop\<close>

text \<open>\<open>routing_rx.borrow()\<close> takes the value of the channel and leaves it marked as it is.\<close>

definition start_loop :: "nat \<Rightarrow> server \<Rightarrow> server option" where
  "start_loop sid v =
     (case v_sessions v sid of
        None \<Rightarrow> None
      | Some se \<Rightarrow>
          (if se_phase se \<noteq> Greeted then None
           else Some (update_session sid (\<lambda>se. se\<lparr>se_phase := Draining, se_routing := se_watch se\<rparr>) v)))"

text \<open>A session that is in its loop, and one whose loop waits in \<open>select!\<close>.\<close>

definition in_loop :: "server \<Rightarrow> nat \<Rightarrow> session option" where
  "in_loop v sid =
     (case v_sessions v sid of
        Some se \<Rightarrow> if se_phase se = Draining \<or> se_phase se = Running then Some se else None
      | None \<Rightarrow> None)"

definition running :: "server \<Rightarrow> nat \<Rightarrow> session option" where
  "running v sid =
     (case v_sessions v sid of
        Some se \<Rightarrow> if se_phase se = Running then Some se else None
      | None \<Rightarrow> None)"

definition write_out :: "nat \<Rightarrow> out_msg list \<Rightarrow> server \<Rightarrow> server" where
  "write_out sid ms v = update_session sid (\<lambda>se. se\<lparr>se_out := se_out se @ ms\<rparr>) v"

text \<open>An arm of \<open>select!\<close> has run: the loop goes round.\<close>

definition next_turn :: "nat \<Rightarrow> server \<Rightarrow> server" where
  "next_turn sid v = update_session sid (\<lambda>se. se\<lparr>se_phase := Draining\<rparr>) v"

definition custom_messages :: "custom_outbound list \<Rightarrow> out_msg list" where
  "custom_messages ms = List.map (\<lambda>m. OutCustom (co_type_id m) (co_payload m)) ms"

text \<open>The top of a turn: the custom messages that are pending are written, then the loop waits.  What
  arrives during the wait stays pending until the turn after.\<close>

definition drain_custom :: "nat \<Rightarrow> server \<Rightarrow> server option" where
  "drain_custom sid v =
     (case v_sessions v sid of
        None \<Rightarrow> None
      | Some se \<Rightarrow>
          (if se_phase se \<noteq> Draining then None
           else Some (update_session sid (\<lambda>se. se\<lparr>se_phase := Running, se_custom_rx := [],
             se_out := se_out se @ custom_messages (se_custom_rx se)\<rparr>) v)))"

definition should_send_chunk :: "wire_chunk_data \<Rightarrow> session_routing \<Rightarrow> bool \<Rightarrow> bool" where
  "should_send_chunk chunk routing send_audio_to_muted =
     (if wd_stream_id chunk \<noteq> ro_stream_id routing then False
      else if \<not> send_audio_to_muted \<and> (ro_client_muted routing \<or> ro_group_muted routing) then False
      else True)"

definition chunk_message :: "wire_chunk_data \<Rightarrow> out_msg" where
  "chunk_message chunk =
     OutChunk (wd_stream_id chunk)
       \<lparr>wc_timestamp = from_usec (wd_timestamp_usec chunk), wc_payload = wd_data chunk\<rparr>"

definition on_chunk :: "config \<Rightarrow> nat \<Rightarrow> wire_chunk_data \<Rightarrow> server \<Rightarrow> server option" where
  "on_chunk cfg sid chunk v =
     (case running v sid of
        None \<Rightarrow> None
      | Some se \<Rightarrow>
          (if \<not> should_send_chunk chunk (se_routing se) (k_send_audio_to_muted cfg)
           then Some (next_turn sid v)
           else Some (next_turn sid (write_out sid [chunk_message chunk] v))))"

text \<open>The session has missed chunks of the broadcast: it goes on with the oldest that is left.\<close>

definition on_lagged :: "nat \<Rightarrow> server \<Rightarrow> server option" where
  "on_lagged sid v =
     (case running v sid of
        None \<Rightarrow> None
      | Some se \<Rightarrow> Some (next_turn sid v))"

definition on_routing :: "nat \<Rightarrow> server \<Rightarrow> server option" where
  "on_routing sid v =
     (case running v sid of
        None \<Rightarrow> None
      | Some se \<Rightarrow>
          (if \<not> se_watch_changed se then None
           else
             (let new = se_watch se;
                  frames = (if ro_stream_id new \<noteq> ro_stream_id (se_routing se)
                            then codec_frames v (ro_stream_id new) else []) in
              Some (next_turn sid (update_session sid (\<lambda>se. se\<lparr>se_watch_changed := False,
                se_routing := new, se_out := se_out se @ frames\<rparr>) v)))))"

definition set_client_volume :: "string \<Rightarrow> u16 \<Rightarrow> bool \<Rightarrow> server_state \<Rightarrow> server_state" where
  "set_client_volume cid percent muted s =
     (case s_clients s cid of
        None \<Rightarrow> s
      | Some c \<Rightarrow> s\<lparr>s_clients := (s_clients s)(cid \<mapsto>
          c\<lparr>c_config := (c_config c)\<lparr>cc_volume := \<lparr>vol_percent = percent, vol_muted = muted\<rparr>\<rparr>\<rparr>)\<rparr>)"

definition on_message :: "nat \<Rightarrow> typed_message \<Rightarrow> server \<Rightarrow> server option" where
  "on_message sid msg v =
     (case running v sid of
        None \<Rightarrow> None
      | Some se \<Rightarrow> map_option (next_turn sid)
          (case msg_payload msg of
             PTime _ \<Rightarrow>
               Some (write_out sid
                 [OutTime (tv_sub (bm_received (msg_base msg)) (bm_sent (msg_base msg)))
                    (bm_id (msg_base msg))] v)
           | PClientInfo info \<Rightarrow>
               send_event (ClientVolumeChanged (se_client se) (ci_volume info) (ci_muted info))
                 (v\<lparr>v_state := set_client_volume (se_client se) (ci_volume info) (ci_muted info)
                                (v_state v)\<rparr>)
           | PCustom payload \<Rightarrow>
               (case bm_msg_type (msg_base msg) of
                  MCustom type_id \<Rightarrow>
                    send_event (CustomMessageEvent (se_client se) type_id payload) v
                | _ \<Rightarrow> Some v)
           | _ \<Rightarrow> Some v))"

definition settings_of_update :: "settings_update \<Rightarrow> server_settings" where
  "settings_of_update u =
     \<lparr>ss_buffer_ms = up_buffer_ms u, ss_latency = up_latency u, ss_volume = up_volume u,
      ss_muted = up_muted u\<rparr>"

definition on_settings :: "nat \<Rightarrow> server \<Rightarrow> server option" where
  "on_settings sid v =
     (case running v sid of
        None \<Rightarrow> None
      | Some se \<Rightarrow>
          (case se_settings_rx se of
             u # us \<Rightarrow>
               Some (next_turn sid (write_out sid [OutSettings (settings_of_update u) 0]
                 (update_session sid (\<lambda>se. se\<lparr>se_settings_rx := us\<rparr>) v)))
           | [] \<Rightarrow>
               \<comment> \<open>no sender left: recv gives None, and the loop goes round\<close>
               if v_settings_senders v (se_client se) = Some sid then None
               else Some (next_turn sid v)))"

definition disconnect_client :: "string \<Rightarrow> server_state \<Rightarrow> server_state" where
  "disconnect_client cid s =
     (case s_clients s cid of
        None \<Rightarrow> s
      | Some c \<Rightarrow> s\<lparr>s_clients := (s_clients s)(cid \<mapsto> c\<lparr>c_connected := False\<rparr>)\<rparr>)"

text \<open>The loop returns, on a read or write error or because the broadcast closed: the cleanup.\<close>

definition end_session :: "nat \<Rightarrow> server \<Rightarrow> server option" where
  "end_session sid v =
     (case in_loop v sid of
        None \<Rightarrow> None
      | Some se \<Rightarrow>
          (let cid = se_client se in
           send_event (ClientDisconnected cid)
             (v\<lparr>v_sessions := (v_sessions v)(sid := None),
                v_settings_senders := (v_settings_senders v)(cid := None),
                v_routing_senders := (v_routing_senders v)(cid := None),
                v_custom_senders := (v_custom_senders v)(cid := None),
                v_state := disconnect_client cid (v_state v)\<rparr>)))"

subsection \<open>The bytes of what a session writes\<close>

fun out_type :: "out_msg \<Rightarrow> message_type" where
  "out_type (OutSettings _ _) = MServerSettings"
| "out_type (OutCodec _ _) = MCodecHeader"
| "out_type (OutChunk _ _) = MWireChunk"
| "out_type (OutTime _ _) = MTime"
| "out_type (OutCustom t _) = MCustom t"

fun out_payload :: "out_msg \<Rightarrow> payload" where
  "out_payload (OutSettings s _) = PServerSettings s"
| "out_payload (OutCodec _ info) =
     PCodecHeader \<lparr>ch_codec = ci_codec info, ch_payload = ci_header info\<rparr>"
| "out_payload (OutChunk _ c) = PWireChunk c"
| "out_payload (OutTime l _) = PTime \<lparr>tm_latency = l\<rparr>"
| "out_payload (OutCustom _ p) = PCustom p"

fun out_refers :: "out_msg \<Rightarrow> u16" where
  "out_refers (OutSettings _ r) = r"
| "out_refers (OutTime _ r) = r"
| "out_refers _ = 0"

definition serialize_msg :: "(json \<Rightarrow> string) \<Rightarrow> timeval \<Rightarrow> out_msg \<Rightarrow> u8 list" where
  "serialize_msg print now m =
     fst (serialize print \<lparr>bm_msg_type = out_type m, bm_id = 0, bm_refers_to = out_refers m,
       bm_sent = now, bm_received = tv_zero, bm_size = 0\<rparr> (out_payload m))"

end
