(* ===== verification/Command.thy ===== *)
theory Command
  imports Session
begin

text \<open>
  Command dispatch, \<open>snapcast-server/src/command.rs\<close>: every \<open>ServerCommand\<close> except \<open>Stop\<close>, which
  ends the run loop, as one transition of the server with the reply on its response channel.  The
  result None is a dispatcher that waits for a full channel of a session.
\<close>

datatype server_command =
    SetClientVolume string u16 bool
  | SetClientLatency string i32
  | SetClientName string string
  | SetGroupStream string string
  | SetGroupMute string bool
  | SetGroupName string string
  | SetGroupClients string "string list"
  | DeleteClient string
  | SetStreamMeta string "string \<rightharpoonup> json"
  | AddStream string
  | RemoveStream string
  | StreamControl string string json
  | GetStatus
  | SendToClient string u16 "u8 list"

datatype reply = NoReply | StatusReply server_status | AddStreamReply "string + string"

definition add_stream_refusal :: string where
  "add_stream_refusal = ''dynamic Stream.AddStream is not supported by the embeddable server after run(); create streams before run()''"

definition update_client :: "string \<Rightarrow> (client \<Rightarrow> client) \<Rightarrow> server_state \<Rightarrow> server_state" where
  "update_client cid f s =
     (case s_clients s cid of
        None \<Rightarrow> s
      | Some c \<Rightarrow> s\<lparr>s_clients := (s_clients s)(cid \<mapsto> f c)\<rparr>)"

definition set_latency :: "i32 \<Rightarrow> client \<Rightarrow> client" where
  "set_latency l c = c\<lparr>c_config := (c_config c)\<lparr>cc_latency := l\<rparr>\<rparr>"

definition set_name :: "string \<Rightarrow> client \<Rightarrow> client" where
  "set_name nm c = c\<lparr>c_config := (c_config c)\<lparr>cc_name := nm\<rparr>\<rparr>"

definition set_group_mute :: "string \<Rightarrow> bool \<Rightarrow> server_state \<Rightarrow> server_state" where
  "set_group_mute gid m s = s\<lparr>s_groups := update_group gid (\<lambda>g. g\<lparr>g_muted := m\<rparr>) (s_groups s)\<rparr>"

definition set_group_name :: "string \<Rightarrow> string \<Rightarrow> server_state \<Rightarrow> server_state" where
  "set_group_name gid nm s = s\<lparr>s_groups := update_group gid (\<lambda>g. g\<lparr>g_name := nm\<rparr>) (s_groups s)\<rparr>"

definition delete_client :: "string \<Rightarrow> server_state \<Rightarrow> server_state" where
  "delete_client cid s =
     (let s' = remove_client_from_groups cid s in
      s'\<lparr>s_clients := (s_clients s')(cid := None)\<rparr>)"

definition set_stream_meta :: "string \<Rightarrow> (string \<rightharpoonup> json) \<Rightarrow> server_state \<Rightarrow> server_state" where
  "set_stream_meta st meta s =
     s\<lparr>s_streams := update_first (\<lambda>x. si_id x = st) (\<lambda>x. x\<lparr>si_properties := meta\<rparr>) (s_streams s)\<rparr>"

definition clear_stream :: "string \<Rightarrow> group \<Rightarrow> group" where
  "clear_stream st g = (if g_stream_id g = st then g\<lparr>g_stream_id := []\<rparr> else g)"

definition remove_stream :: "string \<Rightarrow> server_state \<Rightarrow> server_state" where
  "remove_stream st s =
     s\<lparr>s_streams := filter (\<lambda>x. si_id x \<noteq> st) (s_streams s),
       s_groups := List.map (clear_stream st) (s_groups s)\<rparr>"

text \<open>What each command does to the shared state and to the supply of ids.\<close>

definition command_state ::
  "(nat \<Rightarrow> string) \<Rightarrow> server_command \<Rightarrow> server_state \<times> nat \<Rightarrow> server_state \<times> nat" where
  "command_state fresh cmd = (\<lambda>(s, n).
     case cmd of
       SetClientVolume cid vol m \<Rightarrow> (set_client_volume cid vol m s, n)
     | SetClientLatency cid l \<Rightarrow> (update_client cid (set_latency l) s, n)
     | SetClientName cid nm \<Rightarrow> (update_client cid (set_name nm) s, n)
     | SetGroupStream gid st \<Rightarrow> (set_group_stream gid st s, n)
     | SetGroupMute gid m \<Rightarrow> (set_group_mute gid m s, n)
     | SetGroupName gid nm \<Rightarrow> (set_group_name gid nm s, n)
     | SetGroupClients gid cids \<Rightarrow> set_group_clients fresh n gid cids s
     | DeleteClient cid \<Rightarrow> (delete_client cid s, n)
     | SetStreamMeta st meta \<Rightarrow> (set_stream_meta st meta s, n)
     | RemoveStream st \<Rightarrow> (remove_stream st s, n)
     | _ \<Rightarrow> (s, n))"

definition with_state :: "(nat \<Rightarrow> string) \<Rightarrow> server_command \<Rightarrow> server \<Rightarrow> server" where
  "with_state fresh cmd v =
     (let (s, n) = command_state fresh cmd (v_state v, v_next v) in v\<lparr>v_state := s, v_next := n\<rparr>)"

text \<open>The mutation followed by the snapshot for the embedder.\<close>

definition with_snapshot :: "(nat \<Rightarrow> string) \<Rightarrow> server_command \<Rightarrow> server \<Rightarrow> server" where
  "with_snapshot fresh cmd v =
     (let v' = with_state fresh cmd v in try_event (StateChanged (v_state v')) v')"

definition latency_of :: "server_state \<Rightarrow> string \<Rightarrow> i32" where
  "latency_of s cid = (case s_clients s cid of Some c \<Rightarrow> cc_latency (c_config c) | None \<Rightarrow> 0)"

definition dispatch ::
  "config \<Rightarrow> (nat \<Rightarrow> string) \<Rightarrow> string \<Rightarrow> server_command \<Rightarrow> server \<Rightarrow> (server \<times> reply) option" where
  "dispatch cfg fresh pkg cmd v =
     (case cmd of
        SetClientVolume cid vol m \<Rightarrow>
          (let v1 = with_snapshot fresh cmd v in
           map_option (\<lambda>v2. (push_routing cid (try_event (ClientVolumeChanged cid vol m) v2), NoReply))
             (push_settings \<lparr>up_client_id = cid, up_buffer_ms = k_buffer_ms cfg,
                up_latency = latency_of (v_state v1) cid, up_volume = vol, up_muted = m\<rparr> v1))
      | SetClientLatency cid l \<Rightarrow>
          (let v1 = with_snapshot fresh cmd v in
           map_option (\<lambda>v2. (try_event (ClientLatencyChanged cid l) v2, NoReply))
             (case s_clients (v_state v1) cid of
                None \<Rightarrow> Some v1
              | Some c \<Rightarrow> push_settings \<lparr>up_client_id = cid, up_buffer_ms = k_buffer_ms cfg,
                  up_latency = l, up_volume = vol_percent (cc_volume (c_config c)),
                  up_muted = vol_muted (cc_volume (c_config c))\<rparr> v1))
      | SetClientName cid nm \<Rightarrow>
          Some (try_event (ClientNameChanged cid nm) (with_snapshot fresh cmd v), NoReply)
      | SetGroupStream gid st \<Rightarrow>
          Some (push_routing_for_group gid
            (try_event (GroupStreamChanged gid st) (with_snapshot fresh cmd v)), NoReply)
      | SetGroupMute gid m \<Rightarrow>
          Some (push_routing_for_group gid
            (try_event (GroupMuteChanged gid m) (with_snapshot fresh cmd v)), NoReply)
      | SetGroupName gid nm \<Rightarrow>
          Some (try_event (GroupNameChanged gid nm) (with_snapshot fresh cmd v), NoReply)
      | SetGroupClients gid cids \<Rightarrow>
          Some (push_routing_all (try_event ServerUpdated (with_snapshot fresh cmd v)), NoReply)
      | DeleteClient cid \<Rightarrow>
          Some (push_routing_all (try_event ServerUpdated (with_snapshot fresh cmd v)), NoReply)
      | SetStreamMeta st meta \<Rightarrow>
          Some (try_event (StreamMetaChanged st meta) (with_state fresh cmd v), NoReply)
      | AddStream uri \<Rightarrow> Some (v, AddStreamReply (Inl add_stream_refusal))
      | RemoveStream st \<Rightarrow>
          Some (push_routing_all (try_event ServerUpdated (with_snapshot fresh cmd v)), NoReply)
      | StreamControl st c params \<Rightarrow> Some (try_event (StreamControlEvent st c params) v, NoReply)
      | GetStatus \<Rightarrow> Some (v, StatusReply (to_status pkg (v_state v)))
      | SendToClient cid t p \<Rightarrow> map_option (\<lambda>v'. (v', NoReply)) (send_custom cid t p v))"

end
