(* ===== verification/Rpc.thy ===== *)
theory Rpc
  imports StatusJson Command
begin

text \<open>
  The JSON-RPC control API: \<open>snapserver-rs/src/jsonrpc.rs\<close>, \<open>notify.rs\<close> and \<open>auth.rs\<close>.  The command
  channel with the server behind it is the parameter \<open>exec\<close>: it takes a command and the state of the
  world to the next state and the reply on the response channel, None when that was dropped.  The
  JWT library and the wall clock are the fields of \<open>jwt\<close>.
\<close>

subsection \<open>Authentication\<close>

record auth_config =
  ac_enabled :: bool
  ac_secret :: string

record jwt =
  jwt_encode :: "string \<Rightarrow> string \<Rightarrow> nat \<Rightarrow> string + string"  \<comment> \<open>secret, subject, expiry\<close>
  jwt_decode :: "string + nat \<Rightarrow> string \<Rightarrow> string \<Rightarrow> string + string"
    \<comment> \<open>the wall clock, against which the expiry is checked, secret, token: the subject\<close>
  jwt_now :: "string + nat"  \<comment> \<open>the wall clock, in seconds since the epoch\<close>

definition clock_at :: "string + nat \<Rightarrow> jwt \<Rightarrow> jwt" where
  "clock_at now jwt = jwt\<lparr>jwt_now := now\<rparr>"

definition auth_config_valid :: "auth_config \<Rightarrow> string + unit" where
  "auth_config_valid c =
     (if ac_enabled c \<and> trim (ac_secret c) = [] then
        Inl (''authentication is enabled but no secret is configured '' @
             ''(set [auth] secret in the config file or pass --auth-secret)'')
      else Inr ())"

definition generate_token :: "jwt \<Rightarrow> auth_config \<Rightarrow> string \<Rightarrow> string + string" where
  "generate_token jwt c subject =
     (if ac_secret c = [] then Inl ''cannot issue token: auth secret is not configured''
      else case jwt_now jwt of
        Inl e \<Rightarrow> Inl e
      | Inr secs \<Rightarrow> jwt_encode jwt (ac_secret c) subject (secs + 86400))"

definition validate_token :: "jwt \<Rightarrow> auth_config \<Rightarrow> string \<Rightarrow> string + string" where
  "validate_token jwt c token =
     (if ac_secret c = [] then Inl ''cannot validate token: auth secret is not configured''
      else jwt_decode jwt (jwt_now jwt) (ac_secret c) token)"

definition validate_bearer :: "jwt \<Rightarrow> auth_config \<Rightarrow> string option \<Rightarrow> string + string" where
  "validate_bearer jwt c header =
     (if \<not> ac_enabled c then Inr ''anonymous''
      else case header of
        None \<Rightarrow> Inl ''missing Authorization header''
      | Some h \<Rightarrow>
          (case strip_prefix ''Bearer '' h of
             None \<Rightarrow> Inl ''expected Bearer token''
           | Some token \<Rightarrow> validate_token jwt c token))"

subsection \<open>Notifications\<close>

definition notification :: "string \<Rightarrow> json \<Rightarrow> json" where
  "notification meth params =
     JObj [(''jsonrpc'', JStr ''2.0''), (''method'', JStr meth), (''params'', params)]"

definition client_on_volume_changed :: "string \<Rightarrow> u16 \<Rightarrow> bool \<Rightarrow> json" where
  "client_on_volume_changed cid percent muted =
     notification ''Client.OnVolumeChanged''
       (JObj [(''id'', JStr cid),
          (''volume'', JObj [(''percent'', of_u16 percent), (''muted'', JBool muted)])])"

definition client_on_latency_changed :: "string \<Rightarrow> i32 \<Rightarrow> json" where
  "client_on_latency_changed cid latency =
     notification ''Client.OnLatencyChanged'' (JObj [(''id'', JStr cid), (''latency'', of_i32 latency)])"

definition client_on_name_changed :: "string \<Rightarrow> string \<Rightarrow> json" where
  "client_on_name_changed cid name =
     notification ''Client.OnNameChanged'' (JObj [(''id'', JStr cid), (''name'', JStr name)])"

definition group_on_mute :: "string \<Rightarrow> bool \<Rightarrow> json" where
  "group_on_mute gid muted = notification ''Group.OnMute'' (JObj [(''id'', JStr gid), (''mute'', JBool muted)])"

definition group_on_stream_changed :: "string \<Rightarrow> string \<Rightarrow> json" where
  "group_on_stream_changed gid stream =
     notification ''Group.OnStreamChanged'' (JObj [(''id'', JStr gid), (''stream_id'', JStr stream)])"

definition group_on_name_changed :: "string \<Rightarrow> string \<Rightarrow> json" where
  "group_on_name_changed gid name =
     notification ''Group.OnNameChanged'' (JObj [(''id'', JStr gid), (''name'', JStr name)])"

subsection \<open>Responses\<close>

definition INVALID_PARAMS :: int where
  "INVALID_PARAMS = - 32602"

datatype rpc_result = Response json "json option" | Unknown

definition rpc_response :: "json \<Rightarrow> json \<Rightarrow> json" where
  "rpc_response i result = JObj [(''jsonrpc'', JStr ''2.0''), (''id'', i), (''result'', result)]"

definition rpc_ok :: "json \<Rightarrow> json \<Rightarrow> rpc_result" where
  "rpc_ok i result = Response (rpc_response i result) None"

definition ok_with_notify :: "json \<Rightarrow> json \<Rightarrow> string \<Rightarrow> json \<Rightarrow> rpc_result" where
  "ok_with_notify i result meth params =
     Response (rpc_response i result)
       (Some (JObj [(''jsonrpc'', JStr ''2.0''), (''method'', JStr meth), (''params'', params)]))"

definition ok_with_notification :: "json \<Rightarrow> json \<Rightarrow> json \<Rightarrow> rpc_result" where
  "ok_with_notification i result note = Response (rpc_response i result) (Some note)"

definition rpc_error_json :: "json \<Rightarrow> int \<Rightarrow> string \<Rightarrow> json" where
  "rpc_error_json i code msg =
     JObj [(''jsonrpc'', JStr ''2.0''), (''id'', i),
       (''error'', JObj [(''code'', JInt code), (''message'', JStr msg)])]"

definition rpc_err :: "json \<Rightarrow> int \<Rightarrow> string \<Rightarrow> rpc_result" where
  "rpc_err i code msg = Response (rpc_error_json i code msg) None"

text \<open>\<open>require_str!\<close>: the continuation with the parameter, or the error that names it.\<close>

definition require_str :: "json \<Rightarrow> string \<Rightarrow> json \<Rightarrow> 's \<Rightarrow> (string \<Rightarrow> 's \<times> rpc_result) \<Rightarrow> 's \<times> rpc_result" where
  "require_str params key i w k =
     (case json_string (jfield key params) of
        Some v \<Rightarrow> k v
      | None \<Rightarrow> (w, rpc_err i INVALID_PARAMS (''missing '' @ [CHR 0x27] @ key @ [CHR 0x27])))"

subsection \<open>Methods\<close>

type_synonym 's exec = "server_command \<Rightarrow> 's \<Rightarrow> 's \<times> reply option"

definition get_status :: "'s exec \<Rightarrow> 's \<Rightarrow> 's \<times> json option" where
  "get_status exec w =
     (case exec GetStatus w of
        (w, Some (StatusReply status)) \<Rightarrow> (w, Some (status_json status))
      | (w, _) \<Rightarrow> (w, None))"

definition status_or_null :: "'s exec \<Rightarrow> 's \<Rightarrow> 's \<times> json" where
  "status_or_null exec w = (case get_status exec w of (w, Some j) \<Rightarrow> (w, j) | (w, None) \<Rightarrow> (w, JNull))"

definition string_or :: "string \<Rightarrow> json \<Rightarrow> string" where
  "string_or dflt j = (case json_string j of Some s \<Rightarrow> s | None \<Rightarrow> dflt)"

definition bool_or_false :: "json \<Rightarrow> bool" where
  "bool_or_false j = (case json_bool j of Some b \<Rightarrow> b | None \<Rightarrow> False)"

definition elements :: "json \<Rightarrow> json list" where
  "elements j = (case json_array j of Some xs \<Rightarrow> xs | None \<Rightarrow> [])"

definition find_by_id :: "string \<Rightarrow> json list \<Rightarrow> json option" where
  "find_by_id i xs = find (\<lambda>x. json_string (jfield ''id'' x) = Some i) xs"

definition all_groups :: "json \<Rightarrow> json list" where
  "all_groups status = elements (jfield ''groups'' (jfield ''server'' status))"

definition all_clients :: "json \<Rightarrow> json list" where
  "all_clients status = concat (List.map (\<lambda>g. elements (jfield ''clients'' g)) (all_groups status))"

definition handle_client :: "'s exec \<Rightarrow> string \<Rightarrow> json \<Rightarrow> json \<Rightarrow> 's \<Rightarrow> 's \<times> rpc_result" where
  "handle_client exec meth i params w =
     require_str params ''id'' i w (\<lambda>cid.
       if meth = ''Client.GetStatus'' then
         (case get_status exec w of
            (w, None) \<Rightarrow> (w, rpc_err i INVALID_PARAMS ''status unavailable'')
          | (w, Some status) \<Rightarrow>
              (case find_by_id cid (all_clients status) of
                 Some c \<Rightarrow> (w, rpc_ok i (JObj [(''client'', c)]))
               | None \<Rightarrow> (w, rpc_err i INVALID_PARAMS ''client not found'')))
       else if meth = ''Client.SetVolume'' then
         (let v = jfield ''volume'' params;
              percent = (case json_u64 (jfield ''percent'' v) of Some n \<Rightarrow> n | None \<Rightarrow> 100);
              volume = word_of_int (min percent 100) :: u16;
              muted = bool_or_false (jfield ''muted'' v);
              w = fst (exec (SetClientVolume cid volume muted) w) in
          (w, ok_with_notification i
                (JObj [(''volume'', JObj [(''percent'', of_u16 volume), (''muted'', JBool muted)])])
                (client_on_volume_changed cid volume muted)))
       else if meth = ''Client.SetLatency'' then
         (let latency = word_of_int (case json_i64 (jfield ''latency'' params) of Some n \<Rightarrow> n | None \<Rightarrow> 0) :: i32;
              w = fst (exec (SetClientLatency cid latency) w) in
          (w, ok_with_notification i (JObj [(''latency'', of_i32 latency)])
                (client_on_latency_changed cid latency)))
       else
         (let name = string_or [] (jfield ''name'' params);
              w = fst (exec (SetClientName cid name) w) in
          (w, ok_with_notification i (JObj [(''name'', JStr name)]) (client_on_name_changed cid name))))"

definition handle_group :: "'s exec \<Rightarrow> string \<Rightarrow> json \<Rightarrow> json \<Rightarrow> 's \<Rightarrow> 's \<times> rpc_result" where
  "handle_group exec meth i params w =
     require_str params ''id'' i w (\<lambda>gid.
       if meth = ''Group.GetStatus'' then
         (case get_status exec w of
            (w, None) \<Rightarrow> (w, rpc_err i INVALID_PARAMS ''status unavailable'')
          | (w, Some status) \<Rightarrow>
              (case find_by_id gid (all_groups status) of
                 Some g \<Rightarrow> (w, rpc_ok i (JObj [(''group'', g)]))
               | None \<Rightarrow> (w, rpc_err i INVALID_PARAMS ''group not found'')))
       else if meth = ''Group.SetMute'' then
         (let muted = bool_or_false (jfield ''mute'' params);
              w = fst (exec (SetGroupMute gid muted) w) in
          (w, ok_with_notification i (JObj [(''mute'', JBool muted)]) (group_on_mute gid muted)))
       else if meth = ''Group.SetStream'' then
         require_str params ''stream_id'' i w (\<lambda>stream.
           (fst (exec (SetGroupStream gid stream) w),
            ok_with_notification i (JObj [(''stream_id'', JStr stream)]) (group_on_stream_changed gid stream)))
       else if meth = ''Group.SetClients'' then
         (case json_array (jfield ''clients'' params) of
            None \<Rightarrow> (w, rpc_err i INVALID_PARAMS (''missing '' @ [CHR 0x27] @ ''clients'' @ [CHR 0x27]))
          | Some clients \<Rightarrow>
              (let w = fst (exec (SetGroupClients gid (List.map_filter json_string clients)) w);
                   (w, status) = status_or_null exec w in
               (w, ok_with_notify i status ''Server.OnUpdate'' status)))
       else
         (let name = string_or [] (jfield ''name'' params);
              w = fst (exec (SetGroupName gid name) w) in
          (w, ok_with_notification i (JObj [(''name'', JStr name)]) (group_on_name_changed gid name))))"

definition handle_stream :: "'s exec \<Rightarrow> string \<Rightarrow> json \<Rightarrow> json \<Rightarrow> 's \<Rightarrow> 's \<times> rpc_result" where
  "handle_stream exec meth i params w =
     (if meth = ''Stream.AddStream'' then
        require_str params ''streamUri'' i w (\<lambda>uri.
          (case exec (AddStream uri) w of
             (w, Some (AddStreamReply (Inr stream))) \<Rightarrow>
               (let (w, status) = status_or_null exec w in
                (w, ok_with_notify i (JObj [(''id'', JStr stream)]) ''Server.OnUpdate'' status))
           | (w, Some (AddStreamReply (Inl e))) \<Rightarrow> (w, rpc_err i INVALID_PARAMS e)
           | (w, _) \<Rightarrow> (w, rpc_err i INVALID_PARAMS ''command failed'')))
      else
        require_str params ''id'' i w (\<lambda>stream.
          if meth = ''Stream.SetProperty'' then
            (let props = jfield ''properties'' params;
                 metadata = (case json_object props of Some kvs \<Rightarrow> map_of (rev kvs) | None \<Rightarrow> (\<lambda>_. None));
                 w = fst (exec (SetStreamMeta stream metadata) w);
                 result = JObj [(''id'', JStr stream), (''properties'', props)] in
             (w, ok_with_notify i result ''Stream.OnUpdate'' result))
          else if meth = ''Stream.Control'' then
            require_str params ''command'' i w (\<lambda>command.
              (fst (exec (StreamControl stream command (jfield ''params'' params)) w),
               rpc_ok i (JObj [(''id'', JStr stream)])))
          else
            (let w = fst (exec (RemoveStream stream) w);
                 (w, status) = status_or_null exec w in
             (w, ok_with_notify i (JObj [(''id'', JStr stream)]) ''Server.OnUpdate'' status))))"

definition handle_server ::
  "'s exec \<Rightarrow> string \<Rightarrow> json \<Rightarrow> json \<Rightarrow> 's \<Rightarrow> 's \<times> rpc_result" where
  "handle_server exec meth i params w =
     (if meth = ''Server.GetRPCVersion'' then
        (w, rpc_ok i (JObj [(''major'', JInt 2), (''minor'', JInt 0), (''patch'', JInt 0)]))
      else if meth = ''Server.GetStatus'' then
        (case get_status exec w of
           (w, Some status) \<Rightarrow> (w, rpc_ok i status)
         | (w, None) \<Rightarrow> (w, rpc_err i INVALID_PARAMS ''status unavailable''))
      else
        require_str params ''id'' i w (\<lambda>cid.
          (fst (exec (DeleteClient cid) w), rpc_ok i (JObj [(''id'', JStr cid)]))))"

definition handle_auth :: "jwt \<Rightarrow> auth_config \<Rightarrow> string \<Rightarrow> json \<Rightarrow> json \<Rightarrow> 's \<Rightarrow> 's \<times> rpc_result" where
  "handle_auth jwt auth meth i params w =
     (if meth = ''Server.GetToken'' then
        (case generate_token jwt auth (string_or ''anonymous'' (jfield ''username'' params)) of
           Inr token \<Rightarrow> (w, rpc_ok i (JObj [(''token'', JStr token)]))
         | Inl e \<Rightarrow> (w, rpc_err i INVALID_PARAMS (''token generation failed: '' @ e)))
      else
        require_str params ''token'' i w (\<lambda>token.
          (case validate_token jwt auth token of
             Inr subject \<Rightarrow> (w, rpc_ok i (JObj [(''ok'', JBool True), (''subject'', JStr subject)]))
           | Inl _ \<Rightarrow> (w, rpc_err i INVALID_PARAMS ''invalid token''))))"

definition client_methods :: "string list" where
  "client_methods = [''Client.GetStatus'', ''Client.SetVolume'', ''Client.SetLatency'', ''Client.SetName'']"

definition group_methods :: "string list" where
  "group_methods = [''Group.GetStatus'', ''Group.SetMute'', ''Group.SetStream'', ''Group.SetClients'',
     ''Group.SetName'']"

definition stream_methods :: "string list" where
  "stream_methods = [''Stream.SetProperty'', ''Stream.Control'', ''Stream.AddStream'', ''Stream.RemoveStream'']"

definition server_methods :: "string list" where
  "server_methods = [''Server.GetRPCVersion'', ''Server.GetStatus'', ''Server.DeleteClient'']"

definition auth_methods :: "string list" where
  "auth_methods = [''Server.GetToken'', ''Server.Authenticate'']"

definition request_method :: "json \<Rightarrow> string" where
  "request_method request = string_or [] (jfield ''method'' request)"

definition handle_request ::
  "jwt \<Rightarrow> auth_config \<Rightarrow> 's exec \<Rightarrow> json \<Rightarrow> 's \<Rightarrow> 's \<times> rpc_result" where
  "handle_request jwt auth exec request w =
     (let i = jfield ''id'' request; meth = request_method request; params = jfield ''params'' request in
      if meth \<in> set server_methods then handle_server exec meth i params w
      else if meth \<in> set client_methods then handle_client exec meth i params w
      else if meth \<in> set group_methods then handle_group exec meth i params w
      else if meth \<in> set stream_methods then handle_stream exec meth i params w
      else if meth \<in> set auth_methods then handle_auth jwt auth meth i params w
      else (w, Unknown))"

end
