(* ===== verification/CommandLemmas.thy ===== *)
theory CommandLemmas
  imports Command
begin

text \<open>
  The lemmas of sessions and commands: every operation keeps the server state well formed, and
  the routing pushes bring the watch channels to the state.
\<close>

subsection \<open>Well-formedness of the shared state\<close>

lemma groups_ok_update_group:
  "groups_ok gs \<Longrightarrow> (\<And>g. g_id (f g) = g_id g) \<Longrightarrow> (\<And>g. g_clients (f g) = g_clients g) \<Longrightarrow>
   groups_ok (update_group gid f gs)"
  by (simp add: update_group_map groups_ok_distinct)
    (rule groups_ok_sub, auto simp: groups_ok_clients)

lemma update_group_clients:
  "(\<And>g. g_clients (f g) = g_clients g) \<Longrightarrow>
   List.map g_clients (update_group gid f gs) = List.map g_clients gs"
  by (simp add: update_group_def map_update_first)

lemma update_group_ids:
  "(\<And>g. g_id (f g) = g_id g) \<Longrightarrow> List.map g_id (update_group gid f gs) = List.map g_id gs"
  by (simp add: update_group_def map_update_first)

lemma groups_nonempty_clients:
  "List.map g_clients gs = List.map g_clients hs \<Longrightarrow> groups_nonempty gs = groups_nonempty hs"
  unfolding groups_nonempty_def by (metis (no_types, lifting) imageE image_eqI list.set_map)

lemma supply_ids:
  "List.map g_id gs = List.map g_id hs \<Longrightarrow> supply_ok fresh n gs = supply_ok fresh n hs"
  unfolding supply_ok_def by (metis list.set_map)

lemma supply_subset:
  "supply_ok fresh n gs \<Longrightarrow> g_id ` set hs \<subseteq> g_id ` set gs \<Longrightarrow> supply_ok fresh n hs"
  unfolding supply_ok_def by blast

lemma clients_ok_upd: "clients_ok cs \<Longrightarrow> c_id c = i \<Longrightarrow> clients_ok (cs(i \<mapsto> c))"
  by (auto simp: clients_ok_def)

lemma clients_ok_del: "clients_ok cs \<Longrightarrow> clients_ok (cs(i := None))"
  by (auto simp: clients_ok_def)

lemma clients_ok_id: "clients_ok cs \<Longrightarrow> cs i = Some c \<Longrightarrow> c_id c = i"
  by (simp add: clients_ok_def)

lemma state_ok_update_client:
  "state_ok s \<Longrightarrow> (\<And>c. c_id (f c) = c_id c) \<Longrightarrow> state_ok (update_client cid f s)"
  by (auto simp: update_client_def state_ok_def clients_ok_upd clients_ok_id split: option.split)

lemma update_client_groups [simp]: "s_groups (update_client cid f s) = s_groups s"
  by (simp add: update_client_def split: option.split)

lemma set_client_volume_update:
  "set_client_volume cid p m s = update_client cid
     (\<lambda>c. c\<lparr>c_config := (c_config c)\<lparr>cc_volume := \<lparr>vol_percent = p, vol_muted = m\<rparr>\<rparr>\<rparr>) s"
  by (simp add: set_client_volume_def update_client_def)

lemma disconnect_client_update:
  "disconnect_client cid s = update_client cid (\<lambda>c. c\<lparr>c_connected := False\<rparr>) s"
  by (simp add: disconnect_client_def update_client_def)

text \<open>A change of group attributes other than id and members.\<close>

lemma state_ok_update_group:
  assumes "state_ok s" "\<And>g. g_id (f g) = g_id g" "\<And>g. g_clients (f g) = g_clients g"
  shows "state_ok (s\<lparr>s_groups := update_group gid f (s_groups s)\<rparr>)"
  using assms groups_nonempty_clients [OF update_group_clients [where f = f and gid = gid]]
  by (simp add: state_ok_def groups_ok_update_group)

lemma state_ok_remove_client:
  "state_ok s \<Longrightarrow> state_ok (remove_client_from_groups cid s)"
  by (simp add: state_ok_def remove_client_from_groups_def)

lemma clear_stream_simps [simp]:
  "g_id (clear_stream st g) = g_id g" "g_clients (clear_stream st g) = g_clients g"
  "has_client c (clear_stream st g) = has_client c g"
  by (simp_all add: clear_stream_def has_client_def)

lemma state_ok_remove_stream: "state_ok s \<Longrightarrow> state_ok (remove_stream st s)"
  by (auto simp: state_ok_def remove_stream_def groups_nonempty_def
      groups_ok_clients intro!: groups_ok_sub)

lemma state_ok_set_group_clients:
  "state_ok s \<Longrightarrow> supply_ok fresh n (s_groups s) \<Longrightarrow>
   state_ok (fst (set_group_clients fresh n gid cids s))"
  using groups_ok_set_group_clients [of s fresh n gid cids]
  by (simp add: state_ok_def set_group_clients_groups)

lemma command_keeps_ok:
  assumes "state_ok s" "supply_ok fresh n (s_groups s)"
  shows "state_ok (fst (command_state fresh cmd (s, n))) \<and>
    supply_ok fresh (snd (command_state fresh cmd (s, n)))
      (s_groups (fst (command_state fresh cmd (s, n))))"
proof (cases cmd)
  case (SetGroupClients gid cids)
  with assms state_ok_set_group_clients supply_set_group_clients show ?thesis
    by (simp add: command_state_def state_ok_def)
next
  case (DeleteClient cid)
  have "supply_ok fresh n (s_groups (remove_client_from_groups cid s))"
    by (rule supply_subset [OF assms(2)])
      (auto simp: remove_client_from_groups_def nonempty_groups_def)
  moreover have "state_ok (remove_client_from_groups cid s)"
    using assms(1) by (rule state_ok_remove_client)
  ultimately show ?thesis
    by (simp add: DeleteClient command_state_def delete_client_def Let_def state_ok_def clients_ok_del)
next
  case (RemoveStream st)
  have "supply_ok fresh n (s_groups (remove_stream st s))"
    by (rule supply_subset [OF assms(2)]) (auto simp: remove_stream_def clear_stream_def)
  with RemoveStream assms show ?thesis by (simp add: command_state_def state_ok_remove_stream)
next
  case (SetStreamMeta st m)
  with assms show ?thesis by (simp add: command_state_def set_stream_meta_def state_ok_def)
qed (use assms in \<open>simp_all add: command_state_def set_client_volume_update state_ok_update_client
       set_latency_def set_name_def set_group_stream_def set_group_mute_def set_group_name_def
       state_ok_update_group supply_ids [OF update_group_ids]\<close>)

lemma state_ok_get_or_create: "state_ok s \<Longrightarrow> state_ok (get_or_create_client cid host mac s)"
  by (auto simp: get_or_create_client_def state_ok_def clients_ok_upd clients_ok_id split: option.split)

lemma get_or_create_groups [simp]: "s_groups (get_or_create_client cid host mac s) = s_groups s"
  by (simp add: get_or_create_client_def split: option.split)

lemma get_or_create_Some: "\<exists>c. s_clients (get_or_create_client cid host mac s) cid = Some c"
  by (simp add: get_or_create_client_def split: option.split)

lemma group_for_client_ok:
  assumes "state_ok s" "supply_ok fresh n (s_groups s)"
    and "group_for_client fresh n cid st s = (s', n', g)"
  shows "state_ok s' \<and> supply_ok fresh n' (s_groups s') \<and> g \<in> set (s_groups s') \<and> has_client cid g
    \<and> s_clients s' = s_clients s"
proof (cases "find (has_client cid) (s_groups s)")
  case (Some h)
  with assms find_Some_set [OF Some] show ?thesis by (auto simp: group_for_client_def)
next
  case None
  let ?g = "new_group (fresh n) st cid"
  have "groups_ok (s_groups s @ [?g])"
  proof (rule groups_ok_append)
    show "groups_ok (s_groups s)" using assms(1) by (simp add: state_ok_def)
    show "groups_ok [?g]" by (simp add: groups_ok_def)
    show "g_id ` set (s_groups s) \<inter> g_id ` set [?g] = {}"
      using supply_fresh [OF assms(2), of n] by simp
    show "\<not> member_of [?g] c j" if "member_of (s_groups s) c i" for c i j
      using that None by (auto simp: member_of_def find_None_set)
  qed
  moreover have "groups_nonempty (s_groups s @ [?g])"
    using assms(1) by (auto simp: state_ok_def groups_nonempty_def)
  moreover have "supply_ok fresh (Suc n) (s_groups s @ [?g])"
    using assms(2) by (auto simp: supply_ok_def inj_eq)
  ultimately show ?thesis
    using None assms by (auto simp: group_for_client_def Let_def state_ok_def)
qed

subsection \<open>Sessions under channel operations\<close>

lemma try_event_simps [simp]:
  "v_state (try_event e v) = v_state v" "v_next (try_event e v) = v_next v"
  "v_sessions (try_event e v) = v_sessions v"
  "v_routing_senders (try_event e v) = v_routing_senders v"
  "v_settings_senders (try_event e v) = v_settings_senders v"
  "v_custom_senders (try_event e v) = v_custom_senders v"
  "v_codec_headers (try_event e v) = v_codec_headers v"
  by (simp_all add: try_event_def)

lemma send_event_Some:
  "send_event e v = Some v' \<longleftrightarrow>
     length (v_events v) < EVENT_CHANNEL_SIZE \<and> v' = v\<lparr>v_events := v_events v @ [e]\<rparr>"
  by (auto simp: send_event_def)

lemma update_session_simps [simp]:
  "v_state (update_session sid f v) = v_state v" "v_next (update_session sid f v) = v_next v"
  "v_events (update_session sid f v) = v_events v"
  "v_routing_senders (update_session sid f v) = v_routing_senders v"
  "v_settings_senders (update_session sid f v) = v_settings_senders v"
  "v_custom_senders (update_session sid f v) = v_custom_senders v"
  "v_codec_headers (update_session sid f v) = v_codec_headers v"
  by (simp_all add: update_session_def split: option.split)

lemma update_session_at:
  "v_sessions (update_session sid f v) i =
     (if i = sid then map_option f (v_sessions v i) else v_sessions v i)"
  by (simp add: update_session_def split: option.split)

lemma with_state_simps [simp]:
  "v_state (with_state fresh cmd v) = fst (command_state fresh cmd (v_state v, v_next v))"
  "v_next (with_state fresh cmd v) = snd (command_state fresh cmd (v_state v, v_next v))"
  "v_sessions (with_state fresh cmd v) = v_sessions v"
  "v_events (with_state fresh cmd v) = v_events v"
  "v_routing_senders (with_state fresh cmd v) = v_routing_senders v"
  "v_settings_senders (with_state fresh cmd v) = v_settings_senders v"
  "v_custom_senders (with_state fresh cmd v) = v_custom_senders v"
  "v_codec_headers (with_state fresh cmd v) = v_codec_headers v"
  by (simp_all add: with_state_def split_beta)

lemma with_snapshot_simps [simp]:
  "v_state (with_snapshot fresh cmd v) = fst (command_state fresh cmd (v_state v, v_next v))"
  "v_next (with_snapshot fresh cmd v) = snd (command_state fresh cmd (v_state v, v_next v))"
  "v_sessions (with_snapshot fresh cmd v) = v_sessions v"
  "v_routing_senders (with_snapshot fresh cmd v) = v_routing_senders v"
  "v_settings_senders (with_snapshot fresh cmd v) = v_settings_senders v"
  "v_custom_senders (with_snapshot fresh cmd v) = v_custom_senders v"
  "v_codec_headers (with_snapshot fresh cmd v) = v_codec_headers v"
  by (simp_all add: with_snapshot_def Let_def)

text \<open>Everything of a server that a push to a channel of a session leaves alone.\<close>

definition same_core :: "server \<Rightarrow> server \<Rightarrow> bool" where
  "same_core v w \<longleftrightarrow> v_state w = v_state v \<and> v_next w = v_next v \<and>
     v_routing_senders w = v_routing_senders v \<and> v_settings_senders w = v_settings_senders v \<and>
     v_custom_senders w = v_custom_senders v \<and> v_codec_headers w = v_codec_headers v"

lemma same_core_refl [simp]: "same_core v v"
  by (simp add: same_core_def)

lemma same_core_trans: "same_core u v \<Longrightarrow> same_core v w \<Longrightarrow> same_core u w"
  by (simp add: same_core_def)

lemma same_core_update_session [simp]: "same_core u v \<Longrightarrow> same_core u (update_session sid f v)"
  by (simp add: same_core_def)

lemma same_core_try_event [simp]: "same_core u v \<Longrightarrow> same_core u (try_event e v)"
  by (simp add: same_core_def)

lemma push_routing_core [simp]: "same_core u v \<Longrightarrow> same_core u (push_routing cid v)"
  by (simp add: push_routing_def send_watch_def split: option.split)

lemma push_routing_clients_core [simp]:
  "same_core u v \<Longrightarrow> same_core u (push_routing_clients cids v)"
  unfolding push_routing_clients_def by (induction cids arbitrary: v) simp_all

lemma push_routing_for_group_core [simp]:
  "same_core u v \<Longrightarrow> same_core u (push_routing_for_group gid v)"
  by (simp add: push_routing_for_group_def split: option.split)

lemma fold_push_core:
  "same_core u v \<Longrightarrow> same_core u (fold (\<lambda>g. push_routing_clients (g_clients g)) gs v)"
  by (induction gs arbitrary: v) simp_all

lemma push_routing_all_core [simp]: "same_core u v \<Longrightarrow> same_core u (push_routing_all v)"
  unfolding push_routing_all_def by (rule fold_push_core)

lemma push_settings_core: "push_settings u v = Some w \<Longrightarrow> same_core v w"
  by (auto simp: push_settings_def split: option.splits if_splits)

lemma send_custom_core: "send_custom c t p v = Some w \<Longrightarrow> same_core v w"
  by (auto simp: send_custom_def split: option.splits if_splits)

text \<open>All that dispatch does to the shared state is what \<open>command_state\<close> says.\<close>

lemma dispatch_core:
  "dispatch cfg fresh pkg cmd v = Some (w, r) \<Longrightarrow> same_core (with_state fresh cmd v) w"
proof -
  assume d: "dispatch cfg fresh pkg cmd v = Some (w, r)"
  have snap: "same_core (with_state fresh cmd v) (with_snapshot fresh cmd v)"
    by (simp add: same_core_def)
  show ?thesis
  proof (cases cmd)
    case (SetClientVolume cid vol m)
    with d obtain u v2 where
      p: "push_settings u (with_snapshot fresh cmd v) = Some v2"
        "w = push_routing cid (try_event (ClientVolumeChanged cid vol m) v2)"
      by (auto simp: dispatch_def Let_def)
    with snap same_core_trans push_settings_core have "same_core (with_state fresh cmd v) v2" by blast
    with p show ?thesis by simp
  next
    case (SetClientLatency cid l)
    with d obtain u v2 where
      p: "v2 = with_snapshot fresh cmd v \<or> push_settings u (with_snapshot fresh cmd v) = Some v2"
        "w = try_event (ClientLatencyChanged cid l) v2"
      by (auto simp: dispatch_def Let_def split: option.splits)
    with snap same_core_trans push_settings_core have "same_core (with_state fresh cmd v) v2" by blast
    with p show ?thesis by simp
  next
    case (SendToClient cid t p)
    then have "same_core (with_state fresh cmd v) v" by (auto simp: command_state_def same_core_def)
    with SendToClient d send_custom_core same_core_trans show ?thesis
      by (auto simp: dispatch_def)
  next
    case (AddStream u)
    with d show ?thesis by (auto simp: dispatch_def command_state_def same_core_def)
  next
    case (StreamControl st c p)
    with d show ?thesis by (auto simp: dispatch_def command_state_def same_core_def)
  next
    case GetStatus
    with d show ?thesis by (auto simp: dispatch_def command_state_def same_core_def)
  qed (use d snap in \<open>auto simp: dispatch_def\<close>)
qed

end
