(* ===== verification/Control.thy ===== *)
theory Control
  imports Rpc CommandLemmas
begin

text \<open>
  One control connection, \<open>snapserver-rs/src/control.rs\<close>: its loop's two arms as steps on the state
  of the world, the connection's authentication flag, what was written to it, what was broadcast,
  and what went to the extension handler.  \<open>ext\<close> is that handler's answer within the five seconds.
\<close>

record 'w control =
  ct_world :: 'w
  ct_authenticated :: bool
  ct_out :: "json list"
  ct_notes :: "json list"
  ct_events :: "(json \<times> bool) list"  \<comment> \<open>the request, and whether an answer is awaited\<close>

definition control_new :: "auth_config \<Rightarrow> 'w \<Rightarrow> 'w control" where
  "control_new auth w =
     \<lparr>ct_world = w, ct_authenticated = (\<not> ac_enabled auth), ct_out = [], ct_notes = [], ct_events = []\<rparr>"

definition send_json :: "json \<Rightarrow> 'w control \<Rightarrow> 'w control" where
  "send_json j c = c\<lparr>ct_out := ct_out c @ [j]\<rparr>"

definition unauthorized_message :: string where
  "unauthorized_message = ''Unauthorized '' @ from_bytes [0xE2, 0x80, 0x94] @ '' call Server.Authenticate first''"

record env =
  en_jwt :: jwt
  en_auth :: auth_config
  en_parse :: "string \<Rightarrow> json option"
  en_methods :: "string list"
  en_notifications :: "string list"
  en_ext :: "json \<Rightarrow> json option"

definition on_known :: "string \<Rightarrow> json \<Rightarrow> json option \<Rightarrow> 'w control \<Rightarrow> 'w control" where
  "on_known meth response note c =
     (let c = (if meth = ''Server.Authenticate'' \<and> jfield ''ok'' (jfield ''result'' response) = JBool True
               then c\<lparr>ct_authenticated := True\<rparr> else c);
          c = send_json response c in
      case note of None \<Rightarrow> c | Some n \<Rightarrow> c\<lparr>ct_notes := ct_notes c @ [n]\<rparr>)"

definition on_unknown :: "env \<Rightarrow> string \<Rightarrow> json \<Rightarrow> 'w control \<Rightarrow> 'w control" where
  "on_unknown e meth request c =
     (if meth \<in> set (en_methods e) then
        (let c = c\<lparr>ct_events := ct_events c @ [(request, True)]\<rparr> in
         case en_ext e request of
           Some response \<Rightarrow> send_json response c
         | None \<Rightarrow> send_json (rpc_error_json JNull (- 32603) ''Handler timeout'') c)
      else if meth \<in> set (en_notifications e) then c\<lparr>ct_events := ct_events c @ [(request, False)]\<rparr>
      else send_json (rpc_error_json (jfield ''id'' request) (- 32601) ''Method not found'') c)"

definition handle_line :: "env \<Rightarrow> 'w exec \<Rightarrow> string \<Rightarrow> 'w control \<Rightarrow> 'w control" where
  "handle_line e exec line c =
     (if trim line = [] then c
      else case en_parse e line of
        None \<Rightarrow> send_json (rpc_error_json JNull (- 32700) ''Parse error'') c
      | Some request \<Rightarrow>
          (let meth = request_method request in
           if \<not> ct_authenticated c \<and> meth \<noteq> ''Server.GetToken'' \<and> meth \<noteq> ''Server.Authenticate'' then
             send_json (rpc_error_json (jfield ''id'' request) (- 32000) unauthorized_message) c
           else
             (case handle_request (en_jwt e) (en_auth e) exec request (ct_world c) of
                (w, Response response note) \<Rightarrow> on_known meth response note (c\<lparr>ct_world := w\<rparr>)
              | (w, Unknown) \<Rightarrow> on_unknown e meth request (c\<lparr>ct_world := w\<rparr>))))"

definition on_notification :: "json \<Rightarrow> 'w control \<Rightarrow> 'w control" where
  "on_notification n c = send_json n c"

subsection \<open>The authentication gate\<close>

text \<open>A line that presents a token which the library accepts.\<close>

definition authenticates :: "env \<Rightarrow> string \<Rightarrow> bool" where
  "authenticates e line \<longleftrightarrow>
     (case en_parse e line of
        None \<Rightarrow> False
      | Some request \<Rightarrow>
          request_method request = ''Server.Authenticate'' \<and>
          (case json_string (jfield ''token'' (jfield ''params'' request)) of
             None \<Rightarrow> False
           | Some token \<Rightarrow> \<not> isl (validate_token (en_jwt e) (en_auth e) token)))"

lemmas dispatch_defs =
  server_methods_def client_methods_def group_methods_def stream_methods_def auth_methods_def

lemma get_token_keeps_world:
  "request_method request = ''Server.GetToken'' \<Longrightarrow>
   \<exists>response. handle_request jwt auth exec request w = (w, Response response None)"
  by (auto simp: handle_request_def Let_def dispatch_defs handle_auth_def rpc_ok_def rpc_err_def
      split: sum.split)

lemma authenticate_result:
  assumes "request_method request = ''Server.Authenticate''"
  shows "handle_request jwt auth exec request w =
    (case json_string (jfield ''token'' (jfield ''params'' request)) of
       None \<Rightarrow> (w, rpc_err (jfield ''id'' request) INVALID_PARAMS (''missing '' @ [CHR 0x27] @ ''token'' @ [CHR 0x27]))
     | Some token \<Rightarrow>
         (case validate_token jwt auth token of
            Inr subject \<Rightarrow> (w, rpc_ok (jfield ''id'' request) (JObj [(''ok'', JBool True), (''subject'', JStr subject)]))
          | Inl _ \<Rightarrow> (w, rpc_err (jfield ''id'' request) INVALID_PARAMS ''invalid token'')))"
  using assms by (simp add: handle_request_def Let_def dispatch_defs handle_auth_def require_str_def
      split: option.split)

lemma jfield_error [simp]: "jfield ''ok'' (jfield ''result'' (rpc_error_json i code msg)) = JNull"
  by (simp add: rpc_error_json_def jfield_def)

lemma jfield_ok [simp]: "jfield ''result'' (rpc_response i r) = r"
  by (simp add: rpc_response_def jfield_def)

lemma jfield_granted [simp]: "jfield ''ok'' (JObj [(''ok'', v), (''subject'', s)]) = v"
  by (simp add: jfield_def)

definition gated :: "'w \<Rightarrow> 'w control \<Rightarrow> bool" where
  "gated w c \<longleftrightarrow> ct_world c = w \<and> \<not> ct_authenticated c \<and> ct_notes c = [] \<and> ct_events c = []"

text \<open>Behind the gate only the two methods of authentication are handled, and they keep it closed.\<close>

lemma gated_request:
  assumes "gated w c" "en_parse e line = Some r" "\<not> authenticates e line"
    and "request_method r = ''Server.GetToken'' \<or> request_method r = ''Server.Authenticate''"
  shows "\<exists>response. handle_request (en_jwt e) (en_auth e) exec r (ct_world c) = (w, Response response None) \<and>
    gated w (on_known (request_method r) response None (c\<lparr>ct_world := w\<rparr>))"
proof -
  have "\<exists>response. handle_request (en_jwt e) (en_auth e) exec r (ct_world c) = (w, Response response None) \<and>
      (request_method r = ''Server.Authenticate'' \<longrightarrow> jfield ''ok'' (jfield ''result'' response) \<noteq> JBool True)"
  proof (cases "request_method r = ''Server.GetToken''")
    case True
    with get_token_keeps_world [OF True, of "en_jwt e" "en_auth e" exec "ct_world c"] assms(1) show ?thesis
      by (auto simp: gated_def)
  next
    case False
    with assms show ?thesis
      by (auto simp: authenticates_def isl_def authenticate_result gated_def rpc_err_def split: option.splits)
  qed
  with assms(1) show ?thesis by (auto simp: on_known_def gated_def send_json_def Let_def)
qed

lemma gated_line: "gated w c \<Longrightarrow> \<not> authenticates e line \<Longrightarrow> gated w (handle_line e exec line c)"
  using gated_request [of w c e line _ exec]
  by (cases "en_parse e line") (fastforce simp: handle_line_def Let_def gated_def send_json_def)+

text \<open>The surroundings of a request that is handled at the time \<open>now\<close>.\<close>

definition at_time :: "string + nat \<Rightarrow> env \<Rightarrow> env" where
  "at_time now e = e\<lparr>en_jwt := clock_at now (en_jwt e)\<rparr>"

lemma at_time_simps [simp]:
  "en_auth (at_time now e) = en_auth e" "en_parse (at_time now e) = en_parse e"
  "jwt_now (en_jwt (at_time now e)) = now"
  "jwt_encode (en_jwt (at_time now e)) = jwt_encode (en_jwt e)"
  "jwt_decode (en_jwt (at_time now e)) = jwt_decode (en_jwt e)"
  by (simp_all add: at_time_def clock_at_def)

text \<open>A library for demonstrations: a token is the secret followed by the subject; no token is good
  after the second 87400.\<close>

definition demo_jwt :: jwt where
  "demo_jwt = \<lparr>jwt_encode = (\<lambda>secret subject expiry. Inr (secret @ ''.'' @ subject)),
     jwt_decode = (\<lambda>now secret token. case strip_prefix (secret @ ''.'') token of
        Some subject \<Rightarrow> (case now of
            Inl e \<Rightarrow> Inl e
          | Inr t \<Rightarrow> if 87400 < t then Inl ''expired'' else Inr subject)
      | None \<Rightarrow> Inl ''bad signature''),
     jwt_now = Inr 1000\<rparr>"

definition demo_request :: "string \<Rightarrow> string \<Rightarrow> string \<Rightarrow> json" where
  "demo_request meth key val =
     JObj [(''id'', JInt 1), (''method'', JStr meth), (''params'', JObj [(key, JStr val)])]"

definition demo_parse :: "string \<Rightarrow> json option" where
  "demo_parse line =
     (if line = ''delete'' then Some (demo_request ''Server.DeleteClient'' ''id'' ''c1'')
      else if line = ''token'' then Some (demo_request ''Server.GetToken'' ''username'' ''eve'')
      else if line = ''auth'' then Some (demo_request ''Server.Authenticate'' ''token'' ''s3.eve'')
      else if line = ''guess'' then Some (demo_request ''Server.Authenticate'' ''token'' ''s4.eve'')
      else None)"

definition demo_env :: env where
  "demo_env = \<lparr>en_jwt = demo_jwt, en_auth = \<lparr>ac_enabled = True, ac_secret = ''s3''\<rparr>,
     en_parse = demo_parse, en_methods = [], en_notifications = [], en_ext = (\<lambda>_. None)\<rparr>"

text \<open>C40: the gate is no boundary: anyone may ask for a token under any name, without a credential,
  and present it later, whatever library signs the tokens as long as it accepts its own at that time.\<close>

theorem anyone_gets_past_gate:
  assumes "ac_secret (en_auth e) \<noteq> []"
    and enc: "jwt_encode (en_jwt e) (ac_secret (en_auth e)) user (now + 86400) = Inr token"
    and dec: "jwt_decode (en_jwt e) later (ac_secret (en_auth e)) token = Inr user"
    and l1: "trim line1 \<noteq> []" "en_parse e line1 = Some r1" "request_method r1 = ''Server.GetToken''"
      "jfield ''username'' (jfield ''params'' r1) = JStr user"
    and l2: "trim line2 \<noteq> []" "en_parse e line2 = Some r2" "request_method r2 = ''Server.Authenticate''"
      "jfield ''token'' (jfield ''params'' r2) = JStr token"
  shows "ct_out (handle_line (at_time (Inr now) e) exec line1 c) =
      ct_out c @ [rpc_response (jfield ''id'' r1) (JObj [(''token'', JStr token)])] \<and>
    ct_authenticated (handle_line (at_time later e) exec line2 (handle_line (at_time (Inr now) e) exec line1 c))"
proof -
  let ?e = "at_time (Inr now) e"
  have "generate_token (en_jwt ?e) (en_auth ?e) user = Inr token"
    using assms(1) enc by (simp add: generate_token_def)
  then have h1: "handle_request (en_jwt ?e) (en_auth ?e) exec r1 (ct_world c) =
      (ct_world c, rpc_ok (jfield ''id'' r1) (JObj [(''token'', JStr token)]))"
    using l1(3,4) by (simp add: handle_request_def Let_def dispatch_defs handle_auth_def string_or_def)
  have s1: "handle_line ?e exec line1 c =
      send_json (rpc_response (jfield ''id'' r1) (JObj [(''token'', JStr token)])) c"
    using l1 h1 by (simp add: handle_line_def Let_def rpc_ok_def on_known_def send_json_def)
  have "validate_token (en_jwt (at_time later e)) (en_auth e) token = Inr user"
    using assms(1) dec by (simp add: validate_token_def)
  then have "ct_authenticated (handle_line (at_time later e) exec line2 d)" for d
    using l2 by (simp add: handle_line_def Let_def authenticate_result rpc_ok_def on_known_def send_json_def)
  with s1 show ?thesis by (simp add: send_json_def)
qed

lemma demo_trim: "trim ''token'' = ''token''" "trim ''auth'' = ''auth''"
  by (rule trim_printable; simp add: printable_def)+

text \<open>A token that is issued at second 1000 and presented at second 1060.\<close>

lemma anyone_gets_past_gate_witness:
  "ct_authenticated (handle_line (at_time (Inr 1060) demo_env) (\<lambda>cmd w. (Suc w, Some NoReply)) ''auth''
     (handle_line (at_time (Inr 1000) demo_env) (\<lambda>cmd w. (Suc w, Some NoReply)) ''token''
       (control_new (en_auth demo_env) 0)))"
  by (rule anyone_gets_past_gate [of demo_env "''eve''" 1000 "''s3.eve''" "Inr 1060" "''token''"
      "demo_request ''Server.GetToken'' ''username'' ''eve''" "''auth''"
      "demo_request ''Server.Authenticate'' ''token'' ''s3.eve''", THEN conjunct2])
    (simp_all add: demo_trim, simp_all add: demo_env_def demo_parse_def demo_request_def request_method_def
      string_or_def jfield_def demo_jwt_def)

end
