(* ===== verification/Routing.thy ===== *)
theory Routing
  imports CommandLemmas
begin

text \<open>
  Routing: every command that changes what the shared state says about where a client belongs pushes
  the new routing into the watch channel of the client's session.
\<close>

text \<open>From \<open>v0\<close> to \<open>v\<close> the session of a client was told what the state of \<open>v\<close> says about the client, or
  was told nothing; with \<open>b\<close>, nothing only when the client is in no group.\<close>

definition tracked :: "bool \<Rightarrow> server \<Rightarrow> server \<Rightarrow> string \<Rightarrow> bool" where
  "tracked b v0 v c \<longleftrightarrow>
     (\<forall>sid se. v_routing_senders v0 c = Some sid \<longrightarrow> v_sessions v0 sid = Some se \<longrightarrow>
       v_routing_senders v c = Some sid \<and>
       (\<exists>se'. v_sessions v sid = Some se' \<and>
         (se_watch_changed se' \<and> build_routing (v_state v) c = Some (se_watch se') \<or>
          se_watch se' = se_watch se \<and> se_watch_changed se' = se_watch_changed se \<and>
          (b \<longrightarrow> build_routing (v_state v) c = None))))"

definition senders_ok :: "server \<Rightarrow> bool" where
  "senders_ok v \<longleftrightarrow> (\<forall>c sid se. v_sessions v sid = Some se \<longrightarrow>
     (v_routing_senders v c = Some sid \<or> v_settings_senders v c = Some sid
        \<or> v_custom_senders v c = Some sid) \<longrightarrow> se_client se = c)"

lemma senders_routing:
  "senders_ok v \<Longrightarrow> v_routing_senders v c = Some sid \<Longrightarrow> v_sessions v sid = Some se \<Longrightarrow>
   se_client se = c"
  by (simp add: senders_ok_def)

text \<open>Updates of a session that keep its client and its watch value.\<close>

lemma senders_ok_update:
  "senders_ok v \<Longrightarrow> (\<And>se. se_hello (f se) = se_hello se) \<Longrightarrow> senders_ok (update_session sid f v)"
  by (auto simp: senders_ok_def update_session_at se_client_def split: if_splits)

text \<open>Steps that leave watch channels and the routing of the client alone.\<close>

lemma tracked_start [simp]: "tracked False v v c"
  by (simp add: tracked_def)

lemma tracked_update:
  assumes "tracked b v0 v c" "\<And>se. se_watch (f se) = se_watch se"
    and "\<And>se. se_watch_changed (f se) = se_watch_changed se"
  shows "tracked b v0 (update_session sid f v) c"
  using assms by (fastforce simp: tracked_def update_session_at split: if_splits)

lemma tracked_same:
  "tracked b v0 v c \<Longrightarrow> build_routing (v_state w) c = build_routing (v_state v) c \<Longrightarrow>
   v_sessions w = v_sessions v \<Longrightarrow> v_routing_senders w = v_routing_senders v \<Longrightarrow> tracked b v0 w c"
  by (simp add: tracked_def)

text \<open>As long as nothing was pushed, the state may change freely.\<close>

lemma tracked_quiet:
  "v_sessions w = v_sessions v \<Longrightarrow> v_routing_senders w = v_routing_senders v \<Longrightarrow> tracked False v w c"
  by (simp add: tracked_def)

lemma senders_ok_try_event [simp]: "senders_ok (try_event e v) = senders_ok v"
  by (simp add: senders_ok_def)

lemma tracked_try_event [simp]: "tracked b v0 (try_event e v) c = tracked b v0 v c"
  by (simp add: tracked_def)

lemma senders_ok_snapshot [simp]: "senders_ok (with_snapshot fresh cmd v) = senders_ok v"
  by (simp add: senders_ok_def)

lemma senders_ok_state [simp]: "senders_ok (with_state fresh cmd v) = senders_ok v"
  by (simp add: senders_ok_def)

subsection \<open>One push\<close>

lemma senders_ok_push [simp]: "senders_ok v \<Longrightarrow> senders_ok (push_routing c v)"
  by (simp add: push_routing_def send_watch_def senders_ok_update split: option.split)

lemma tracked_push_self: "tracked b v0 v c \<Longrightarrow> tracked True v0 (push_routing c v) c"
  by (fastforce simp: tracked_def push_routing_def send_watch_def update_session_at split: option.splits)

lemma tracked_push_other:
  assumes "senders_ok v" "tracked b v0 v d" "c \<noteq> d"
  shows "tracked b v0 (push_routing c v) d"
proof (cases "build_routing (v_state v) c = None \<or> v_routing_senders v c = None")
  case True
  with assms(2) show ?thesis by (auto simp: push_routing_def split: option.split)
next
  case False
  then obtain r i where ri: "build_routing (v_state v) c = Some r" "v_routing_senders v c = Some i" by auto
  have "v_routing_senders v d = Some i \<Longrightarrow> v_sessions v i = None"
    using assms(1,3) ri(2) by (cases "v_sessions v i") (auto dest: senders_routing)
  with assms(2) ri show ?thesis
    by (fastforce simp: tracked_def push_routing_def send_watch_def update_session_at split: if_splits)
qed

lemma tracked_push:
  "senders_ok v \<Longrightarrow> tracked b v0 v d \<Longrightarrow> tracked (b \<or> c = d) v0 (push_routing c v) d"
  using tracked_push_self tracked_push_other by (cases "c = d") auto

subsection \<open>Pushes to many clients\<close>

lemma senders_ok_push_clients [simp]: "senders_ok v \<Longrightarrow> senders_ok (push_routing_clients cs v)"
  unfolding push_routing_clients_def by (induction cs arbitrary: v) simp_all

lemma tracked_push_clients:
  "senders_ok v \<Longrightarrow> tracked b v0 v d \<Longrightarrow> tracked (b \<or> d \<in> set cs) v0 (push_routing_clients cs v) d"
  unfolding push_routing_clients_def
proof (induction cs arbitrary: v b)
  case (Cons c cs)
  from Cons.IH [OF senders_ok_push [OF Cons.prems(1)] tracked_push [OF Cons.prems]]
  show ?case by (auto simp: disj_ac eq_commute)
qed simp

lemma tracked_push_groups:
  "senders_ok v \<Longrightarrow> tracked b v0 v d \<Longrightarrow>
   tracked (b \<or> (\<exists>g\<in>set gs. has_client d g)) v0 (fold (\<lambda>g. push_routing_clients (g_clients g)) gs v) d"
proof (induction gs arbitrary: v b)
  case (Cons g gs)
  from Cons.IH [OF senders_ok_push_clients [OF Cons.prems(1)] tracked_push_clients [OF Cons.prems]]
  show ?case by (simp add: has_client_def disj_assoc)
qed simp

lemma build_routing_no_group:
  "\<not> (\<exists>g\<in>set (s_groups s). has_client d g) \<Longrightarrow> build_routing s d = None"
  by (auto simp: build_routing_def find_None_iff split: option.split)

lemma tracked_push_all:
  assumes "senders_ok v" "tracked False v0 v d"
  shows "tracked True v0 (push_routing_all v) d"
proof (cases "\<exists>g\<in>set (s_groups (v_state v)). has_client d g")
  case True
  with tracked_push_groups [OF assms, of "s_groups (v_state v)"] show ?thesis by (simp add: push_routing_all_def)
next
  case False
  from build_routing_no_group [OF this] assms(2) have "tracked True v0 v d" by (simp add: tracked_def)
  from tracked_push_groups [OF assms(1) this] show ?thesis by (simp add: push_routing_all_def)
qed

subsection \<open>Pushes after a change of one group\<close>

lemma find_map_has:
  "(\<And>g. has_client c (f g) = has_client c g) \<Longrightarrow>
   find (has_client c) (List.map f gs) = map_option f (find (has_client c) gs)"
  by (induction gs) auto

lemma find_client_update_group:
  assumes "groups_ok gs" "\<And>g. g_clients (f g) = g_clients g"
  shows "find (has_client c) (update_group gid f gs) =
    map_option (\<lambda>g. if g_id g = gid then f g else g) (find (has_client c) gs)"
proof -
  have "has_client c (if g_id g = gid then f g else g) = has_client c g" for g
    using assms(2) by (simp add: has_client_def)
  then show ?thesis
    by (simp add: update_group_map groups_ok_distinct [OF assms(1)] find_map_has)
qed

text \<open>The state changes at most the attributes of group \<open>gid\<close>.\<close>

definition one_group_changed :: "string \<Rightarrow> server_state \<Rightarrow> server_state \<Rightarrow> bool" where
  "one_group_changed gid s s' \<longleftrightarrow> s_clients s' = s_clients s \<and>
     (\<exists>f. (\<forall>g. g_clients (f g) = g_clients g \<and> g_id (f g) = g_id g) \<and>
        s_groups s' = update_group gid f (s_groups s))"

lemma build_routing_other_group:
  assumes "groups_ok (s_groups s)" "one_group_changed gid s s'"
    and "\<not> member_of (s_groups s) c gid"
  shows "build_routing s' c = build_routing s c"
proof -
  obtain f where f: "\<And>g. g_clients (f g) = g_clients g"
    "s_groups s' = update_group gid f (s_groups s)" "s_clients s' = s_clients s"
    using assms(2) by (auto simp: one_group_changed_def)
  have "find (has_client c) (s_groups s') = find (has_client c) (s_groups s)"
    using assms(3) find_client_update_group [OF assms(1) f(1), of c gid] f(2)
    by (cases "find (has_client c) (s_groups s)") (auto simp: member_of_def dest!: find_Some_set)
  with f(3) show ?thesis by (simp add: build_routing_def cong: option.case_cong)
qed

lemma member_of_one_group:
  assumes "groups_ok (s_groups s)" "one_group_changed gid s s'" "member_of (s_groups s) c gid"
  shows "\<exists>g. find (\<lambda>g. g_id g = gid) (s_groups s') = Some g \<and> c \<in> set (g_clients g)"
proof -
  obtain f where f: "\<And>g. g_clients (f g) = g_clients g" "\<And>g. g_id (f g) = g_id g"
    "s_groups s' = update_group gid f (s_groups s)"
    using assms(2) by (auto simp: one_group_changed_def)
  obtain h where h: "h \<in> set (s_groups s)" "g_id h = gid" "has_client c h"
    using assms(3) by (auto simp: member_of_def)
  from find_group [OF assms(1) h(1)] h(2)
  have "find (\<lambda>g. g_id g = gid) (s_groups s) = Some h" by simp
  then have "find (\<lambda>g. g_id g = gid) (update_group gid f (s_groups s)) = Some (f h)"
    unfolding update_group_def using f(2) by (simp add: find_update_first)
  with f h show ?thesis by (auto simp: has_client_def)
qed

text \<open>After a push to the members of a group: told, or not concerned.\<close>

definition routed :: "server \<Rightarrow> server \<Rightarrow> string \<Rightarrow> bool" where
  "routed v w c \<longleftrightarrow> tracked True v w c \<or>
     tracked False v w c \<and> build_routing (v_state w) c = build_routing (v_state v) c"

lemma push_state [simp]: "v_state (push_routing c v) = v_state v"
  by (simp add: push_routing_def send_watch_def split: option.split)

lemma push_clients_state [simp]: "v_state (push_routing_clients cs v) = v_state v"
  unfolding push_routing_clients_def by (induction cs arbitrary: v) simp_all

lemma push_group_state [simp]: "v_state (push_routing_for_group gid v) = v_state v"
  by (simp add: push_routing_for_group_def split: option.split)

lemma routed_push_group:
  assumes "groups_ok (s_groups (v_state v))" "one_group_changed gid (v_state v) (v_state w)"
    and "v_sessions w = v_sessions v" "v_routing_senders w = v_routing_senders v" "senders_ok w"
  shows "routed v (push_routing_for_group gid w) c"
proof (cases "member_of (s_groups (v_state v)) c gid")
  case True
  then obtain g where g: "find (\<lambda>g. g_id g = gid) (s_groups (v_state w)) = Some g" "c \<in> set (g_clients g)"
    using member_of_one_group [OF assms(1,2)] by blast
  with tracked_push_clients [OF assms(5) tracked_quiet [OF assms(3,4)], of c "g_clients g"]
  show ?thesis by (simp add: routed_def push_routing_for_group_def)
next
  case False
  have "tracked False v (push_routing_for_group gid w) c \<or> tracked True v (push_routing_for_group gid w) c"
  proof (cases "find (\<lambda>g. g_id g = gid) (s_groups (v_state w))")
    case None
    then show ?thesis using tracked_quiet [OF assms(3,4)] by (simp add: push_routing_for_group_def)
  next
    case (Some g)
    then show ?thesis
      using tracked_push_clients [OF assms(5) tracked_quiet [OF assms(3,4)], of c "g_clients g"]
      by (cases "c \<in> set (g_clients g)") (simp_all add: push_routing_for_group_def)
  qed
  with build_routing_other_group [OF assms(1,2) False] show ?thesis by (auto simp: routed_def)
qed

subsection \<open>No command leaves a routing stale\<close>

lemma build_routing_update_client:
  "c \<noteq> cid \<or> (\<forall>x. vol_muted (cc_volume (c_config (f x))) = vol_muted (cc_volume (c_config x))) \<Longrightarrow>
   build_routing (update_client cid f s) c = build_routing s c"
  by (auto simp: build_routing_def update_client_def split: option.split)

lemma build_routing_set_stream_meta [simp]:
  "build_routing (set_stream_meta st meta s) c = build_routing s c"
  by (simp add: build_routing_def set_stream_meta_def cong: option.case_cong)

lemma push_settings_keeps:
  "push_settings u v = Some w \<Longrightarrow> tracked b v0 v c \<Longrightarrow> tracked b v0 w c"
  "push_settings u v = Some w \<Longrightarrow> senders_ok v \<Longrightarrow> senders_ok w"
  "push_settings u v = Some w \<Longrightarrow> v_state w = v_state v"
  by (auto simp: push_settings_def senders_ok_update tracked_update split: option.splits if_splits)

lemma send_custom_keeps:
  "send_custom cid t p v = Some w \<Longrightarrow> tracked b v0 v c \<Longrightarrow> tracked b v0 w c"
  "send_custom cid t p v = Some w \<Longrightarrow> v_state w = v_state v"
  by (auto simp: send_custom_def senders_ok_update tracked_update split: option.splits if_splits)

lemma command_state_simps:
  "command_state fresh (SetClientVolume cid vol m) (s, n) = (set_client_volume cid vol m s, n)"
  "command_state fresh (SetClientLatency cid l) (s, n) = (update_client cid (set_latency l) s, n)"
  "command_state fresh (SetClientName cid nm) (s, n) = (update_client cid (set_name nm) s, n)"
  "command_state fresh (SetGroupStream gid st) (s, n) = (set_group_stream gid st s, n)"
  "command_state fresh (SetGroupMute gid m) (s, n) = (set_group_mute gid m s, n)"
  "command_state fresh (SetGroupName gid nm) (s, n) = (set_group_name gid nm s, n)"
  "command_state fresh (SetGroupClients gid cids) (s, n) = set_group_clients fresh n gid cids s"
  "command_state fresh (DeleteClient cid) (s, n) = (delete_client cid s, n)"
  "command_state fresh (SetStreamMeta st meta) (s, n) = (set_stream_meta st meta s, n)"
  "command_state fresh (RemoveStream st) (s, n) = (remove_stream st s, n)"
  by (simp_all add: command_state_def)

lemma one_group_changedI:
  "(\<And>g. g_clients (f g) = g_clients g) \<Longrightarrow> (\<And>g. g_id (f g) = g_id g) \<Longrightarrow>
   one_group_changed gid s (s\<lparr>s_groups := update_group gid f (s_groups s)\<rparr>)"
  by (auto simp: one_group_changed_def)

lemma routed_quiet:
  "build_routing (v_state w) c = build_routing (v_state v) c \<Longrightarrow> v_sessions w = v_sessions v \<Longrightarrow>
   v_routing_senders w = v_routing_senders v \<Longrightarrow> routed v w c"
  by (simp add: routed_def tracked_quiet)

lemma routed_volume:
  assumes "senders_ok v"
    and p: "push_settings u (with_snapshot fresh (SetClientVolume cid vol m) v) = Some v2"
  shows "routed v (push_routing cid (try_event e v2)) c"
proof -
  have "tracked False v v2 c" by (rule push_settings_keeps(1) [OF p]) (rule tracked_quiet; simp)
  moreover have "senders_ok v2" using push_settings_keeps(2) [OF p] assms(1) by simp
  ultimately have "tracked (cid = c) v (push_routing cid (try_event e v2)) c"
    using tracked_push [of "try_event e v2" False v c cid] by simp
  moreover have "v_state (push_routing cid (try_event e v2)) = set_client_volume cid vol m (v_state v)"
    using push_settings_keeps(3) [OF p] by (simp add: command_state_simps)
  ultimately show ?thesis
    by (cases "cid = c") (simp_all add: routed_def set_client_volume_update build_routing_update_client)
qed

lemma dispatch_routed:
  assumes ok: "state_ok (v_state v)" and snd: "senders_ok v"
    and d: "dispatch cfg fresh pkg cmd v = Some (w, r)"
  shows "routed v w c"
proof (cases cmd)
  case (SetClientVolume cid vol m)
  with d routed_volume [OF snd] show ?thesis by (auto simp: dispatch_def Let_def)
next
  case (SetClientLatency cid l)
  let ?v1 = "with_snapshot fresh (SetClientLatency cid l) v"
  have t: "tracked False v ?v1 c" by (rule tracked_quiet) simp_all
  have b: "build_routing (v_state ?v1) c = build_routing (v_state v) c"
    by (simp add: command_state_simps build_routing_update_client set_latency_def)
  from SetClientLatency d obtain u v2 where
    "v2 = ?v1 \<or> push_settings u ?v1 = Some v2" "w = try_event (ClientLatencyChanged cid l) v2"
    by (auto simp: dispatch_def Let_def split: option.splits)
  with t b push_settings_keeps(1) [of u ?v1 v2 False v c] push_settings_keeps(3) [of u ?v1 v2]
  show ?thesis by (auto simp: routed_def)
next
  case (SetClientName cid nm)
  with d show ?thesis
    by (auto simp: dispatch_def command_state_simps build_routing_update_client set_name_def intro!: routed_quiet)
next
  case (SetGroupStream gid st)
  have "one_group_changed gid (v_state v) (set_group_stream gid st (v_state v))"
    unfolding set_group_stream_def by (rule one_group_changedI) simp_all
  with SetGroupStream d ok snd show ?thesis
    by (auto simp: dispatch_def command_state_simps state_ok_def intro!: routed_push_group)
next
  case (SetGroupMute gid m)
  have "one_group_changed gid (v_state v) (set_group_mute gid m (v_state v))"
    unfolding set_group_mute_def by (rule one_group_changedI) simp_all
  with SetGroupMute d ok snd show ?thesis
    by (auto simp: dispatch_def command_state_simps state_ok_def intro!: routed_push_group)
next
  case (SetGroupName gid nm)
  let ?f = "\<lambda>g. g\<lparr>g_name := nm\<rparr>"
  have "build_routing (set_group_name gid nm (v_state v)) c = build_routing (v_state v) c"
    using ok find_client_update_group [of "s_groups (v_state v)" ?f c gid]
    by (cases "find (has_client c) (s_groups (v_state v))")
      (simp_all add: set_group_name_def build_routing_def state_ok_def)
  with SetGroupName d show ?thesis
    by (auto simp: dispatch_def command_state_simps intro!: routed_quiet)
next
  case (SetGroupClients gid cids)
  with d snd show ?thesis by (auto simp: dispatch_def routed_def intro!: tracked_push_all tracked_quiet)
next
  case (DeleteClient cid)
  with d snd show ?thesis by (auto simp: dispatch_def routed_def intro!: tracked_push_all tracked_quiet)
next
  case (RemoveStream st)
  with d snd show ?thesis by (auto simp: dispatch_def routed_def intro!: tracked_push_all tracked_quiet)
next
  case (SetStreamMeta st meta)
  with d show ?thesis by (auto simp: dispatch_def command_state_simps intro!: routed_quiet)
next
  case (SendToClient cid t p)
  with d send_custom_keeps(1) [of cid t p v w False v c] send_custom_keeps(2) [of cid t p v w]
  show ?thesis by (auto simp: dispatch_def routed_def)
qed (use d in \<open>auto simp: dispatch_def routed_quiet\<close>)

end
