(* ===== verification/ServerSteps.thy ===== *)
theory ServerSteps
  imports Routing
begin

text \<open>
  The server as a state machine: commands and the steps of all sessions interleave, since each
  runs in its own task and takes the locks one at a time.  Invariants of every reachable state.
\<close>

subsection \<open>The step relation\<close>

text \<open>A number that no session has and no sender names.\<close>

definition unused :: "server \<Rightarrow> nat \<Rightarrow> bool" where
  "unused v sid \<longleftrightarrow> v_sessions v sid = None \<and> sid \<notin> ran (v_settings_senders v)
     \<and> sid \<notin> ran (v_custom_senders v) \<and> sid \<notin> ran (v_routing_senders v)"

text \<open>No push has switched the stream between the greeting and the start of the loop.\<close>

definition clean_start :: "server \<Rightarrow> nat \<Rightarrow> bool" where
  "clean_start v sid = (case v_sessions v sid of
     None \<Rightarrow> True
   | Some se \<Rightarrow> ro_stream_id (se_watch se) = ro_stream_id (se_routing se))"

inductive server_step ::
  "bool \<Rightarrow> config \<Rightarrow> (nat \<Rightarrow> string) \<Rightarrow> string \<Rightarrow> server \<Rightarrow> server \<Rightarrow> bool"
  for races cfg fresh pkg where
  command: "dispatch cfg fresh pkg cmd v = Some (w, r) \<Longrightarrow> server_step races cfg fresh pkg v w"
| opened: "unused v sid \<Longrightarrow> open_session cfg sid hid p v = Some w \<Longrightarrow> server_step races cfg fresh pkg v w"
| registered: "register_state cfg fresh sid v = Some w \<Longrightarrow> server_step races cfg fresh pkg v w"
| subscribed: "subscribe_routing sid v = Some w \<Longrightarrow> server_step races cfg fresh pkg v w"
| greeted: "greet_client sid v = Some w \<Longrightarrow> server_step races cfg fresh pkg v w"
| greet_failed: "greet_fails sid v = Some w \<Longrightarrow> server_step races cfg fresh pkg v w"
| started: "\<not> races \<longrightarrow> clean_start v sid \<Longrightarrow> start_loop sid v = Some w \<Longrightarrow>
     server_step races cfg fresh pkg v w"
| chunk: "v_codec_headers v (wd_stream_id c) \<noteq> None \<Longrightarrow> on_chunk cfg sid c v = Some w \<Longrightarrow>
     server_step races cfg fresh pkg v w"
| lagged: "on_lagged sid v = Some w \<Longrightarrow> server_step races cfg fresh pkg v w"
| drained: "drain_custom sid v = Some w \<Longrightarrow> server_step races cfg fresh pkg v w"
| routing: "on_routing sid v = Some w \<Longrightarrow> server_step races cfg fresh pkg v w"
| incoming: "on_message sid m v = Some w \<Longrightarrow> server_step races cfg fresh pkg v w"
| settings: "on_settings sid v = Some w \<Longrightarrow> server_step races cfg fresh pkg v w"
| ended: "end_session sid v = Some w \<Longrightarrow> server_step races cfg fresh pkg v w"
| event_taken: "v_events v = e # es \<Longrightarrow> server_step races cfg fresh pkg v (v\<lparr>v_events := es\<rparr>)"

definition server_init :: "(nat \<Rightarrow> string) \<Rightarrow> server \<Rightarrow> bool" where
  "server_init fresh v \<longleftrightarrow> state_ok (v_state v) \<and> supply_ok fresh (v_next v) (s_groups (v_state v))
     \<and> v_settings_senders v = (\<lambda>_. None) \<and> v_custom_senders v = (\<lambda>_. None)
     \<and> v_routing_senders v = (\<lambda>_. None) \<and> v_sessions v = (\<lambda>_. None)"

subsection \<open>Admission, senders and state\<close>

text \<open>The filter accepts the client and, with authentication on, its credentials are valid for a
  user with the permission to stream.\<close>

definition hello_allowed :: "config \<Rightarrow> hello \<Rightarrow> bool" where
  "hello_allowed cfg h \<longleftrightarrow>
     (case k_client_filter cfg of None \<Rightarrow> True | Some f \<Rightarrow> f h) \<and>
     (case k_auth cfg of
        None \<Rightarrow> True
      | Some validate \<Rightarrow>
          (case h_auth h of
             None \<Rightarrow> False
           | Some a \<Rightarrow>
               (case validate (au_scheme a) (au_param a) of
                  Inl _ \<Rightarrow> False
                | Inr res \<Rightarrow> PERM_STREAMING \<in> set (ar_permissions res))))"

lemma admit_allowed: "admit (k_client_filter cfg) (k_auth cfg) p = Admitted h \<Longrightarrow> hello_allowed cfg h"
  by (auto simp: admit_def validate_auth_def hello_allowed_def list_ex_iff Let_def
      split: payload.splits option.splits if_splits sum.splits)

definition server_inv :: "config \<Rightarrow> (nat \<Rightarrow> string) \<Rightarrow> server \<Rightarrow> bool" where
  "server_inv cfg fresh v \<longleftrightarrow> state_ok (v_state v) \<and> supply_ok fresh (v_next v) (s_groups (v_state v))
     \<and> senders_ok v \<and> (\<forall>sid se. v_sessions v sid = Some se \<longrightarrow> hello_allowed cfg (se_hello se))"

text \<open>The sessions of \<open>w\<close> are sessions of \<open>v\<close> with the same client, and \<open>w\<close> has no new senders.\<close>

definition derived :: "server \<Rightarrow> server \<Rightarrow> bool" where
  "derived v w \<longleftrightarrow>
     (\<forall>sid se. v_sessions w sid = Some se \<longrightarrow>
        (\<exists>se0. v_sessions v sid = Some se0 \<and> se_hello se0 = se_hello se)) \<and>
     (\<forall>c sid. v_routing_senders w c = Some sid \<longrightarrow> v_routing_senders v c = Some sid) \<and>
     (\<forall>c sid. v_settings_senders w c = Some sid \<longrightarrow> v_settings_senders v c = Some sid) \<and>
     (\<forall>c sid. v_custom_senders w c = Some sid \<longrightarrow> v_custom_senders v c = Some sid)"

lemma derived_session:
  "derived v w \<Longrightarrow> v_sessions w sid = Some se \<Longrightarrow>
   \<exists>se0. v_sessions v sid = Some se0 \<and> se_hello se0 = se_hello se"
  by (simp add: derived_def)

lemma derived_senders:
  "derived v w \<Longrightarrow> v_routing_senders w c = Some sid \<Longrightarrow> v_routing_senders v c = Some sid"
  "derived v w \<Longrightarrow> v_settings_senders w c = Some sid \<Longrightarrow> v_settings_senders v c = Some sid"
  "derived v w \<Longrightarrow> v_custom_senders w c = Some sid \<Longrightarrow> v_custom_senders v c = Some sid"
  by (simp_all add: derived_def)

lemma derived_refl [simp]: "derived v v"
  by (simp add: derived_def)

lemma derived_trans:
  assumes "derived u v" "derived v w"
  shows "derived u w"
proof -
  have "\<exists>se0. v_sessions u sid = Some se0 \<and> se_hello se0 = se_hello se"
    if "v_sessions w sid = Some se" for sid se
    using derived_session [OF assms(2) that] derived_session [OF assms(1)] by fastforce
  moreover note derived_senders [OF assms(1)] derived_senders [OF assms(2)]
  ultimately show ?thesis unfolding derived_def by blast
qed

lemma derived_update [simp]:
  "derived u v \<Longrightarrow> (\<And>se. se_hello (f se) = se_hello se) \<Longrightarrow> derived u (update_session sid f v)"
  by (auto simp: derived_def update_session_at split: if_splits)

lemma derived_try_event [simp]: "derived u v \<Longrightarrow> derived u (try_event e v)"
  by (simp add: derived_def)

lemma senders_ok_derived:
  assumes "senders_ok v" "derived v w"
  shows "senders_ok w"
  unfolding senders_ok_def
proof (intro allI impI)
  fix c sid se
  assume "v_sessions w sid = Some se" and s: "v_routing_senders w c = Some sid \<or>
    v_settings_senders w c = Some sid \<or> v_custom_senders w c = Some sid"
  then obtain se0 where se0: "v_sessions v sid = Some se0" "se_hello se0 = se_hello se"
    using derived_session [OF assms(2)] by blast
  from s derived_senders [OF assms(2)] have "v_routing_senders v c = Some sid \<or>
    v_settings_senders v c = Some sid \<or> v_custom_senders v c = Some sid" by blast
  with assms(1) se0(1) have "se_client se0 = c" unfolding senders_ok_def by blast
  with se0(2) show "se_client se = c" by (simp add: se_client_def)
qed

lemma server_inv_derived:
  assumes "server_inv cfg fresh v" "derived v w" "state_ok (v_state w)"
    and "supply_ok fresh (v_next w) (s_groups (v_state w))"
  shows "server_inv cfg fresh w"
proof -
  have "hello_allowed cfg (se_hello se)" if "v_sessions w sid = Some se" for sid se
    using derived_session [OF assms(2) that] assms(1) unfolding server_inv_def by metis
  with assms senders_ok_derived [OF _ assms(2)] show ?thesis by (auto simp: server_inv_def)
qed

text \<open>Steps that leave the shared state alone.\<close>

lemma server_inv_same_state:
  "server_inv cfg fresh v \<Longrightarrow> derived v w \<Longrightarrow> v_state w = v_state v \<Longrightarrow> v_next w = v_next v \<Longrightarrow>
   server_inv cfg fresh w"
  by (rule server_inv_derived) (auto simp: server_inv_def)

lemma derived_turn [simp]: "derived u v \<Longrightarrow> derived u (next_turn sid v)"
  by (simp add: next_turn_def)

lemma derived_write [simp]: "derived u v \<Longrightarrow> derived u (write_out sid ms v)"
  by (simp add: write_out_def)

lemma derived_push [simp]: "derived u v \<Longrightarrow> derived u (push_routing c v)"
  by (simp add: push_routing_def send_watch_def split: option.split)

lemma derived_push_clients [simp]: "derived u v \<Longrightarrow> derived u (push_routing_clients cs v)"
  unfolding push_routing_clients_def by (induction cs arbitrary: v) simp_all

lemma derived_push_group [simp]: "derived u v \<Longrightarrow> derived u (push_routing_for_group gid v)"
  by (simp add: push_routing_for_group_def split: option.split)

lemma derived_push_all [simp]: "derived u v \<Longrightarrow> derived u (push_routing_all v)"
proof -
  have "derived u v \<Longrightarrow> derived u (fold (\<lambda>g. push_routing_clients (g_clients g)) gs v)" for gs
    by (induction gs arbitrary: v) simp_all
  then show "derived u v \<Longrightarrow> derived u (push_routing_all v)" by (simp add: push_routing_all_def)
qed

lemma derived_push_settings: "push_settings x v = Some w \<Longrightarrow> derived u v \<Longrightarrow> derived u w"
  by (auto simp: push_settings_def split: option.splits if_splits)

lemma derived_send_custom: "send_custom c t p v = Some w \<Longrightarrow> derived u v \<Longrightarrow> derived u w"
  by (auto simp: send_custom_def split: option.splits if_splits)

lemma derived_send_event: "send_event e v = Some w \<Longrightarrow> derived u v \<Longrightarrow> derived u w"
  by (auto simp: send_event_Some derived_def)

lemma derived_state_upd [simp]:
  "derived u (v\<lparr>v_state := s\<rparr>) = derived u v"
  "derived u (v\<lparr>v_state := s, v_next := n\<rparr>) = derived u v"
  "derived u (v\<lparr>v_events := es\<rparr>) = derived u v"
  "derived u (with_state fresh cmd v) = derived u v"
  "derived u (with_snapshot fresh cmd v) = derived u v"
  by (simp_all add: derived_def)

lemma derived_push_snapshot:
  "push_settings x (with_snapshot fresh cmd v) = Some w \<Longrightarrow> derived v w"
  by (erule derived_push_settings) simp

lemma derived_send_self: "send_custom c t p v = Some w \<Longrightarrow> derived v w"
  by (erule derived_send_custom) simp

lemma derived_dispatch: "dispatch cfg fresh pkg cmd v = Some (w, r) \<Longrightarrow> derived v w"
  by (cases cmd)
    (auto simp: dispatch_def Let_def dest!: derived_push_snapshot derived_send_self
      split: option.splits)

subsection \<open>Every step keeps the invariant\<close>

lemma inv_command:
  assumes "server_inv cfg fresh v" "dispatch cfg fresh pkg cmd v = Some (w, r)"
  shows "server_inv cfg fresh w"
proof (rule server_inv_derived [OF assms(1) derived_dispatch [OF assms(2)]])
  have "same_core (with_state fresh cmd v) w" using assms(2) by (rule dispatch_core)
  with command_keeps_ok [of "v_state v" fresh "v_next v" cmd] assms(1)
  show "state_ok (v_state w)" "supply_ok fresh (v_next w) (s_groups (v_state w))"
    by (simp_all add: same_core_def server_inv_def)
qed

lemma inv_opened:
  assumes inv: "server_inv cfg fresh v" and u: "unused v sid"
    and w: "open_session cfg sid hid p v = Some w"
  shows "server_inv cfg fresh w"
proof -
  obtain h where h: "admit (k_client_filter cfg) (k_auth cfg) p = Admitted h"
    using w by (auto simp: open_session_def split: admission.splits)
  from h w have w': "v_state w = v_state v" "v_next w = v_next v"
    "v_routing_senders w = v_routing_senders v"
    "v_settings_senders w = (v_settings_senders v)(h_id h \<mapsto> sid)"
    "v_custom_senders w = (v_custom_senders v)(h_id h \<mapsto> sid)"
    and s: "\<exists>se. v_sessions w = (v_sessions v)(sid \<mapsto> se) \<and> se_hello se = h"
    by (auto simp: open_session_def new_session_def)
  have "senders_ok w"
    unfolding senders_ok_def
  proof (intro allI impI)
    fix c i se
    assume "v_sessions w i = Some se" "v_routing_senders w c = Some i \<or>
      v_settings_senders w c = Some i \<or> v_custom_senders w c = Some i"
    then show "se_client se = c"
      using w' s inv u
      by (auto simp: server_inv_def senders_ok_def unused_def ran_def se_client_def split: if_splits)
  qed
  moreover have "hello_allowed cfg (se_hello se)" if "v_sessions w i = Some se" for i se
    using that s inv admit_allowed [OF h] by (auto simp: server_inv_def split: if_splits)
  ultimately show ?thesis using inv w'(1,2) by (simp add: server_inv_def)
qed

lemma register_state_cases:
  assumes "register_state cfg fresh sid v = Some w"
  obtains se c s n g initial where "v_sessions v sid = Some se" "se_phase se = Channels"
    "group_for_client fresh (v_next v) (se_client se) (k_default_stream cfg)
       (update_client (se_client se) connect_client
          (get_or_create_client (se_client se) (h_host_name (se_hello se)) (h_mac (se_hello se))
            (v_state v))) = (s, n, g)"
    "w = v\<lparr>v_state := s, v_next := n, v_sessions := (v_sessions v)(sid \<mapsto>
       se\<lparr>se_phase := Registered, se_settings := client_settings cfg c, se_routing := initial\<rparr>)\<rparr>"
    "build_routing s (se_client se) = Some initial"
proof -
  obtain se where se: "v_sessions v sid = Some se" "se_phase se = Channels"
    using assms by (auto simp: register_state_def split: option.splits if_splits)
  let ?h = "se_hello se"
  let ?s1 = "get_or_create_client (h_id ?h) (h_host_name ?h) (h_mac ?h) (v_state v)"
  obtain c where c: "s_clients ?s1 (h_id ?h) = Some c" using get_or_create_Some by blast
  obtain s n g where g: "group_for_client fresh (v_next v) (h_id ?h) (k_default_stream cfg)
    (update_client (h_id ?h) connect_client ?s1) = (s, n, g)"
    by (metis prod_cases3)
  have "\<exists>x. find (has_client (h_id ?h)) (s_groups s) = Some x"
    using g by (auto simp: group_for_client_def Let_def find_append split: option.splits)
  then obtain r where r: "build_routing s (h_id ?h) = Some r" by (auto simp: build_routing_def)
  have "w = v\<lparr>v_state := s, v_next := n, v_sessions := (v_sessions v)(sid \<mapsto>
       se\<lparr>se_phase := Registered, se_settings := client_settings cfg (connect_client c),
          se_routing := r\<rparr>)\<rparr>"
    using assms se c g r by (simp add: register_state_def Let_def update_client_def)
  with se g r show thesis
    using that [where se = se and c = "connect_client c" and s = s and n = n and g = g and initial = r]
    by (simp add: se_client_def)
qed

lemma inv_registered:
  assumes inv: "server_inv cfg fresh v" and w: "register_state cfg fresh sid v = Some w"
  shows "server_inv cfg fresh w"
proof -
  obtain se c s n g initial where r: "v_sessions v sid = Some se" "se_phase se = Channels"
    "group_for_client fresh (v_next v) (se_client se) (k_default_stream cfg)
       (update_client (se_client se) connect_client
          (get_or_create_client (se_client se) (h_host_name (se_hello se)) (h_mac (se_hello se))
            (v_state v))) = (s, n, g)"
    "w = v\<lparr>v_state := s, v_next := n, v_sessions := (v_sessions v)(sid \<mapsto>
       se\<lparr>se_phase := Registered, se_settings := client_settings cfg c, se_routing := initial\<rparr>)\<rparr>"
    "build_routing s (se_client se) = Some initial"
    using w by (rule register_state_cases)
  have "state_ok (update_client (se_client se) connect_client
      (get_or_create_client (se_client se) (h_host_name (se_hello se)) (h_mac (se_hello se)) (v_state v)))"
    using inv by (intro state_ok_update_client state_ok_get_or_create)
      (simp_all add: server_inv_def connect_client_def)
  moreover have "supply_ok fresh (v_next v) (s_groups (v_state v))"
    using inv by (simp add: server_inv_def)
  ultimately have "state_ok s \<and> supply_ok fresh n (s_groups s)"
    using group_for_client_ok [OF _ _ r(3)] by simp
  moreover have "derived v w" using r by (auto simp: derived_def)
  ultimately show ?thesis using server_inv_derived [OF inv, of w] r(4) by simp
qed

lemma inv_subscribed:
  assumes inv: "server_inv cfg fresh v" and w: "subscribe_routing sid v = Some w"
  shows "server_inv cfg fresh w"
proof -
  obtain se where se: "v_sessions v sid = Some se"
    and w': "w = v\<lparr>v_routing_senders := (v_routing_senders v)(se_client se \<mapsto> sid),
      v_sessions := (v_sessions v)(sid \<mapsto> se\<lparr>se_phase := Subscribed, se_watch := se_routing se,
        se_watch_changed := False\<rparr>)\<rparr>"
    using w by (auto simp: subscribe_routing_def split: option.splits if_splits)
  have "senders_ok w"
    unfolding senders_ok_def
  proof (intro allI impI)
    fix c i x
    assume x: "v_sessions w i = Some x" "v_routing_senders w c = Some i \<or>
      v_settings_senders w c = Some i \<or> v_custom_senders w c = Some i"
    have "senders_ok v" using inv by (simp add: server_inv_def)
    then have old: "se_client y = c" if "v_sessions v i = Some y" "v_routing_senders v c = Some i \<or>
      v_settings_senders v c = Some i \<or> v_custom_senders v c = Some i" for y
      using that unfolding senders_ok_def by blast
    show "se_client x = c"
      using x old [of x] old [of se] se
      by (cases "i = sid"; cases "c = se_client se") (auto simp: w' se_client_def)
  qed
  moreover have "hello_allowed cfg (se_hello x)" if "v_sessions w i = Some x" for i x
    using that inv se w' by (auto simp: server_inv_def split: if_splits)
  ultimately show ?thesis using inv w' by (simp add: server_inv_def)
qed

lemma running_session: "running v sid = Some se \<Longrightarrow> v_sessions v sid = Some se \<and> se_phase se = Running"
  by (auto simp: running_def split: option.splits if_splits)

lemma turn_state [simp]:
  "v_state (next_turn sid v) = v_state v" "v_next (next_turn sid v) = v_next v"
  by (simp_all add: next_turn_def)

lemma write_state [simp]:
  "v_state (write_out sid ms v) = v_state v" "v_next (write_out sid ms v) = v_next v"
  by (simp_all add: write_out_def)

lemma inv_message:
  assumes inv: "server_inv cfg fresh v" and w: "on_message sid m v = Some w"
  shows "server_inv cfg fresh w"
proof (rule server_inv_derived [OF inv])
  show "derived v w"
    using w by (auto simp: on_message_def send_event_Some
        split: option.splits payload.splits message_type.splits)
  have "v_next w = v_next v \<and> (v_state w = v_state v \<or>
      (\<exists>c p q. v_state w = set_client_volume c p q (v_state v)))"
    using w by (auto simp: on_message_def send_event_Some
        split: option.splits payload.splits message_type.splits) blast
  with inv show "state_ok (v_state w)" "supply_ok fresh (v_next w) (s_groups (v_state w))"
    by (auto simp: server_inv_def set_client_volume_update state_ok_update_client)
qed

lemma inv_ended:
  assumes inv: "server_inv cfg fresh v" and w: "end_session sid v = Some w"
  shows "server_inv cfg fresh w"
proof (rule server_inv_derived [OF inv])
  show "derived v w"
    using w by (auto simp: end_session_def Let_def send_event_Some derived_def
        split: option.splits if_splits)
  have "v_next w = v_next v \<and> (\<exists>c. v_state w = disconnect_client c (v_state v))"
    using w by (auto simp: end_session_def Let_def send_event_Some split: option.splits)
  with inv show "state_ok (v_state w)" "supply_ok fresh (v_next w) (s_groups (v_state w))"
    by (auto simp: server_inv_def disconnect_client_update state_ok_update_client)
qed

lemma inv_step:
  assumes "server_inv cfg fresh v" "server_step races cfg fresh pkg v w"
  shows "server_inv cfg fresh w"
  using assms(2)
proof cases
  case (command cmd r)
  then show ?thesis using inv_command assms(1) by blast
next
  case (opened sid hid p)
  then show ?thesis using inv_opened assms(1) by blast
next
  case (registered sid)
  then show ?thesis using inv_registered assms(1) by blast
next
  case (subscribed sid)
  then show ?thesis using inv_subscribed assms(1) by blast
next
  case (incoming sid m)
  then show ?thesis using inv_message assms(1) by blast
next
  case (ended sid)
  then show ?thesis using inv_ended assms(1) by blast
next
  case (greeted sid)
  then have "derived v w \<and> v_state w = v_state v \<and> v_next w = v_next v"
    by (auto simp: greet_client_def send_event_Some split: option.splits if_splits)
  with assms(1) show ?thesis by (auto intro: server_inv_same_state)
next
  case (greet_failed sid)
  then have "derived v w \<and> v_state w = v_state v \<and> v_next w = v_next v"
    by (auto simp: greet_fails_def send_event_Some derived_def split: option.splits if_splits)
  with assms(1) show ?thesis by (auto intro: server_inv_same_state)
next
  case (started sid)
  then have "derived v w \<and> v_state w = v_state v \<and> v_next w = v_next v"
    by (auto simp: start_loop_def split: option.splits if_splits)
  with assms(1) show ?thesis by (auto intro: server_inv_same_state)
next
  case (chunk c sid)
  then have "derived v w \<and> v_state w = v_state v \<and> v_next w = v_next v"
    by (auto simp: on_chunk_def split: option.splits if_splits)
  with assms(1) show ?thesis by (auto intro: server_inv_same_state)
next
  case (lagged sid)
  then have "derived v w \<and> v_state w = v_state v \<and> v_next w = v_next v"
    by (auto simp: on_lagged_def split: option.splits)
  with assms(1) show ?thesis by (auto intro: server_inv_same_state)
next
  case (drained sid)
  then have "derived v w \<and> v_state w = v_state v \<and> v_next w = v_next v"
    by (auto simp: drain_custom_def split: option.splits if_splits)
  with assms(1) show ?thesis by (auto intro: server_inv_same_state)
next
  case (routing sid)
  then have "derived v w \<and> v_state w = v_state v \<and> v_next w = v_next v"
    by (auto simp: on_routing_def Let_def split: option.splits if_splits)
  with assms(1) show ?thesis by (auto intro: server_inv_same_state)
next
  case (settings sid)
  then have "derived v w \<and> v_state w = v_state v \<and> v_next w = v_next v"
    by (auto simp: on_settings_def split: option.splits if_splits list.splits)
  with assms(1) show ?thesis by (auto intro: server_inv_same_state)
next
  case (event_taken e es)
  with assms(1) show ?thesis by (auto intro: server_inv_same_state)
qed

interpretation server_safe: invariant_system "server_init fresh" "server_step races cfg fresh pkg"
  "server_inv cfg fresh" for fresh races cfg pkg
proof unfold_locales
  show "server_inv cfg fresh v" if "server_init fresh v" for v
    using that by (simp add: server_init_def server_inv_def senders_ok_def)
  show "server_inv cfg fresh w" if "server_inv cfg fresh v" "server_step races cfg fresh pkg v w" for v w
    using that by (rule inv_step)
qed

end
