(* ===== verification/CodecOrder.thy ===== *)
theory CodecOrder
  imports ServerSteps
begin

text \<open>
  The order of codec headers and audio on a connection: a client can only decode a chunk of a
  stream after it has seen that stream's codec header.  The session loop keeps this order from
  the moment it starts, provided the stream is not switched between the greeting and that moment.
\<close>

fun codec_order :: "string option \<Rightarrow> out_msg list \<Rightarrow> bool" where
  "codec_order cur [] \<longleftrightarrow> True"
| "codec_order cur (OutCodec st _ # ms) \<longleftrightarrow> codec_order (Some st) ms"
| "codec_order cur (OutChunk st _ # ms) \<longleftrightarrow> cur = Some st \<and> codec_order cur ms"
| "codec_order cur (OutSettings _ _ # ms) \<longleftrightarrow> codec_order cur ms"
| "codec_order cur (OutTime _ _ # ms) \<longleftrightarrow> codec_order cur ms"
| "codec_order cur (OutCustom _ _ # ms) \<longleftrightarrow> codec_order cur ms"

fun last_codec :: "string option \<Rightarrow> out_msg list \<Rightarrow> string option" where
  "last_codec cur [] = cur"
| "last_codec cur (OutCodec st _ # ms) = last_codec (Some st) ms"
| "last_codec cur (OutChunk _ _ # ms) = last_codec cur ms"
| "last_codec cur (OutSettings _ _ # ms) = last_codec cur ms"
| "last_codec cur (OutTime _ _ # ms) = last_codec cur ms"
| "last_codec cur (OutCustom _ _ # ms) = last_codec cur ms"

lemma last_codec_append [simp]: "last_codec cur (xs @ ys) = last_codec (last_codec cur xs) ys"
  by (induction cur xs rule: last_codec.induct) auto

lemma codec_order_append [simp]:
  "codec_order cur (xs @ ys) \<longleftrightarrow> codec_order cur xs \<and> codec_order (last_codec cur xs) ys"
  by (induction cur xs rule: codec_order.induct) auto

lemma custom_order [simp]:
  "codec_order cur (custom_messages ms)" "last_codec cur (custom_messages ms) = cur"
  by (induction ms) (auto simp: custom_messages_def)

definition session_order :: "(string \<rightharpoonup> stream_codec_info) \<Rightarrow> session \<Rightarrow> bool" where
  "session_order headers se \<longleftrightarrow>
     codec_order None (se_out se) \<and>
     (if se_phase se \<in> {Greeted, Draining, Running}
      then headers (ro_stream_id (se_routing se)) \<noteq> None \<longrightarrow>
        last_codec None (se_out se) = Some (ro_stream_id (se_routing se))
      else se_out se = [])"

definition order_inv :: "server \<Rightarrow> bool" where
  "order_inv v \<longleftrightarrow> (\<forall>sid se. v_sessions v sid = Some se \<longrightarrow> session_order (v_codec_headers v) se)"

lemma order_invD: "order_inv v \<Longrightarrow> v_sessions v sid = Some se \<Longrightarrow> session_order (v_codec_headers v) se"
  by (simp add: order_inv_def)

lemma order_update:
  "order_inv v \<Longrightarrow> (\<And>se. v_sessions v sid = Some se \<Longrightarrow> session_order (v_codec_headers v) (f se)) \<Longrightarrow>
   order_inv (update_session sid f v)"
  by (auto simp: order_inv_def update_session_at split: if_splits)

lemma order_session_set:
  "order_inv v \<Longrightarrow> v_sessions w = (v_sessions v)(sid \<mapsto> se) \<Longrightarrow>
   v_codec_headers w = v_codec_headers v \<Longrightarrow> session_order (v_codec_headers v) se \<Longrightarrow> order_inv w"
  by (simp add: order_inv_def)

text \<open>Updates of a session that its order does not depend on.\<close>

lemma order_update_same:
  "order_inv v \<Longrightarrow> (\<And>se. se_out (f se) = se_out se) \<Longrightarrow> (\<And>se. se_phase (f se) = se_phase se) \<Longrightarrow>
   (\<And>se. se_routing (f se) = se_routing se) \<Longrightarrow> order_inv (update_session sid f v)"
  by (rule order_update) (auto simp: session_order_def dest: order_invD)

lemma order_same [simp]:
  "order_inv (try_event e v) = order_inv v"
  "order_inv (with_state fresh cmd v) = order_inv v"
  "order_inv (with_snapshot fresh cmd v) = order_inv v"
  "order_inv (v\<lparr>v_events := es\<rparr>) = order_inv v"
  "order_inv (v\<lparr>v_state := s\<rparr>) = order_inv v"
  by (simp_all add: order_inv_def)

lemma order_push [simp]: "order_inv v \<Longrightarrow> order_inv (push_routing c v)"
  by (auto simp: push_routing_def send_watch_def intro: order_update_same split: option.split)

lemma order_push_clients [simp]: "order_inv v \<Longrightarrow> order_inv (push_routing_clients cs v)"
  unfolding push_routing_clients_def by (induction cs arbitrary: v) simp_all

lemma order_push_group [simp]: "order_inv v \<Longrightarrow> order_inv (push_routing_for_group gid v)"
  by (simp add: push_routing_for_group_def split: option.split)

lemma order_push_all [simp]: "order_inv v \<Longrightarrow> order_inv (push_routing_all v)"
proof -
  have "order_inv v \<Longrightarrow> order_inv (fold (\<lambda>g. push_routing_clients (g_clients g)) gs v)" for gs
    by (induction gs arbitrary: v) simp_all
  then show "order_inv v \<Longrightarrow> order_inv (push_routing_all v)" by (simp add: push_routing_all_def)
qed

lemma order_push_settings: "push_settings x v = Some w \<Longrightarrow> order_inv v \<Longrightarrow> order_inv w"
  by (auto simp: push_settings_def intro: order_update_same split: option.splits if_splits)

lemma order_send_custom: "send_custom c t p v = Some w \<Longrightarrow> order_inv v \<Longrightarrow> order_inv w"
  by (auto simp: send_custom_def intro: order_update_same split: option.splits if_splits)

lemma order_push_snapshot:
  "push_settings x (with_snapshot fresh cmd v) = Some w \<Longrightarrow> order_inv v \<Longrightarrow> order_inv w"
  by (erule order_push_settings) simp

lemma order_dispatch: "order_inv v \<Longrightarrow> dispatch cfg fresh pkg cmd v = Some (w, r) \<Longrightarrow> order_inv w"
  by (cases cmd)
    (auto simp: dispatch_def Let_def dest!: order_push_snapshot order_send_custom
      split: option.splits)

text \<open>A session in its loop: what an arm of \<open>select!\<close> writes and does to the routing.\<close>

lemma order_turn [simp]:
  assumes "order_inv v" "\<And>se. v_sessions v sid = Some se \<Longrightarrow> se_phase se = Running"
  shows "order_inv (next_turn sid v)"
  unfolding next_turn_def using assms
  by (intro order_update) (auto simp: session_order_def dest!: order_invD)

lemma order_write:
  assumes "order_inv v" "running v sid = Some se"
    and "\<And>cur. codec_order cur ms" "\<And>cur. last_codec cur ms = cur"
  shows "order_inv (write_out sid ms v)"
  unfolding write_out_def using assms running_session [OF assms(2)]
  by (intro order_update) (auto simp: session_order_def dest!: order_invD)

lemma write_phase:
  "running v sid = Some se \<Longrightarrow> v_sessions (write_out sid ms v) sid = Some se' \<Longrightarrow> se_phase se' = Running"
  by (drule running_session) (auto simp: write_out_def update_session_at)

lemma order_drain:
  assumes "order_inv v" "drain_custom sid v = Some w"
  shows "order_inv w"
  using assms order_invD [OF assms(1), of sid]
  by (auto simp: drain_custom_def session_order_def intro!: order_update split: option.splits if_splits)

lemma order_chunk:
  assumes "order_inv v" "v_codec_headers v (wd_stream_id c) \<noteq> None" "on_chunk cfg sid c v = Some w"
  shows "order_inv w"
proof -
  obtain se where r: "running v sid = Some se"
    using assms(3) by (auto simp: on_chunk_def split: option.splits)
  note se = running_session [OF r]
  show ?thesis
  proof (cases "should_send_chunk c (se_routing se) (k_send_audio_to_muted cfg)")
    case False
    with assms(1,3) r se show ?thesis by (simp add: on_chunk_def) (metis order_turn option.inject)
  next
    case True
    then have "wd_stream_id c = ro_stream_id (se_routing se)"
      by (simp add: should_send_chunk_def split: if_splits)
    with se assms(1,2) order_invD [OF assms(1), of sid se] have "order_inv (write_out sid [chunk_message c] v)"
      unfolding write_out_def
      by (intro order_update) (auto simp: session_order_def chunk_message_def)
    with True assms(3) r write_phase [OF r] show ?thesis by (auto simp: on_chunk_def)
  qed
qed

lemma order_routing:
  assumes "order_inv v" "on_routing sid v = Some w"
  shows "order_inv w"
proof -
  obtain se where r: "running v sid = Some se"
    using assms(2) by (auto simp: on_routing_def split: option.splits)
  note se = running_session [OF r]
  with r assms order_invD [OF assms(1), of sid se] show ?thesis
    by (auto simp: on_routing_def Let_def session_order_def codec_frames_def update_session_at
        intro!: order_turn order_update split: if_splits option.splits)
qed

lemma order_message:
  assumes "order_inv v" "on_message sid m v = Some w"
  shows "order_inv w"
proof -
  obtain se where r: "running v sid = Some se"
    using assms(2) by (auto simp: on_message_def split: option.splits)
  note se = running_session [OF r]
  have "order_inv (write_out sid [OutTime l i] v)" for l i
    by (rule order_write [OF assms(1) r]) simp_all
  with assms r se write_phase [OF r] show ?thesis
    by (auto simp: on_message_def send_event_Some intro!: order_turn split: payload.splits message_type.splits)
qed

lemma order_settings:
  assumes "order_inv v" "on_settings sid v = Some w"
  shows "order_inv w"
proof -
  obtain se where r: "running v sid = Some se"
    using assms(2) by (auto simp: on_settings_def split: option.splits)
  note se = running_session [OF r]
  show ?thesis
  proof (cases "se_settings_rx se")
    case Nil
    with assms r se show ?thesis
      by (simp add: on_settings_def split: if_splits) (metis order_turn option.inject)
  next
    case (Cons u us)
    let ?v = "update_session sid (\<lambda>se. se\<lparr>se_settings_rx := us\<rparr>) v"
    have "order_inv ?v" using assms(1) by (auto intro: order_update_same)
    moreover have r': "running ?v sid = Some (se\<lparr>se_settings_rx := us\<rparr>)"
      using se by (simp add: running_def update_session_at)
    ultimately have "order_inv (write_out sid [OutSettings (settings_of_update u) 0] ?v)"
      by (rule order_write) simp_all
    with assms(2) r Cons write_phase [OF r'] show ?thesis by (auto simp: on_settings_def)
  qed
qed

lemma order_step:
  assumes "order_inv v" "server_step False cfg fresh pkg v w"
  shows "order_inv w"
  using assms(2)
proof cases
  case (command cmd r)
  then show ?thesis using order_dispatch assms(1) by blast
next
  case (opened sid hid p)
  then obtain h where w: "v_sessions w = (v_sessions v)(sid \<mapsto> new_session h hid)"
    "v_codec_headers w = v_codec_headers v"
    by (auto simp: open_session_def split: admission.splits)
  then show ?thesis
    by (rule order_session_set [OF assms(1)]) (simp add: session_order_def new_session_def)
next
  case (registered sid)
  then obtain se s n c r where "v_sessions v sid = Some se" "se_phase se = Channels"
    "w = v\<lparr>v_state := s, v_next := n, v_sessions := (v_sessions v)(sid \<mapsto>
       se\<lparr>se_phase := Registered, se_settings := client_settings cfg c, se_routing := r\<rparr>)\<rparr>"
    by (elim register_state_cases) blast
  then show ?thesis
    using order_invD [OF assms(1), of sid se] assms(1)
    by (intro order_session_set [OF assms(1), of w sid "se\<lparr>se_phase := Registered,
         se_settings := client_settings cfg c, se_routing := r\<rparr>"])
      (simp_all add: session_order_def)
next
  case (subscribed sid)
  then obtain se where "v_sessions v sid = Some se" "se_phase se = Registered"
    "w = v\<lparr>v_routing_senders := (v_routing_senders v)(se_client se \<mapsto> sid),
      v_sessions := (v_sessions v)(sid \<mapsto> se\<lparr>se_phase := Subscribed, se_watch := se_routing se,
        se_watch_changed := False\<rparr>)\<rparr>"
    by (auto simp: subscribe_routing_def split: option.splits if_splits)
  then show ?thesis
    using order_invD [OF assms(1), of sid se] assms(1)
    by (intro order_session_set [OF assms(1), of w sid "se\<lparr>se_phase := Subscribed,
         se_watch := se_routing se, se_watch_changed := False\<rparr>"])
      (simp_all add: session_order_def)
next
  case (greeted sid)
  with order_invD [OF assms(1)] assms(1) show ?thesis
    by (auto simp: greet_client_def send_event_Some session_order_def codec_frames_def
        intro!: order_update split: option.splits if_splits)
next
  case (greet_failed sid)
  with assms(1) show ?thesis
    by (auto simp: greet_fails_def send_event_Some order_inv_def split: option.splits if_splits)
next
  case (started sid)
  with order_invD [OF assms(1)] assms(1) show ?thesis
    by (auto simp: start_loop_def clean_start_def session_order_def
        intro!: order_update split: option.splits if_splits)
next
  case (chunk c sid)
  then show ?thesis using order_chunk assms(1) by blast
next
  case (lagged sid)
  with assms(1) show ?thesis
    by (auto simp: on_lagged_def dest!: running_session split: option.splits intro!: order_turn)
next
  case (drained sid)
  then show ?thesis using order_drain assms(1) by blast
next
  case (routing sid)
  then show ?thesis using order_routing assms(1) by blast
next
  case (incoming sid m)
  then show ?thesis using order_message assms(1) by blast
next
  case (settings sid)
  then show ?thesis using order_settings assms(1) by blast
next
  case (ended sid)
  with assms(1) show ?thesis
    by (auto simp: end_session_def Let_def send_event_Some order_inv_def split: option.splits if_splits)
next
  case (event_taken e es)
  with assms(1) show ?thesis by simp
qed

interpretation server_order: invariant_system "server_init fresh" "server_step False cfg fresh pkg"
  order_inv for fresh cfg pkg
proof unfold_locales
  show "order_inv v" if "server_init fresh v" for v
    using that by (simp add: server_init_def order_inv_def)
  show "order_inv w" if "order_inv v" "server_step False cfg fresh pkg v w" for v w
    using that by (rule order_step)
qed

end
