(* ===== verification/ServerProps.thy ===== *)
theory ServerProps
  imports CodecOrder
begin

text \<open>
  Properties of the server: what commands and sessions guarantee, and the behaviours of the code
  that its comments do not promise.  The concrete server at the start is the input of the
  witnesses.
\<close>

subsection \<open>A concrete server\<close>

definition demo_client :: "string \<Rightarrow> client" where
  "demo_client cid = \<lparr>c_id = cid, c_host_name = ''host'', c_mac = ''00:11'', c_connected = True,
     c_config = client_config_default\<rparr>"

definition demo_group :: "string \<Rightarrow> string \<Rightarrow> string list \<Rightarrow> group" where
  "demo_group gid st cs = \<lparr>g_id = gid, g_name = [], g_stream_id = st, g_muted = False, g_clients = cs\<rparr>"

definition demo_state :: server_state where
  "demo_state = \<lparr>s_clients = [''a'' \<mapsto> demo_client ''a'', ''b'' \<mapsto> demo_client ''b'',
       ''c'' \<mapsto> demo_client ''c''],
     s_groups = [demo_group ''g1'' ''s1'' [''a'', ''b''], demo_group ''g2'' ''s2'' [''c'']],
     s_streams = [\<lparr>si_id = ''s1'', si_status = ''playing'', si_uri = ''pipe:///tmp/s1'',
       si_properties = (\<lambda>_. None)\<rparr>]\<rparr>"

text \<open>An id supply: lists of marks of growing length.\<close>

definition demo_ids :: "nat \<Rightarrow> string" where
  "demo_ids k = replicate (k + 4) CHR ''#''"

lemma demo_ids_inj: "inj demo_ids"
  by (rule injI) (metis add_right_cancel demo_ids_def length_replicate)

lemma length_demo_ids [simp]: "length (demo_ids k) = k + 4"
  by (simp add: demo_ids_def)

lemma demo_ids_new [simp]: "demo_ids k \<noteq> ''g1''" "demo_ids k \<noteq> ''g2''"
  by (auto dest!: arg_cong [where f = length])

lemma demo_state_ok: "state_ok demo_state" "supply_ok demo_ids 0 (s_groups demo_state)"
  by (auto simp: state_ok_def groups_ok_def groups_nonempty_def clients_ok_def demo_state_def
      demo_group_def demo_client_def has_client_def supply_ok_def demo_ids_inj)

subsection \<open>Groups\<close>

text \<open>C7: Every command keeps the shared state well formed: group ids are distinct, no client is in
  two groups, no group is empty, every client is stored under its own id; and the ids that
  commands take from the supply never collide with one in use.\<close>

theorem commands_keep_state_ok:
  assumes "state_ok s" "supply_ok fresh n (s_groups s)"
    and "command_state fresh cmd (s, n) = (s', n')"
  shows "state_ok s' \<and> supply_ok fresh n' (s_groups s')"
  using command_keeps_ok [OF assms(1,2), of cmd] assms(3) by simp

lemma commands_keep_state_ok_witness:
  "state_ok (fst (set_group_clients demo_ids 0 ''g1'' [''c'', ''b''] demo_state)) \<and>
   supply_ok demo_ids (snd (set_group_clients demo_ids 0 ''g1'' [''c'', ''b''] demo_state))
     (s_groups (fst (set_group_clients demo_ids 0 ''g1'' [''c'', ''b''] demo_state)))"
  by (rule commands_keep_state_ok [OF demo_state_ok, of "SetGroupClients ''g1'' [''c'', ''b'']"])
    (simp add: command_state_def)

text \<open>C6: \<open>set_group_clients\<close> on a group that exists moves exactly the listed clients into it; a
  member that is not listed gets a new group of its own, every other client stays where it was,
  and nobody but the listed clients changes the stream it plays.\<close>

theorem set_group_clients_spec:
  assumes "state_ok s" "supply_ok fresh n (s_groups s)" "g \<in> set (s_groups s)"
    and "s' = fst (set_group_clients fresh n (g_id g) cids s)"
  shows "stream_of (s_groups s') c =
      (if c \<in> set cids then Some (g_stream_id g) else stream_of (s_groups s) c) \<and>
    (if c \<in> set cids then group_of (s_groups s') c = Some (g_id g)
     else if group_of (s_groups s) c = Some (g_id g) then
       (\<exists>i. i \<notin> g_id ` set (s_groups s) \<and> (\<forall>d. group_of (s_groups s') d = Some i \<longleftrightarrow> d = c))
     else group_of (s_groups s') c = group_of (s_groups s) c)"
proof -
  have ok: "groups_ok (s_groups s)" using assms(1) by (simp add: state_ok_def)
  note group_of_set_group_clients [OF ok assms(2,3), of c cids]
    stream_of_set_group_clients [OF ok assms(2,3), of cids c]
  then show ?thesis unfolding assms(4) by auto
qed

lemma set_group_clients_spec_witness:
  "stream_of (s_groups (fst (set_group_clients demo_ids 0 ''g1'' [''c'', ''b''] demo_state))) ''c'' = Some ''s1'' \<and>
   stream_of (s_groups (fst (set_group_clients demo_ids 0 ''g1'' [''c'', ''b''] demo_state))) ''a'' = Some ''s1''"
proof -
  have g: "demo_group ''g1'' ''s1'' [''a'', ''b''] \<in> set (s_groups demo_state)"
    by (simp add: demo_state_def)
  have "stream_of (s_groups demo_state) ''a'' = Some ''s1''"
    by (simp add: stream_of_def demo_state_def demo_group_def has_client_def)
  then show ?thesis
    using set_group_clients_spec [OF demo_state_ok g refl, of "[''c'', ''b'']" "''c''"]
      set_group_clients_spec [OF demo_state_ok g refl, of "[''c'', ''b'']" "''a''"]
    by (simp add: demo_group_def)
qed

text \<open>With an id that no group has, \<open>set_group_clients\<close> takes the listed clients out of their
  groups and puts them nowhere.\<close>

lemma set_group_clients_unknown_group:
  assumes "groups_ok (s_groups s)" "gid \<notin> g_id ` set (s_groups s)" "c \<in> set cids"
  shows "group_of (s_groups (fst (set_group_clients fresh n gid cids s))) c = None"
proof -
  have add: "\<not> member_of (add_client gid d gs) c i"
    if "groups_ok gs" "gid \<notin> g_id ` set gs" "d = c \<or> (\<forall>i. \<not> member_of gs c i)" for d gs i
    using that member_of_id [of gs d gid]
    by (auto simp: add_client_map member_of_def has_client_add_to split: if_splits)
  have "\<not> member_of (add_clients gid cids gs) c i"
    if "groups_ok gs" "gid \<notin> g_id ` set gs" "c \<in> set cids \<or> (\<forall>i. \<not> member_of gs c i)" for gs i
    using that
  proof (induction cids arbitrary: gs)
    case Nil
    then show ?case by simp
  next
    case (Cons d ds)
    have "g_id ` set (add_client gid d gs) = g_id ` set gs"
      using ids_add_client [of gid d gs] by (metis list.set_map)
    with Cons add [of gs d] show ?case by (auto simp: groups_ok_add_client)
  qed
  with assms show ?thesis
    by (simp add: group_of_None set_group_clients_groups evict_clients_unknown)
qed

lemma set_group_clients_unknown_group_witness:
  "group_of (s_groups (fst (set_group_clients demo_ids 0 ''nope'' [''c''] demo_state))) ''c'' = None"
  by (rule set_group_clients_unknown_group)
    (use demo_state_ok in \<open>simp_all add: state_ok_def demo_state_def demo_group_def\<close>)

subsection \<open>Commands and sessions\<close>

definition demo_hello :: "string \<Rightarrow> hello" where
  "demo_hello cid = \<lparr>h_mac = ''00:11'', h_host_name = ''host'', h_version = ''1'',
     h_client_name = ''Snapclient'', h_os = ''Linux'', h_arch = ''arm'', h_instance = 1, h_id = cid,
     h_protocol_version = 2, h_auth = None\<rparr>"

definition demo_config :: config where
  "demo_config = \<lparr>k_buffer_ms = 1000, k_auth = None, k_client_filter = None,
     k_send_audio_to_muted = False, k_default_stream = ''s1''\<rparr>"

definition demo_routing :: "string \<Rightarrow> session_routing" where
  "demo_routing st = \<lparr>ro_stream_id = st, ro_client_muted = False, ro_group_muted = False\<rparr>"

definition demo_session :: "string \<Rightarrow> string \<Rightarrow> session" where
  "demo_session cid st = (new_session (demo_hello cid) 1)\<lparr>se_phase := Running,
     se_routing := demo_routing st, se_watch := demo_routing st\<rparr>"

definition demo_headers :: "string \<rightharpoonup> stream_codec_info" where
  "demo_headers = [''s1'' \<mapsto> \<lparr>ci_codec = ''flac'', ci_header = [1]\<rparr>,
     ''s2'' \<mapsto> \<lparr>ci_codec = ''pcm'', ci_header = [2]\<rparr>]"

text \<open>Two clients are connected: ''a'' on session 0 and ''c'' on session 1.\<close>

definition demo_server :: server where
  "demo_server = \<lparr>v_state = demo_state, v_next = 0,
     v_settings_senders = [''a'' \<mapsto> 0, ''c'' \<mapsto> 1], v_custom_senders = [''a'' \<mapsto> 0, ''c'' \<mapsto> 1],
     v_routing_senders = [''a'' \<mapsto> 0, ''c'' \<mapsto> 1], v_codec_headers = demo_headers,
     v_sessions = [0 \<mapsto> demo_session ''a'' ''s1'', 1 \<mapsto> demo_session ''c'' ''s2''],
     v_events = []\<rparr>"

text \<open>The same state with nobody connected.\<close>

definition idle_server :: server where
  "idle_server = demo_server\<lparr>v_settings_senders := (\<lambda>_. None), v_custom_senders := (\<lambda>_. None),
     v_routing_senders := (\<lambda>_. None), v_sessions := (\<lambda>_. None)\<rparr>"

lemma idle_server_init: "server_init demo_ids idle_server"
  using demo_state_ok by (simp add: server_init_def idle_server_def demo_server_def)

text \<open>The commands that change what an embedder would persist, except stream metadata.\<close>

fun announces :: "server_command \<Rightarrow> bool" where
  "announces (SetStreamMeta _ _) = False"
| "announces (AddStream _) = False"
| "announces (StreamControl _ _ _) = False"
| "announces GetStatus = False"
| "announces (SendToClient _ _ _) = False"
| "announces _ = True"

lemma push_events [simp]: "v_events (push_routing c v) = v_events v"
  by (simp add: push_routing_def send_watch_def split: option.split)

lemma push_clients_events [simp]: "v_events (push_routing_clients cs v) = v_events v"
  unfolding push_routing_clients_def by (induction cs arbitrary: v) simp_all

lemma push_group_events [simp]: "v_events (push_routing_for_group gid v) = v_events v"
  by (simp add: push_routing_for_group_def split: option.split)

lemma push_all_events [simp]: "v_events (push_routing_all v) = v_events v"
proof -
  have "v_events (fold (\<lambda>g. push_routing_clients (g_clients g)) gs v) = v_events v" for gs
    by (induction gs arbitrary: v) simp_all
  then show ?thesis by (simp add: push_routing_all_def)
qed

lemma push_settings_events: "push_settings u v = Some w \<Longrightarrow> v_events w = v_events v"
  by (auto simp: push_settings_def split: option.splits if_splits)

lemma try_event_room:
  "length (v_events v) < EVENT_CHANNEL_SIZE \<Longrightarrow> v_events (try_event e v) = v_events v @ [e]"
  by (simp add: try_event_def)

lemma snapshot_room:
  "length (v_events v) < EVENT_CHANNEL_SIZE \<Longrightarrow>
   v_events (with_snapshot fresh cmd v) =
     v_events v @ [StateChanged (fst (command_state fresh cmd (v_state v, v_next v)))]"
  by (simp add: with_snapshot_def Let_def try_event_room)

text \<open>The channel of a session from which the dispatcher waits.\<close>

definition waits_for_settings :: "server \<Rightarrow> string \<Rightarrow> bool" where
  "waits_for_settings v cid \<longleftrightarrow> (\<exists>sid se. v_settings_senders v cid = Some sid \<and>
     v_sessions v sid = Some se \<and> SETTINGS_CHANNEL_SIZE \<le> length (se_settings_rx se))"

definition waits_for_custom :: "server \<Rightarrow> string \<Rightarrow> bool" where
  "waits_for_custom v cid \<longleftrightarrow> (\<exists>sid se. v_custom_senders v cid = Some sid \<and>
     v_sessions v sid = Some se \<and> CUSTOM_CHANNEL_SIZE \<le> length (se_custom_rx se))"

lemma push_settings_None:
  "push_settings u v = None \<longleftrightarrow> waits_for_settings v (up_client_id u)"
  by (auto simp: push_settings_def waits_for_settings_def not_less split: option.splits)

lemma send_custom_None: "send_custom cid t p v = None \<longleftrightarrow> waits_for_custom v cid"
  by (auto simp: send_custom_def waits_for_custom_def not_less split: option.splits)

lemma waits_snapshot [simp]:
  "waits_for_settings (with_snapshot fresh cmd v) cid = waits_for_settings v cid"
  by (simp add: waits_for_settings_def)

text \<open>C32: The dispatcher waits, and with it every later command, exactly when the command has
  something for one session whose channel is full: 16 settings updates or 64 custom messages that
  the session has not taken.\<close>

theorem dispatch_waits:
  "dispatch cfg fresh pkg cmd v = None \<longleftrightarrow>
     (case cmd of
        SetClientVolume cid _ _ \<Rightarrow> waits_for_settings v cid
      | SetClientLatency cid _ \<Rightarrow> s_clients (v_state v) cid \<noteq> None \<and> waits_for_settings v cid
      | SendToClient cid _ _ \<Rightarrow> waits_for_custom v cid
      | _ \<Rightarrow> False)"
  by (cases cmd)
    (auto simp: dispatch_def Let_def push_settings_None send_custom_None command_state_simps
      update_client_def split: option.splits)

subsection \<open>Reachable states\<close>

text \<open>C15: In every state the server can reach, whatever the order of commands and sessions and
  including all races between them, the shared state is well formed and every session belongs to a
  client that the filter accepted and whose credentials grant streaming.\<close>

theorem reachable_safe:
  assumes "reach (server_init fresh) (server_step races cfg fresh pkg) v"
  shows "state_ok (v_state v) \<and>
    (\<forall>sid se. v_sessions v sid = Some se \<longrightarrow> hello_allowed cfg (se_hello se))"
  using server_safe.reach_inv [OF assms] by (simp add: server_inv_def)

text \<open>C4: On every connection, each audio chunk of a stream comes after the codec header of that
  stream with no other codec header between, as long as no session starts its loop after its
  stream was switched behind its greeting.\<close>

theorem codec_header_before_audio:
  assumes "reach (server_init fresh) (server_step False cfg fresh pkg) v"
    and "v_sessions v sid = Some se"
  shows "codec_order None (se_out se)"
  using order_invD [OF server_order.reach_inv [OF assms(1)] assms(2)] by (simp add: session_order_def)

text \<open>A client connects: Hello, registration, subscription, greeting.\<close>

definition demo_greeted :: "server option" where
  "demo_greeted =
     Option.bind (open_session demo_config 0 1 (PHello (demo_hello ''a'')) idle_server) (\<lambda>v1.
     Option.bind (register_state demo_config demo_ids 0 v1) (\<lambda>v2.
     Option.bind (subscribe_routing 0 v2) (\<lambda>v3. greet_client 0 v3)))"

definition demo_chunk :: "string \<Rightarrow> wire_chunk_data" where
  "demo_chunk st = \<lparr>wd_stream_id = st, wd_timestamp_usec = 20000, wd_data = [9, 9]\<rparr>"

text \<open>The loop starts at once and a chunk of the client's stream arrives.\<close>

definition demo_played :: "server option" where
  "demo_played = Option.bind demo_greeted (\<lambda>v.
     Option.bind (start_loop 0 v) (\<lambda>v. Option.bind (drain_custom 0 v)
       (\<lambda>v. on_chunk demo_config 0 (demo_chunk ''s1'') v)))"

text \<open>The group's stream is switched before the loop starts, and a chunk of the new stream arrives.\<close>

definition demo_switched :: "server option" where
  "demo_switched = Option.bind demo_greeted (\<lambda>v.
     Option.bind (dispatch demo_config demo_ids ''0.1'' (SetGroupStream ''g1'' ''s2'') v) (\<lambda>vr.
     Option.bind (start_loop 0 (fst vr)) (\<lambda>v. Option.bind (drain_custom 0 v)
       (\<lambda>v. on_chunk demo_config 0 (demo_chunk ''s2'') v))))"

lemma idle_unused: "unused idle_server 0"
  by (simp add: unused_def idle_server_def)

lemma demo_greeted_reach:
  "demo_greeted = Some v \<Longrightarrow>
   reach (server_init demo_ids) (server_step races demo_config demo_ids ''0.1'') v"
proof -
  assume "demo_greeted = Some v"
  then obtain v1 v2 v3 where
    steps: "open_session demo_config 0 1 (PHello (demo_hello ''a'')) idle_server = Some v1"
      "register_state demo_config demo_ids 0 v1 = Some v2" "subscribe_routing 0 v2 = Some v3"
      "greet_client 0 v3 = Some v"
    unfolding demo_greeted_def bind_eq_Some_conv by blast
  let ?reach = "reach (server_init demo_ids) (server_step races demo_config demo_ids ''0.1'')"
  have "?reach idle_server" by (rule reach_init) (rule idle_server_init)
  then have "?reach v1" by (rule reach_step) (rule server_step.opened [OF idle_unused steps(1)])
  then have "?reach v2" by (rule reach_step) (rule server_step.registered [OF steps(2)])
  then have "?reach v3" by (rule reach_step) (rule server_step.subscribed [OF steps(3)])
  then show "?reach v" by (rule reach_step) (rule server_step.greeted [OF steps(4)])
qed

lemma demo_headers_known: "demo_headers ''s1'' \<noteq> None" "demo_headers ''s2'' \<noteq> None"
  by (simp_all add: demo_headers_def)

lemma demo_played_out:
  "map_option (\<lambda>v. map_option se_out (v_sessions v 0)) demo_played =
   Some (Some [OutSettings \<lparr>ss_buffer_ms = 1000, ss_latency = 0, ss_volume = 100, ss_muted = False\<rparr> 1,
     OutCodec ''s1'' \<lparr>ci_codec = ''flac'', ci_header = [1]\<rparr>,
     chunk_message (demo_chunk ''s1'')])"
  by code_simp

lemma demo_switched_out:
  "map_option (\<lambda>v. map_option se_out (v_sessions v 0)) demo_switched =
   Some (Some [OutSettings \<lparr>ss_buffer_ms = 1000, ss_latency = 0, ss_volume = 100, ss_muted = False\<rparr> 1,
     OutCodec ''s1'' \<lparr>ci_codec = ''flac'', ci_header = [1]\<rparr>,
     chunk_message (demo_chunk ''s2'')])"
  by code_simp

lemma demo_greeted_clean: "map_option (\<lambda>v. clean_start v 0) demo_greeted = Some True"
  by code_simp

lemma greet_headers: "greet_client sid v = Some w \<Longrightarrow> v_codec_headers w = v_codec_headers v"
  by (auto simp: greet_client_def send_event_Some split: option.splits if_splits)

lemma start_headers: "start_loop sid v = Some w \<Longrightarrow> v_codec_headers w = v_codec_headers v"
  by (auto simp: start_loop_def split: option.splits if_splits)

lemma drain_headers: "drain_custom sid v = Some w \<Longrightarrow> v_codec_headers w = v_codec_headers v"
  by (auto simp: drain_custom_def split: option.splits if_splits)

lemma dispatch_headers: "dispatch cfg fresh pkg cmd v = Some (w, r) \<Longrightarrow> v_codec_headers w = v_codec_headers v"
  using dispatch_core [of cfg fresh pkg cmd v w r] by (simp add: same_core_def)

lemma demo_greeted_headers: "demo_greeted = Some v \<Longrightarrow> v_codec_headers v = demo_headers"
  unfolding demo_greeted_def bind_eq_Some_conv
  by (auto simp: open_session_def subscribe_routing_def idle_server_def demo_server_def
      dest!: greet_headers elim!: register_state_cases split: admission.splits option.splits if_splits)

lemma demo_played_reach:
  assumes "demo_played = Some v"
  shows "reach (server_init demo_ids) (server_step False demo_config demo_ids ''0.1'') v"
proof -
  obtain v1 v2 v3 where steps: "demo_greeted = Some v1" "start_loop 0 v1 = Some v2"
    "drain_custom 0 v2 = Some v3" "on_chunk demo_config 0 (demo_chunk ''s1'') v3 = Some v"
    using assms unfolding demo_played_def bind_eq_Some_conv by blast
  let ?reach = "reach (server_init demo_ids) (server_step False demo_config demo_ids ''0.1'')"
  have "clean_start v1 0" using demo_greeted_clean unfolding steps(1) by simp
  then have r2: "?reach v2"
    by (intro reach_step [OF demo_greeted_reach [OF steps(1)]] server_step.started [OF _ steps(2)]) simp
  have r3: "?reach v3" by (rule reach_step [OF r2 server_step.drained [OF steps(3)]])
  have "v_codec_headers v3 (wd_stream_id (demo_chunk ''s1'')) \<noteq> None"
    using demo_headers_known drain_headers [OF steps(3)] start_headers [OF steps(2)]
      demo_greeted_headers [OF steps(1)] by (simp add: demo_chunk_def)
  from server_step.chunk [OF this steps(4)] show ?thesis by (rule reach_step [OF r3])
qed

lemma reachable_safe_witness:
  "\<exists>v se. demo_played = Some v \<and> v_sessions v 0 = Some se \<and>
     hello_allowed demo_config (se_hello se) \<and> state_ok (v_state v)"
proof -
  obtain v se where v: "demo_played = Some v" "v_sessions v 0 = Some se"
    using demo_played_out by (auto simp: map_option_case split: option.splits)
  with reachable_safe [OF demo_played_reach [OF v(1)]] show ?thesis by blast
qed

lemma codec_header_before_audio_witness:
  "\<exists>v se. demo_played = Some v \<and> v_sessions v 0 = Some se \<and> length (se_out se) = 3 \<and>
     codec_order None (se_out se)"
proof -
  obtain v se where v: "demo_played = Some v" "v_sessions v 0 = Some se" "length (se_out se) = 3"
    using demo_played_out by (auto simp: map_option_case split: option.splits)
  with codec_header_before_audio [OF demo_played_reach [OF v(1)] v(2)] show ?thesis by blast
qed

text \<open>C14: No command leaves the routing of a session behind the shared state.  In every reachable state,
  a session that can be reached through its routing channel has, after any command, either been sent
  what the state now says about its client, marked as new for its loop to take, or been sent nothing,
  and then the command has not changed what the state says about the client, or it has taken the
  client out of every group, which nothing is sent for.\<close>

theorem dispatch_routes_sessions:
  assumes "reach (server_init fresh) (server_step races cfg fresh pkg) v"
    and "dispatch cfg fresh pkg cmd v = Some (w, r)"
    and "v_routing_senders v c = Some sid" "v_sessions v sid = Some se"
  shows "\<exists>se'. v_routing_senders w c = Some sid \<and> v_sessions w sid = Some se' \<and>
    (se_watch_changed se' \<and> build_routing (v_state w) c = Some (se_watch se') \<or>
     se_watch se' = se_watch se \<and> se_watch_changed se' = se_watch_changed se \<and>
     build_routing (v_state w) c \<in> {None, build_routing (v_state v) c})"
proof -
  have "state_ok (v_state v)" "senders_ok v"
    using server_safe.reach_inv [OF assms(1)] by (simp_all add: server_inv_def)
  from dispatch_routed [OF this assms(2), of c] assms(3,4) show ?thesis
    by (auto simp: routed_def tracked_def)
qed

lemma demo_rerouted:
  "map_option (\<lambda>v. (v_routing_senders v ''a'', build_routing (v_state v) ''a'', v_sessions v 0 = None,
      map_option (\<lambda>wr. build_routing (v_state (fst wr)) ''a'')
        (dispatch demo_config demo_ids ''0.1'' (SetGroupStream ''g1'' ''s2'') v))) demo_greeted =
   Some (Some 0, Some (demo_routing ''s1''), False, Some (Some (demo_routing ''s2'')))"
  by code_simp

lemma dispatch_routes_sessions_witness:
  "\<exists>v w r se. demo_greeted = Some v \<and>
     dispatch demo_config demo_ids ''0.1'' (SetGroupStream ''g1'' ''s2'') v = Some (w, r) \<and>
     v_sessions w 0 = Some se \<and> se_watch_changed se \<and> se_watch se = demo_routing ''s2''"
proof -
  obtain v w r where v: "demo_greeted = Some v" "v_routing_senders v ''a'' = Some 0"
    "build_routing (v_state v) ''a'' = Some (demo_routing ''s1'')"
    "dispatch demo_config demo_ids ''0.1'' (SetGroupStream ''g1'' ''s2'') v = Some (w, r)"
    "build_routing (v_state w) ''a'' = Some (demo_routing ''s2'')" and "v_sessions v 0 \<noteq> None"
    using demo_rerouted by (auto simp: map_option_case split: option.splits)
  then obtain se where "v_sessions v 0 = Some se" by blast
  moreover have "demo_routing ''s1'' \<noteq> demo_routing ''s2''" by (simp add: demo_routing_def)
  ultimately show ?thesis
    using dispatch_routes_sessions [OF demo_greeted_reach [OF v(1), of False] v(4,2), of se] v(1,3-5) by auto
qed

text \<open>C38: Without that proviso the order is lost: a stream switch that falls between the greeting of
  a client and the start of its loop is taken over by the loop without a codec header, and the
  client then receives audio of the new stream after the header of the old one.\<close>

theorem late_switch_loses_codec_header:
  "\<exists>cfg fresh pkg v sid se. reach (server_init fresh) (server_step True cfg fresh pkg) v \<and>
     v_sessions v sid = Some se \<and> \<not> codec_order None (se_out se)"
proof -
  obtain v se where v: "demo_switched = Some v" "v_sessions v 0 = Some se"
    and out: "\<not> codec_order None (se_out se)"
    using demo_switched_out
    by (auto simp: map_option_case chunk_message_def demo_chunk_def split: option.splits)
  obtain v1 vr v3 v4 where steps: "demo_greeted = Some v1"
    "dispatch demo_config demo_ids ''0.1'' (SetGroupStream ''g1'' ''s2'') v1 = Some vr"
    "start_loop 0 (fst vr) = Some v3" "drain_custom 0 v3 = Some v4"
    "on_chunk demo_config 0 (demo_chunk ''s2'') v4 = Some v"
    using v(1) unfolding demo_switched_def bind_eq_Some_conv by blast
  obtain v2 r where vr: "vr = (v2, r)" by (rule prod.exhaust)
  note steps = steps(1) steps(2) [unfolded vr] steps(3) [unfolded vr fst_conv] steps(4,5)
  let ?reach = "reach (server_init demo_ids) (server_step True demo_config demo_ids ''0.1'')"
  have "?reach v1" by (rule demo_greeted_reach [OF steps(1)])
  then have "?reach v2" by (rule reach_step) (rule server_step.command [OF steps(2)])
  then have r3: "?reach v3" by (rule reach_step) (rule server_step.started [OF _ steps(3)], simp)
  have r4: "?reach v4" by (rule reach_step [OF r3 server_step.drained [OF steps(4)]])
  have "v_codec_headers v4 (wd_stream_id (demo_chunk ''s2'')) \<noteq> None"
    using demo_headers_known drain_headers [OF steps(4)] start_headers [OF steps(3)] dispatch_headers [OF steps(2)]
      demo_greeted_headers [OF steps(1)] by (simp add: demo_chunk_def)
  from server_step.chunk [OF this steps(5)] have "?reach v" by (rule reach_step [OF r4])
  with v out show ?thesis by blast
qed

subsection \<open>Single sessions\<close>

lemma should_send_iff:
  "should_send_chunk c r b \<longleftrightarrow> wd_stream_id c = ro_stream_id r \<and>
     (b \<or> \<not> ro_client_muted r \<and> \<not> ro_group_muted r)"
  by (auto simp: should_send_chunk_def)

lemma other_session [simp]: "i \<noteq> sid \<Longrightarrow> v_sessions (update_session sid f v) i = v_sessions v i"
  by (simp add: update_session_at)

lemma drain_after:
  "v_sessions v sid = Some se \<Longrightarrow> se_phase se = Draining \<Longrightarrow>
   drain_custom sid v = Some (v\<lparr>v_sessions := (v_sessions v)(sid \<mapsto> se\<lparr>se_phase := Running,
     se_custom_rx := [], se_out := se_out se @ custom_messages (se_custom_rx se)\<rparr>)\<rparr>)"
  by (simp add: drain_custom_def update_session_def)

lemma turn_after:
  "v_sessions v sid = Some se \<Longrightarrow>
   next_turn sid v = v\<lparr>v_sessions := (v_sessions v)(sid \<mapsto> se\<lparr>se_phase := Draining\<rparr>)\<rparr>"
  by (simp add: next_turn_def update_session_def)

lemma write_after:
  "v_sessions v sid = Some se \<Longrightarrow>
   write_out sid ms v = v\<lparr>v_sessions := (v_sessions v)(sid \<mapsto> se\<lparr>se_out := se_out se @ ms\<rparr>)\<rparr>"
  by (simp add: write_out_def update_session_def)

text \<open>What a session writes for a chunk.\<close>

definition forwarded :: "config \<Rightarrow> session_routing \<Rightarrow> wire_chunk_data \<Rightarrow> out_msg list" where
  "forwarded cfg ro chunk =
     (if wd_stream_id chunk = ro_stream_id ro \<and>
         (k_send_audio_to_muted cfg \<or> \<not> ro_client_muted ro \<and> \<not> ro_group_muted ro)
      then [chunk_message chunk] else [])"

lemma on_chunk_after:
  assumes "running v sid = Some se"
  shows "on_chunk cfg sid chunk v = Some (v\<lparr>v_sessions := (v_sessions v)(sid \<mapsto>
     se\<lparr>se_out := se_out se @ forwarded cfg (se_routing se) chunk, se_phase := Draining\<rparr>)\<rparr>)"
proof -
  have "se\<lparr>se_out := se_out se @ []\<rparr> = se" by simp
  with assms running_session [OF assms] show ?thesis
    by (auto simp: on_chunk_def forwarded_def turn_after write_after should_send_iff)
qed

text \<open>C18: A session that waits in its loop takes a chunk of the broadcast without waiting for anything
  else: it writes the chunk exactly when it is of the stream the session is routed to and neither the
  client nor its group is muted, or muted clients are to receive audio; it writes nothing else.  Custom
  messages that came in while it waited are still pending then, and the turn that follows writes them
  behind the chunk, in their order.  Neither touches another session or the shared state.\<close>

theorem chunk_delivery:
  assumes "running v sid = Some se"
  shows "\<exists>w x. on_chunk cfg sid chunk v = Some w \<and> drain_custom sid w = Some x \<and>
      w = v\<lparr>v_sessions := (v_sessions v)(sid \<mapsto> se\<lparr>se_out := se_out se
        @ (if wd_stream_id chunk = ro_stream_id (se_routing se) \<and>
              (k_send_audio_to_muted cfg \<or>
               \<not> ro_client_muted (se_routing se) \<and> \<not> ro_group_muted (se_routing se))
           then [chunk_message chunk] else []), se_phase := Draining\<rparr>)\<rparr> \<and>
      x = w\<lparr>v_sessions := (v_sessions w)(sid \<mapsto> se\<lparr>se_custom_rx := [],
        se_out := se_out (the (v_sessions w sid)) @
          List.map (\<lambda>m. OutCustom (co_type_id m) (co_payload m)) (se_custom_rx se)\<rparr>)\<rparr>"
  using on_chunk_after [OF assms, of cfg chunk] running_session [OF assms]
  by (cases se) (auto simp: drain_after forwarded_def custom_messages_def)

definition demo_custom_pending :: server where
  "demo_custom_pending = demo_server\<lparr>v_sessions := (v_sessions demo_server)
     (0 \<mapsto> (demo_session ''a'' ''s1'')\<lparr>se_custom_rx := [\<lparr>co_type_id = 9, co_payload = [5]\<rparr>]\<rparr>)\<rparr>"

lemma chunk_delivery_witness:
  "\<exists>w x se'. on_chunk demo_config 0 (demo_chunk ''s1'') demo_custom_pending = Some w \<and>
     drain_custom 0 w = Some x \<and> v_sessions x 0 = Some se' \<and>
     se_out se' = [chunk_message (demo_chunk ''s1''), OutCustom 9 [5]]"
proof -
  let ?se = "(demo_session ''a'' ''s1'')\<lparr>se_custom_rx := [\<lparr>co_type_id = 9, co_payload = [5]\<rparr>]\<rparr>"
  have "running demo_custom_pending 0 = Some ?se"
    by (simp add: running_def demo_custom_pending_def demo_session_def)
  from chunk_delivery [OF this, of demo_config "demo_chunk ''s1''"] show ?thesis
    by (auto simp: demo_session_def new_session_def demo_routing_def demo_chunk_def)
qed

text \<open>A time request is answered with the difference of its arrival and its sending, in
  normalised form, refers to the id of the request, and changes nothing else.\<close>

lemma time_reply:
  assumes "running v sid = Some se" "msg_payload m = PTime t"
    and "tv_normal (bm_received (msg_base m))" "tv_normal (bm_sent (msg_base m))"
    and "in_i32 (sint (tv_sec (bm_received (msg_base m))) - sint (tv_sec (bm_sent (msg_base m))))"
    and "in_i32 (sint (tv_sec (bm_received (msg_base m))) - sint (tv_sec (bm_sent (msg_base m))) - 1)"
  shows "\<exists>w latency. on_message sid m v = Some w \<and>
    w = v\<lparr>v_sessions := (v_sessions v)(sid \<mapsto> se\<lparr>se_out := se_out se
          @ [OutTime latency (bm_id (msg_base m))], se_phase := Draining\<rparr>)\<rparr>
    \<and> to_usec latency = to_usec (bm_received (msg_base m)) - to_usec (bm_sent (msg_base m))
    \<and> tv_normal latency"
  using running_session [OF assms(1)] assms(1,2) tv_sub_exact_lemma [OF assms(3-6)]
  by (auto simp: on_message_def turn_after write_after)

definition demo_time :: typed_message where
  "demo_time = \<lparr>msg_base = \<lparr>bm_msg_type = MTime, bm_id = 7, bm_refers_to = 0,
       bm_sent = \<lparr>tv_sec = 5, tv_usec = 900000\<rparr>, bm_received = \<lparr>tv_sec = 6, tv_usec = 100000\<rparr>,
       bm_size = 8\<rparr>, msg_payload = PTime time_new\<rparr>"

lemma time_reply_witness:
  "\<exists>w latency se. on_message 0 demo_time demo_server = Some w \<and> v_sessions w 0 = Some se \<and>
     se_out se = [OutTime latency 7] \<and> to_usec latency = 200000"
proof -
  have r: "running demo_server 0 = Some (demo_session ''a'' ''s1'')"
    by (simp add: running_def demo_server_def demo_session_def)
  obtain w latency where "on_message 0 demo_time demo_server = Some w"
    "w = demo_server\<lparr>v_sessions := (v_sessions demo_server)(0 \<mapsto> (demo_session ''a'' ''s1'')
       \<lparr>se_out := se_out (demo_session ''a'' ''s1'')
          @ [OutTime latency (bm_id (msg_base demo_time))], se_phase := Draining\<rparr>)\<rparr>"
    "to_usec latency = to_usec (bm_received (msg_base demo_time)) - to_usec (bm_sent (msg_base demo_time))"
    using time_reply [OF r, of demo_time time_new] by (auto simp: demo_time_def tv_normal_def in_i32_def)
  then show ?thesis by (auto simp: demo_session_def new_session_def demo_time_def to_usec_def)
qed

text \<open>C33: When a client has reconnected before its old session ends, the end of the old session takes
  away the senders of the new one and marks the client as disconnected while the new session goes
  on running: it no longer gets settings or routing.\<close>

theorem old_session_cuts_new_one:
  assumes "in_loop v sid = Some se" "v_sessions v sid' = Some se'" "sid' \<noteq> sid"
    and "se_client se' = se_client se" "end_session sid v = Some w"
  shows "v_sessions w sid' = Some se' \<and> v_settings_senders w (se_client se') = None \<and>
    v_routing_senders w (se_client se') = None \<and> v_custom_senders w (se_client se') = None \<and>
    (\<forall>c. s_clients (v_state w) (se_client se') = Some c \<longrightarrow> \<not> c_connected c)"
  using assms
  by (auto simp: end_session_def Let_def send_event_Some disconnect_client_def split: option.splits)

definition demo_twice :: server where
  "demo_twice = demo_server\<lparr>v_sessions := (v_sessions demo_server)(2 \<mapsto> demo_session ''a'' ''s1''),
     v_settings_senders := (v_settings_senders demo_server)(''a'' \<mapsto> 2),
     v_routing_senders := (v_routing_senders demo_server)(''a'' \<mapsto> 2)\<rparr>"

lemma old_session_cuts_new_one_witness:
  "\<exists>w. end_session 0 demo_twice = Some w \<and> v_sessions w 2 = Some (demo_session ''a'' ''s1'') \<and>
     v_routing_senders w ''a'' = None"
proof -
  obtain w where w: "end_session 0 demo_twice = Some w"
    by (simp add: end_session_def Let_def in_loop_def demo_twice_def demo_server_def demo_session_def
        send_event_def EVENT_CHANNEL_SIZE_def)
  have "in_loop demo_twice 0 = Some (demo_session ''a'' ''s1'')"
    by (simp add: in_loop_def demo_twice_def demo_server_def demo_session_def)
  moreover have "v_sessions demo_twice 2 = Some (demo_session ''a'' ''s1'')"
    by (simp add: demo_twice_def)
  moreover have "se_client (demo_session ''a'' ''s1'') = ''a''"
    by (simp add: se_client_def demo_session_def new_session_def demo_hello_def)
  ultimately show ?thesis
    using old_session_cuts_new_one [OF _ _ _ refl w, of "demo_session ''a'' ''s1''" 2] w by simp
qed

text \<open>A connection that breaks while the client is greeted ends the handler before its cleanup: a
  state is reachable in which a client counts as connected and keeps its senders although there is
  no session at all.\<close>

lemma failed_greeting_leaves_connected:
  "\<exists>cfg fresh pkg v c x. reach (server_init fresh) (server_step False cfg fresh pkg) v \<and>
     (\<forall>sid. v_sessions v sid = None) \<and> v_settings_senders v c \<noteq> None \<and>
     s_clients (v_state v) c = Some x \<and> c_connected x"
proof -
  let ?v0 = "idle_server\<lparr>v_state := server_state_default\<rparr>"
  let ?reach = "reach (server_init demo_ids) (server_step False demo_config demo_ids ''0.1'')"
  have "server_init demo_ids ?v0"
    by (simp add: server_init_def idle_server_def demo_server_def state_ok_def groups_ok_def
        groups_nonempty_def clients_ok_def server_state_default_def supply_ok_def demo_ids_inj)
  then have r0: "?reach ?v0" by (rule reach_init)
  obtain v1 where v1: "open_session demo_config 0 1 (PHello (demo_hello ''a'')) ?v0 = Some v1"
    by (simp add: open_session_def admit_def demo_config_def)
  then have s1: "v_sessions v1 = [0 \<mapsto> new_session (demo_hello ''a'') 1]"
    "v_settings_senders v1 = [''a'' \<mapsto> 0]" "v_events v1 = []"
    by (auto simp: open_session_def idle_server_def demo_server_def admit_def demo_config_def
        demo_hello_def)
  have "unused ?v0 0" by (simp add: unused_def idle_server_def)
  from reach_step [OF r0 server_step.opened [OF this v1]] have r1: "?reach v1" .
  obtain v2 where v2: "register_state demo_config demo_ids 0 v1 = Some v2"
    by (simp add: register_state_def s1 new_session_def split_beta Let_def)
  then obtain se2 x where s2: "v_sessions v2 = [0 \<mapsto> se2]" "se_phase se2 = Registered"
    "v_settings_senders v2 = [''a'' \<mapsto> 0]" "v_events v2 = []"
    "s_clients (v_state v2) ''a'' = Some x" "c_connected x"
    using s1 v1
    by (auto simp: register_state_def new_session_def Let_def open_session_def idle_server_def
        demo_server_def server_state_default_def get_or_create_client_def connect_client_def
        group_for_client_def demo_hello_def admit_def demo_config_def)
  from reach_step [OF r1 server_step.registered [OF v2]] have r2: "?reach v2" .
  obtain v3 where v3: "subscribe_routing 0 v2 = Some v3"
    by (simp add: subscribe_routing_def s2)
  then obtain se3 where s3: "v_sessions v3 = [0 \<mapsto> se3]" "se_phase se3 = Subscribed"
    "v_settings_senders v3 = [''a'' \<mapsto> 0]" "v_events v3 = []" "v_state v3 = v_state v2"
    using s2 by (auto simp: subscribe_routing_def)
  from reach_step [OF r2 server_step.subscribed [OF v3]] have r3: "?reach v3" .
  obtain v where v: "greet_fails 0 v3 = Some v"
    by (simp add: greet_fails_def s3 send_event_def EVENT_CHANNEL_SIZE_def)
  then have "v_sessions v sid = None" "v_settings_senders v ''a'' \<noteq> None" "v_state v = v_state v2" for sid
    using s3 by (auto simp: greet_fails_def send_event_def EVENT_CHANNEL_SIZE_def)
  moreover from reach_step [OF r3 server_step.greet_failed [OF v]] have "?reach v" .
  ultimately show ?thesis using s2(5,6) by metis
qed

subsection \<open>Status\<close>

lemma status_ids:
  assumes "clients_ok cs"
  shows "List.map sc_id (sg_clients (status_of_group cs g)) = filter (\<lambda>c. cs c \<noteq> None) (g_clients g)"
proof -
  have "List.map sc_id (List.map status_of_client (List.map_filter cs xs)) = filter (\<lambda>c. cs c \<noteq> None) xs" for xs
  proof (induction xs)
    case Nil
    then show ?case by (simp add: List.map_filter_simps)
  next
    case (Cons x xs)
    with clients_ok_id [OF assms, of x] show ?case
      by (cases "cs x") (simp_all add: List.map_filter_simps status_of_client_def)
  qed
  then show ?thesis by (simp add: status_of_group_def)
qed

lemma status_group_id [simp]: "sg_id (status_of_group cs g) = g_id g"
  by (simp add: status_of_group_def)

lemma distinct_members:
  "groups_ok gs \<Longrightarrow> distinct (concat (List.map (\<lambda>g. filter P (g_clients g)) gs))"
proof (induction gs)
  case Nil
  then show ?case by simp
next
  case (Cons g gs)
  have "groups_ok gs" using Cons.prems by (simp add: groups_ok_def)
  moreover have "c \<notin> set (g_clients h)" if c: "c \<in> set (g_clients g)" and h: "h \<in> set gs" for c h
  proof
    assume "c \<in> set (g_clients h)"
    with c h have "g_id g = g_id h"
      by (intro groups_ok_same [OF Cons.prems, of g h c]) (simp_all add: has_client_def)
    moreover have "g_id g \<notin> g_id ` set gs" using groups_ok_distinct [OF Cons.prems] by simp
    ultimately show False using h by simp
  qed
  then have "set (filter P (g_clients g)) \<inter> set (concat (List.map (\<lambda>g. filter P (g_clients g)) gs)) = {}"
    by auto
  ultimately show ?case using Cons.IH groups_ok_clients [OF Cons.prems, of g] by simp
qed

text \<open>The entry for a client in the list of its group: identifier, connection, name, latency, volume, and
  the host it registered from.\<close>

definition client_entry :: "status_client \<Rightarrow> string \<times> bool \<times> string \<times> i32 \<times> u16 \<times> bool \<times> string \<times> string" where
  "client_entry e =
     (sc_id e, sc_connected e, scc_name (sc_config e), scc_latency (sc_config e),
      sl_percent (scc_volume (sc_config e)), sl_muted (scc_volume (sc_config e)),
      sh_name (sc_host e), sh_mac (sc_host e))"

lemma group_entries:
  assumes "clients_ok cs"
  shows "List.map client_entry (List.map status_of_client (List.map_filter cs ids)) =
    List.map (\<lambda>i. case cs i of Some c \<Rightarrow>
       (i, c_connected c, cc_name (c_config c), cc_latency (c_config c), vol_percent (cc_volume (c_config c)),
        vol_muted (cc_volume (c_config c)), c_host_name c, c_mac c))
      (filter (\<lambda>i. cs i \<noteq> None) ids)"
  using clients_ok_id [OF assms]
  by (induction ids) (auto simp: List.map_filter_simps client_entry_def status_of_client_def status_host_default_def
      split: option.split)

text \<open>C28: The status snapshot lists every group in order with its identifier, name, stream and mute flag,
  and in it, in order, one entry for each member that the server knows, with this client's own
  connection state, name, latency, volume, mute flag and host; no client has two entries.  It lists
  every stream in order with its source address and its state, without properties.\<close>

theorem to_status_faithful:
  assumes "state_ok s"
  shows "List.map (\<lambda>g. (sg_id g, sg_name g, sg_stream_id g, sg_muted g, List.map client_entry (sg_clients g)))
      (srv_groups (ss_server (to_status pkg s))) =
    List.map (\<lambda>g. (g_id g, g_name g, g_stream_id g, g_muted g,
        List.map (\<lambda>i. case s_clients s i of Some c \<Rightarrow>
            (i, c_connected c, cc_name (c_config c), cc_latency (c_config c), vol_percent (cc_volume (c_config c)),
             vol_muted (cc_volume (c_config c)), c_host_name c, c_mac c))
          (filter (\<lambda>i. s_clients s i \<noteq> None) (g_clients g)))) (s_groups s) \<and>
    distinct (concat (List.map (\<lambda>g. List.map sc_id (sg_clients g)) (srv_groups (ss_server (to_status pkg s))))) \<and>
    List.map (\<lambda>t. (st_id t, su_raw (st_uri t), st_status t, st_properties t))
      (srv_streams (ss_server (to_status pkg s))) =
    List.map (\<lambda>t. (si_id t, si_uri t,
        if si_status t = ''playing'' then SPlaying else if si_status t = ''idle'' then SIdle
        else if si_status t = ''disabled'' then SDisabled else SUnknown, None)) (s_streams s)"
proof -
  have cs: "clients_ok (s_clients s)" and gs: "groups_ok (s_groups s)"
    using assms by (simp_all add: state_ok_def)
  show ?thesis
    using distinct_members [OF gs, of "\<lambda>c. s_clients s c \<noteq> None"] status_ids [OF cs] group_entries [OF cs]
    by (simp add: to_status_def status_of_stream_def status_of_group_def stream_status_from_def stream_uri_raw_def
        comp_def)
qed

lemma to_status_faithful_witness:
  "List.map (\<lambda>g. (sg_id g, sg_name g, sg_stream_id g, sg_muted g, List.map client_entry (sg_clients g)))
      (srv_groups (ss_server (to_status ''0.1'' (set_client_volume ''b'' 30 True demo_state)))) =
     [(''g1'', [], ''s1'', False, [(''a'', True, [], 0, 100, False, ''host'', ''00:11''),
         (''b'', True, [], 0, 30, True, ''host'', ''00:11'')]),
      (''g2'', [], ''s2'', False, [(''c'', True, [], 0, 100, False, ''host'', ''00:11'')])]"
proof -
  let ?s = "set_client_volume ''b'' 30 True demo_state"
  have "state_ok ?s"
    unfolding set_client_volume_update by (rule state_ok_update_client) (simp_all add: demo_state_ok)
  from conjunct1 [OF to_status_faithful [OF this, of "''0.1''"]] show ?thesis
    by (simp add: set_client_volume_def demo_state_def demo_group_def demo_client_def client_config_default_def
        volume_default_def)
qed

end
