(* ===== verification/RpcProps.thy ===== *)
theory RpcProps
  imports Control ServerProps
begin

text \<open>
  The control API over the server: what a control client is promised of the command channel is the
  locales \<open>status_backend\<close> and \<open>command_backend\<close>, what the API promises in turn is proved once inside it, and the interpretation
  puts the model's own command dispatcher behind the channel.  \<open>view\<close> is the shared state behind the
  channel, None while the dispatcher waits for room in a session's channel.
\<close>

subsection \<open>Looking up the status\<close>

lemma jfield_member:
  "jfield ''clients'' (group_json g) = JArr (List.map client_json (sg_clients g))" by simp

lemma elements_arr [simp]: "elements (JArr xs) = xs"
  by (simp add: elements_def)

lemma find_map: "find P (List.map f xs) = map_option f (find (\<lambda>x. P (f x)) xs)"
  by (induction xs) simp_all

lemma find_client_json:
  "find_by_id cid (List.map client_json cs) = map_option client_json (find (\<lambda>c. sc_id c = cid) cs)"
  by (simp add: find_by_id_def find_map)

lemma find_group_json:
  "find_by_id gid (List.map group_json gs) = map_option group_json (find (\<lambda>g. sg_id g = gid) gs)"
  by (simp add: find_by_id_def find_map)

lemma status_client_id [simp]: "sc_id (status_of_client c) = c_id c"
  by (simp add: status_of_client_def)

lemma status_members:
  "clients_ok cl \<Longrightarrow> find (\<lambda>c. sc_id c = cid) (List.map status_of_client (List.map_filter cl cs)) =
     (if cid \<in> set cs then map_option status_of_client (cl cid) else None)"
proof (induction cs)
  case (Cons c cs)
  then show ?case
    by (cases "cl c") (auto simp: List.map_filter_simps clients_ok_id)
qed (simp add: List.map_filter_simps)

text \<open>The client entry that a status shows: of a known client that is in some group.\<close>

definition shown_client :: "server_state \<Rightarrow> string \<Rightarrow> client option" where
  "shown_client s cid = (if list_ex (has_client cid) (s_groups s) then s_clients s cid else None)"

lemma all_groups_status:
  "all_groups (status_json (to_status pkg s)) =
     List.map group_json (List.map (status_of_group (s_clients s)) (s_groups s))"
  by (simp add: all_groups_def to_status_def)

lemma all_clients_status:
  "all_clients (status_json (to_status pkg s)) =
     List.map client_json (concat (List.map (\<lambda>g. sg_clients (status_of_group (s_clients s) g)) (s_groups s)))"
  by (simp add: all_clients_def all_groups_status map_concat comp_def)

lemma status_clients:
  assumes "clients_ok (s_clients s)"
  shows "find_by_id cid (all_clients (status_json (to_status pkg s))) =
    map_option (\<lambda>c. client_json (status_of_client c)) (shown_client s cid)"
proof -
  have "find (\<lambda>c. sc_id c = cid)
      (concat (List.map (\<lambda>g. sg_clients (status_of_group (s_clients s) g)) gs)) =
    (if list_ex (has_client cid) gs then map_option status_of_client (s_clients s cid) else None)" for gs
  proof (induction gs)
    case (Cons g gs)
    with status_members [OF assms, of cid "g_clients g"] show ?case
      by (auto simp: find_append status_of_group_def has_client_def split: option.split)
  qed simp
  then show ?thesis
    by (simp add: all_clients_status find_client_json shown_client_def option.map_comp comp_def)
qed

lemma status_groups_find:
  "find_by_id gid (all_groups (status_json (to_status pkg s))) =
     map_option (\<lambda>g. group_json (status_of_group (s_clients s) g)) (find (\<lambda>g. g_id g = gid) (s_groups s))"
proof -
  have "sg_id (status_of_group cs g) = g_id g" for cs g by (simp add: status_of_group_def)
  then show ?thesis
    unfolding all_groups_status find_group_json find_map by (simp add: option.map_comp comp_def)
qed

subsection \<open>The command channel\<close>

locale status_backend =
  fixes exec :: "'w exec" and view :: "'w \<Rightarrow> server_state option" and pkg :: string
  assumes exec_status: "view w = Some s \<Longrightarrow> exec GetStatus w = (w, Some (StatusReply (to_status pkg s)))"
begin

lemma get_status_view: "view w = Some s \<Longrightarrow> get_status exec w = (w, Some (status_json (to_status pkg s)))"
  by (simp add: get_status_def exec_status)

lemma client_status:
  assumes "view w = Some s" "clients_ok (s_clients s)"
    and "request_method request = ''Client.GetStatus''"
    and "json_string (jfield ''id'' (jfield ''params'' request)) = Some cid"
  shows "handle_request jwt auth exec request w =
    (w, case shown_client s cid of
          Some c \<Rightarrow> rpc_ok (jfield ''id'' request) (JObj [(''client'', client_json (status_of_client c))])
        | None \<Rightarrow> rpc_err (jfield ''id'' request) INVALID_PARAMS ''client not found'')"
  using assms by (simp add: handle_request_def Let_def dispatch_defs handle_client_def require_str_def
      get_status_view status_clients split: option.split)

lemma group_status:
  assumes "view w = Some s" "request_method request = ''Group.GetStatus''"
    and "json_string (jfield ''id'' (jfield ''params'' request)) = Some gid"
  shows "handle_request jwt auth exec request w =
    (w, case find (\<lambda>g. g_id g = gid) (s_groups s) of
          Some g \<Rightarrow> rpc_ok (jfield ''id'' request) (JObj [(''group'', group_json (status_of_group (s_clients s) g))])
        | None \<Rightarrow> rpc_err (jfield ''id'' request) INVALID_PARAMS ''group not found'')"
  using assms by (simp add: handle_request_def Let_def dispatch_defs handle_group_def require_str_def
      get_status_view status_groups_find split: option.split)

end

text \<open>A channel whose commands do to the shared state what the dispatcher does.\<close>

locale command_backend = status_backend +
  fixes fresh :: "nat \<Rightarrow> string"
  assumes exec_command:
    "view w = Some s \<Longrightarrow> view (fst (exec cmd w)) = Some s' \<Longrightarrow>
     \<exists>n. s' = fst (command_state fresh cmd (s, n))"
begin

lemma volume_then_status:
  assumes w: "view w = Some s" "clients_ok (s_clients s)" and c: "shown_client s cid = Some c"
    and r1: "request_method r1 = ''Client.SetVolume''"
      "json_string (jfield ''id'' (jfield ''params'' r1)) = Some cid"
      "json_u64 (jfield ''percent'' (jfield ''volume'' (jfield ''params'' r1))) = Some p"
      "json_bool (jfield ''muted'' (jfield ''volume'' (jfield ''params'' r1))) = Some m"
    and r2: "request_method r2 = ''Client.GetStatus''"
      "json_string (jfield ''id'' (jfield ''params'' r2)) = Some cid"
    and h: "handle_request jwt auth exec r1 w = (w1, a1)" and live: "view w1 \<noteq> None"
    and vol: "vol = \<lparr>vol_percent = word_of_int (min p 100), vol_muted = m\<rparr>"
  shows "a1 = Response
      (rpc_response (jfield ''id'' r1)
        (JObj [(''volume'', JObj [(''percent'', of_u16 (vol_percent vol)), (''muted'', JBool m)])]))
      (Some (client_on_volume_changed cid (vol_percent vol) m)) \<and>
    handle_request jwt auth exec r2 w1 =
      (w1, rpc_ok (jfield ''id'' r2) (JObj [(''client'',
        client_json (status_of_client (c\<lparr>c_config := (c_config c)\<lparr>cc_volume := vol\<rparr>\<rparr>)))]))"
proof -
  let ?cmd = "SetClientVolume cid (vol_percent vol) m"
  have h1: "handle_request jwt auth exec r1 w = (fst (exec ?cmd w), Response
      (rpc_response (jfield ''id'' r1)
        (JObj [(''volume'', JObj [(''percent'', of_u16 (vol_percent vol)), (''muted'', JBool m)])]))
      (Some (client_on_volume_changed cid (vol_percent vol) m)))"
    using r1 vol by (simp add: handle_request_def Let_def dispatch_defs handle_client_def require_str_def
        bool_or_false_def ok_with_notification_def)
  obtain s' where s': "view w1 = Some s'" using live by blast
  moreover have "w1 = fst (exec ?cmd w)" using h1 h by simp
  ultimately obtain n where n: "s' = fst (command_state fresh ?cmd (s, n))"
    using exec_command [OF w(1)] by blast
  then have e: "s' = set_client_volume cid (vol_percent vol) m s" by (simp add: command_state_def)
  have ok: "clients_ok (s_clients s')"
    using w(2) by (auto simp: e set_client_volume_def clients_ok_def split: option.split)
  have "shown_client s' cid = Some (c\<lparr>c_config := (c_config c)\<lparr>cc_volume := vol\<rparr>\<rparr>)"
    using c vol by (auto simp: e shown_client_def set_client_volume_def split: if_splits option.split)
  with client_status [OF s' ok r2] h h1 show ?thesis by simp
qed

end

subsection \<open>The dispatcher behind the channel\<close>

definition dispatch_exec :: "config \<Rightarrow> (nat \<Rightarrow> string) \<Rightarrow> string \<Rightarrow> server option exec" where
  "dispatch_exec cfg fresh pkg cmd w =
     (case w of
        None \<Rightarrow> (None, None)
      | Some v \<Rightarrow>
          (case dispatch cfg fresh pkg cmd v of
             None \<Rightarrow> (None, None)
           | Some (v', r) \<Rightarrow> (Some v', Some r)))"

interpretation dispatcher: command_backend "dispatch_exec cfg fresh pkg" "map_option v_state" pkg fresh
  for cfg fresh pkg
proof unfold_locales
  show "dispatch_exec cfg fresh pkg GetStatus w = (w, Some (StatusReply (to_status pkg s)))"
    if "map_option v_state w = Some s" for w s
    using that by (auto simp: dispatch_exec_def dispatch_def)
  show "\<exists>n. s' = fst (command_state fresh cmd (s, n))"
    if "map_option v_state w = Some s" "map_option v_state (fst (dispatch_exec cfg fresh pkg cmd w)) = Some s'"
    for w s s' cmd
    using that dispatch_core [of cfg fresh pkg cmd]
    by (fastforce simp: dispatch_exec_def same_core_def split: option.splits)
qed

text \<open>C17: a volume set over the control API is read back over it: the answer and the broadcast name the
  requested percentage cut at 100, and the status that the server then shows of the client differs
  from the one before in exactly that volume.\<close>

theorem volume_readback:
  assumes "clients_ok (s_clients (v_state v))" "shown_client (v_state v) cid = Some c"
    and "request_method r1 = ''Client.SetVolume''"
      "json_string (jfield ''id'' (jfield ''params'' r1)) = Some cid"
      "json_u64 (jfield ''percent'' (jfield ''volume'' (jfield ''params'' r1))) = Some p"
      "json_bool (jfield ''muted'' (jfield ''volume'' (jfield ''params'' r1))) = Some m"
    and "request_method r2 = ''Client.GetStatus''"
      "json_string (jfield ''id'' (jfield ''params'' r2)) = Some cid"
    and "handle_request jwt auth (dispatch_exec cfg fresh pkg) r1 (Some v) = (Some v1, a1)"
    and "vol = \<lparr>vol_percent = word_of_int (min p 100), vol_muted = m\<rparr>"
  shows "a1 = Response
      (rpc_response (jfield ''id'' r1)
        (JObj [(''volume'', JObj [(''percent'', of_u16 (vol_percent vol)), (''muted'', JBool m)])]))
      (Some (client_on_volume_changed cid (vol_percent vol) m)) \<and>
    handle_request jwt auth (dispatch_exec cfg fresh pkg) r2 (Some v1) =
      (Some v1, rpc_ok (jfield ''id'' r2) (JObj [(''client'',
        client_json (status_of_client (c\<lparr>c_config := (c_config c)\<lparr>cc_volume := vol\<rparr>\<rparr>)))]))"
  using assms by (intro dispatcher.volume_then_status [where w = "Some v" and s = "v_state v"]) simp_all

subsection \<open>What each request does and how it is answered\<close>

text \<open>The methods of the API, and those that only look something up.\<close>

definition rpc_methods :: "string list" where
  "rpc_methods =
     [''Client.GetStatus'', ''Client.SetVolume'', ''Client.SetLatency'', ''Client.SetName'',
      ''Group.GetStatus'', ''Group.SetMute'', ''Group.SetStream'', ''Group.SetClients'', ''Group.SetName'',
      ''Stream.SetProperty'', ''Stream.Control'', ''Stream.AddStream'', ''Stream.RemoveStream'',
      ''Server.GetRPCVersion'', ''Server.GetStatus'', ''Server.DeleteClient'',
      ''Server.GetToken'', ''Server.Authenticate'']"

definition lookup_methods :: "string list" where
  "lookup_methods =
     [''Client.GetStatus'', ''Group.GetStatus'', ''Server.GetRPCVersion'', ''Server.GetStatus'',
      ''Server.GetToken'', ''Server.Authenticate'']"

text \<open>The command that a request asks the server to carry out, None when it asks for none or a parameter
  that it cannot do without is missing.\<close>

definition request_command :: "json \<Rightarrow> server_command option" where
  "request_command request =
     (let m = request_method request; p = jfield ''params'' request;
          str = (\<lambda>key. json_string (jfield key p)); i = str ''id''; flag = (\<lambda>j. json_bool j = Some True);
          text = (\<lambda>key. case str key of Some t \<Rightarrow> t | None \<Rightarrow> []) in
      if m = ''Client.SetVolume'' then
        map_option (\<lambda>i. SetClientVolume i
          (case json_u64 (jfield ''percent'' (jfield ''volume'' p)) of
             Some n \<Rightarrow> if n < 100 then word_of_int n else 100
           | None \<Rightarrow> 100) (flag (jfield ''muted'' (jfield ''volume'' p)))) i
      else if m = ''Client.SetLatency'' then
        map_option (\<lambda>i. SetClientLatency i
          (case json_i64 (jfield ''latency'' p) of Some n \<Rightarrow> word_of_int n | None \<Rightarrow> 0)) i
      else if m = ''Client.SetName'' then map_option (\<lambda>i. SetClientName i (text ''name'')) i
      else if m = ''Group.SetMute'' then map_option (\<lambda>i. SetGroupMute i (flag (jfield ''mute'' p))) i
      else if m = ''Group.SetStream'' then
        Option.bind i (\<lambda>i. map_option (SetGroupStream i) (str ''stream_id''))
      else if m = ''Group.SetClients'' then
        Option.bind i (\<lambda>i. map_option (\<lambda>cs. SetGroupClients i (List.map_filter json_string cs))
          (json_array (jfield ''clients'' p)))
      else if m = ''Group.SetName'' then map_option (\<lambda>i. SetGroupName i (text ''name'')) i
      else if m = ''Stream.SetProperty'' then
        map_option (\<lambda>i. SetStreamMeta i
          (case json_object (jfield ''properties'' p) of Some kvs \<Rightarrow> map_of (rev kvs) | None \<Rightarrow> (\<lambda>_. None))) i
      else if m = ''Stream.Control'' then
        Option.bind i (\<lambda>i. map_option (\<lambda>c. StreamControl i c (jfield ''params'' p)) (str ''command''))
      else if m = ''Stream.RemoveStream'' then map_option RemoveStream i
      else if m = ''Server.DeleteClient'' then map_option DeleteClient i
      else None)"

text \<open>Which commands the handler of the request broadcasts.\<close>

fun handler_broadcasts :: "server_command \<Rightarrow> bool" where
  "handler_broadcasts (DeleteClient _) = False"
| "handler_broadcasts (StreamControl _ _ _) = False"
| "handler_broadcasts _ = True"

text \<open>A result under the id of the request with the command carried out; or nothing is carried out or
  broadcast, and the answer is what was looked up or an error.\<close>

definition answers :: "'w exec \<Rightarrow> json \<Rightarrow> 'w \<Rightarrow> 'w \<times> rpc_result \<Rightarrow> bool" where
  "answers exec request w x \<longleftrightarrow>
     (\<exists>r n. snd x = Response r n \<and>
       (case request_command request of
          Some cmd \<Rightarrow> fst x = fst (exec cmd w) \<and> (n \<noteq> None \<longleftrightarrow> handler_broadcasts cmd) \<and>
            (\<exists>result. r = rpc_response (jfield ''id'' request) result)
        | None \<Rightarrow> fst x = w \<and> n = None \<and>
            (request_method request \<in> set lookup_methods \<and> (\<exists>result. r = rpc_response (jfield ''id'' request) result) \<or>
             (\<exists>msg. r = rpc_error_json (jfield ''id'' request) (- 32602) msg))))"

lemma answers_command:
  "request_command request = Some cmd \<Longrightarrow> \<not> handler_broadcasts cmd \<Longrightarrow> w' = fst (exec cmd w) \<Longrightarrow>
     answers exec request w (w', rpc_ok (jfield ''id'' request) res)"
  "request_command request = Some cmd \<Longrightarrow> handler_broadcasts cmd \<Longrightarrow> w' = fst (exec cmd w) \<Longrightarrow>
     answers exec request w (w', ok_with_notify (jfield ''id'' request) res meth params)"
  "request_command request = Some cmd \<Longrightarrow> handler_broadcasts cmd \<Longrightarrow> w' = fst (exec cmd w) \<Longrightarrow>
     answers exec request w (w', ok_with_notification (jfield ''id'' request) res note)"
  by (auto simp: answers_def rpc_ok_def ok_with_notify_def ok_with_notification_def)

lemma answers_lookup:
  "request_command request = None \<Longrightarrow> request_method request \<in> set lookup_methods \<Longrightarrow>
     answers exec request w (w, rpc_ok (jfield ''id'' request) res)"
  by (auto simp: answers_def rpc_ok_def)

lemma answers_error:
  "request_command request = None \<Longrightarrow>
     answers exec request w (w, rpc_err (jfield ''id'' request) INVALID_PARAMS msg)"
  by (auto simp: answers_def rpc_err_def INVALID_PARAMS_def)

lemma answers_require:
  assumes "json_string (jfield key params) = None \<Longrightarrow> request_command request = None"
    and "\<And>v. json_string (jfield key params) = Some v \<Longrightarrow> answers exec request w (k v)"
  shows "answers exec request w (require_str params key (jfield ''id'' request) w k)"
  using assms by (auto simp: require_str_def answers_error split: option.split)

lemmas answers_intros = answers_command answers_lookup answers_error answers_require

lemma quiet_status: "fst (get_status (dispatch_exec cfg fresh pkg) w) = w"
  by (cases w) (simp_all add: get_status_def dispatch_exec_def dispatch_def)

lemma quiet_status_cases:
  "get_status (dispatch_exec cfg fresh pkg) w = (w', s) \<Longrightarrow> w' = w"
  "status_or_null (dispatch_exec cfg fresh pkg) w = (w', j) \<Longrightarrow> w' = w"
  using quiet_status [of cfg fresh pkg w] by (auto simp: status_or_null_def split: prod.splits option.splits)

lemma flag_false: "bool_or_false j = (json_bool j = Some True)"
  by (simp add: bool_or_false_def split: option.split)

lemma add_stream_reply:
  "dispatch_exec cfg fresh pkg (AddStream uri) w =
     (w, case w of None \<Rightarrow> None | Some v \<Rightarrow> Some (AddStreamReply (Inl add_stream_refusal)))"
  by (cases w) (simp_all add: dispatch_exec_def dispatch_def)

lemma answers_client:
  "request_method request \<in> set client_methods \<Longrightarrow> answers (dispatch_exec cfg fresh pkg) request w
     (handle_client (dispatch_exec cfg fresh pkg) (request_method request) (jfield ''id'' request)
       (jfield ''params'' request) w)"
  unfolding handle_client_def Let_def
  by (auto simp: client_methods_def request_command_def Let_def lookup_methods_def flag_false string_or_def
      min_def not_less dest!: quiet_status_cases intro!: answers_intros split: option.split prod.split)

lemma answers_group:
  "request_method request \<in> set group_methods \<Longrightarrow> answers (dispatch_exec cfg fresh pkg) request w
     (handle_group (dispatch_exec cfg fresh pkg) (request_method request) (jfield ''id'' request)
       (jfield ''params'' request) w)"
  unfolding handle_group_def Let_def
  by (auto simp: group_methods_def request_command_def Let_def lookup_methods_def flag_false string_or_def
      dest!: quiet_status_cases intro!: answers_intros split: option.split prod.split)

lemma answers_stream:
  "request_method request \<in> set stream_methods \<Longrightarrow> answers (dispatch_exec cfg fresh pkg) request w
     (handle_stream (dispatch_exec cfg fresh pkg) (request_method request) (jfield ''id'' request)
       (jfield ''params'' request) w)"
  unfolding handle_stream_def Let_def add_stream_reply
  by (auto simp: stream_methods_def request_command_def Let_def string_or_def
      dest!: quiet_status_cases intro!: answers_intros split: option.split prod.split)

lemma answers_server:
  "request_method request \<in> set server_methods \<Longrightarrow> answers (dispatch_exec cfg fresh pkg) request w
     (handle_server (dispatch_exec cfg fresh pkg) (request_method request) (jfield ''id'' request)
       (jfield ''params'' request) w)"
  unfolding handle_server_def
  by (auto simp: server_methods_def request_command_def Let_def lookup_methods_def
      dest!: quiet_status_cases intro!: answers_intros split: option.split prod.split)

lemma answers_auth:
  "request_method request \<in> set auth_methods \<Longrightarrow> answers exec request w
     (handle_auth jwt auth (request_method request) (jfield ''id'' request) (jfield ''params'' request) w)"
  unfolding handle_auth_def
  by (auto simp: auth_methods_def request_command_def Let_def lookup_methods_def
      intro!: answers_intros split: sum.split)

lemma request_handled:
  "let x = handle_request jwt auth (dispatch_exec cfg fresh pkg) request w in
   if request_method request \<in> set rpc_methods then answers (dispatch_exec cfg fresh pkg) request w x
   else x = (w, Unknown)"
proof -
  let ?m = "request_method request"
  have known: "?m \<in> set rpc_methods \<longleftrightarrow> ?m \<in> set server_methods \<or> ?m \<in> set client_methods \<or>
      ?m \<in> set group_methods \<or> ?m \<in> set stream_methods \<or> ?m \<in> set auth_methods"
    by (auto simp: rpc_methods_def server_methods_def client_methods_def group_methods_def stream_methods_def
        auth_methods_def)
  show ?thesis
    unfolding handle_request_def Let_def known
    using answers_server answers_client answers_group answers_stream answers_auth by auto
qed

text \<open>C26: While the dispatcher is not waiting, the eighteen methods of the API are answered, each under the request's
  own id; any other method has no effect here and gets no answer of the API.  A request that asks for a command and has the parameters it needs
  is answered by a result, has exactly the effect of that one command on the server, and is broadcast unless it
  removes a client or controls a stream.  Every other request of the API changes nothing, broadcasts nothing, and is
  answered by what it looked up or by an error.\<close>

theorem rpc_answers:
  "let x = handle_request jwt auth (dispatch_exec cfg fresh pkg) request (Some v) in
   if request_method request \<in> set rpc_methods
   then \<exists>response note. snd x = Response response note \<and>
     (case request_command request of
        Some cmd \<Rightarrow> fst x = fst (dispatch_exec cfg fresh pkg cmd (Some v)) \<and> (note \<noteq> None \<longleftrightarrow> handler_broadcasts cmd) \<and>
          (\<exists>result. response = rpc_response (jfield ''id'' request) result)
      | None \<Rightarrow> fst x = Some v \<and> note = None \<and>
          (request_method request \<in> set lookup_methods \<and>
             (\<exists>result. response = rpc_response (jfield ''id'' request) result) \<or>
           (\<exists>msg. response = rpc_error_json (jfield ''id'' request) (- 32602) msg)))
   else x = (Some v, Unknown)"
  using request_handled [of jwt auth cfg fresh pkg request "Some v"] unfolding answers_def Let_def .

text \<open>Requests about a client, to a server with nobody connected.\<close>

definition demo_rpc :: "string \<Rightarrow> (string \<times> json) list \<Rightarrow> json" where
  "demo_rpc meth params = JObj [(''id'', JInt 7), (''method'', JStr meth), (''params'', JObj params)]"

lemma demo_rpc_fields [simp]:
  "request_method (demo_rpc meth params) = meth" "jfield ''params'' (demo_rpc meth params) = JObj params"
  "jfield ''id'' (demo_rpc meth params) = JInt 7"
  by (simp_all add: demo_rpc_def request_method_def string_or_def jfield_def)

definition demo_volume :: json where
  "demo_volume = demo_rpc ''Client.SetVolume''
     [(''id'', JStr ''a''), (''volume'', JObj [(''percent'', JInt 180), (''muted'', JBool True)])]"

definition demo_exec :: "server option exec" where
  "demo_exec = dispatch_exec demo_config demo_ids ''1''"

lemma demo_volume_done:
  "\<exists>v1 a1. handle_request demo_jwt (en_auth demo_env) demo_exec demo_volume (Some idle_server) = (Some v1, a1)"
  by (simp add: demo_volume_def handle_request_def Let_def dispatch_defs handle_client_def require_str_def
      jfield_eval demo_exec_def dispatch_exec_def dispatch_def push_settings_def idle_server_def
      demo_server_def ok_with_notification_def)

lemma volume_readback_witness:
  "\<exists>v1. fst (handle_request demo_jwt (en_auth demo_env) demo_exec demo_volume (Some idle_server)) = Some v1 \<and>
     handle_request demo_jwt (en_auth demo_env) demo_exec (demo_rpc ''Client.GetStatus'' [(''id'', JStr ''a'')])
       (Some v1) =
     (Some v1, rpc_ok (JInt 7) (JObj [(''client'', client_json (status_of_client ((demo_client ''a'')
        \<lparr>c_config := client_config_default\<lparr>cc_volume := \<lparr>vol_percent = 100, vol_muted = True\<rparr>\<rparr>\<rparr>)))]))"
proof -
  obtain v1 a1 where h:
    "handle_request demo_jwt (en_auth demo_env) demo_exec demo_volume (Some idle_server) = (Some v1, a1)"
    using demo_volume_done by blast
  have s: "clients_ok (s_clients (v_state idle_server))"
    "shown_client (v_state idle_server) ''a'' = Some (demo_client ''a'')"
    using demo_state_ok by (simp_all add: state_ok_def idle_server_def demo_server_def shown_client_def)
      (simp_all add: demo_state_def demo_group_def has_client_def)
  from volume_readback [OF s _ _ _ _ _ _ h [unfolded demo_exec_def] refl, of 180 True
      "demo_rpc ''Client.GetStatus'' [(''id'', JStr ''a'')]"] h
  show ?thesis
    by (simp add: demo_volume_def jfield_eval json_u64_def demo_exec_def demo_client_def)
qed

end
