(* ===== verification/EventNotify.thy ===== *)
theory EventNotify
  imports RpcProps
begin

text \<open>
  The events of the server library as notifications to every control connection: the task of
  \<open>snapserver-rs/src/main.rs\<close> that takes the events and broadcasts them, asking the command channel for the
  status where the notification shows an object.  The metadata of a stream are a hash map, which the JSON
  library prints in an order of its own: \<open>obj\<close> is the object that it makes of the map.
\<close>

subsection \<open>The status as the task looks it up\<close>

definition all_streams :: "json \<Rightarrow> json list" where
  "all_streams status = elements (jfield ''streams'' (jfield ''server'' status))"

definition or_null :: "json option \<Rightarrow> json" where
  "or_null j = (case j of None \<Rightarrow> JNull | Some x \<Rightarrow> x)"

definition client_from_status :: "'w exec \<Rightarrow> string \<Rightarrow> 'w \<Rightarrow> 'w \<times> json" where
  "client_from_status exec cid w =
     (let (w, status) = status_or_null exec w in (w, or_null (find_by_id cid (all_clients status))))"

definition client_notification :: "string \<Rightarrow> 'w exec \<Rightarrow> string \<Rightarrow> 'w \<Rightarrow> 'w \<times> json option" where
  "client_notification meth exec cid w =
     (let (w, client) = client_from_status exec cid w in
      (w, Some (notification meth (JObj [(''id'', JStr cid), (''client'', client)]))))"

definition event_notification ::
  "'w exec \<Rightarrow> ((string \<rightharpoonup> json) \<Rightarrow> json) \<Rightarrow> server_event \<Rightarrow> 'w \<Rightarrow> 'w \<times> json option" where
  "event_notification exec obj event w =
     (case event of
        ClientConnected cid hello \<Rightarrow> client_notification ''Client.OnConnect'' exec cid w
      | ClientDisconnected cid \<Rightarrow> client_notification ''Client.OnDisconnect'' exec cid w
      | ClientVolumeChanged cid vol m \<Rightarrow> (w, Some (client_on_volume_changed cid vol m))
      | ClientLatencyChanged cid l \<Rightarrow> (w, Some (client_on_latency_changed cid l))
      | ClientNameChanged cid nm \<Rightarrow> (w, Some (client_on_name_changed cid nm))
      | GroupStreamChanged gid st \<Rightarrow> (w, Some (group_on_stream_changed gid st))
      | GroupMuteChanged gid m \<Rightarrow> (w, Some (group_on_mute gid m))
      | GroupNameChanged gid nm \<Rightarrow> (w, Some (group_on_name_changed gid nm))
      | StreamStatus st status \<Rightarrow>
          (let (w, status) = status_or_null exec w in
           (w, Some (notification ''Stream.OnUpdate''
                  (JObj [(''id'', JStr st), (''stream'', or_null (find_by_id st (all_streams status)))]))))
      | StreamMetaChanged st meta \<Rightarrow>
          (w, Some (notification ''Stream.OnProperties'' (JObj [(''id'', JStr st), (''properties'', obj meta)])))
      | ServerUpdated \<Rightarrow>
          (let (w, status) = status_or_null exec w in (w, Some (notification ''Server.OnUpdate'' status)))
      | _ \<Rightarrow> (w, None))"

fun broadcast_events ::
  "'w exec \<Rightarrow> ((string \<rightharpoonup> json) \<Rightarrow> json) \<Rightarrow> server_event list \<Rightarrow> 'w \<Rightarrow> 'w \<times> json list" where
  "broadcast_events exec obj [] w = (w, [])"
| "broadcast_events exec obj (e # es) w =
     (let (w, note) = event_notification exec obj e w;
          (w, notes) = broadcast_events exec obj es w in
      (w, (case note of None \<Rightarrow> notes | Some n \<Rightarrow> n # notes)))"

subsection \<open>What a change announces\<close>

text \<open>The event that names the change of a command.\<close>

fun change_event :: "server_command \<Rightarrow> server_event" where
  "change_event (SetClientVolume cid vol m) = ClientVolumeChanged cid vol m"
| "change_event (SetClientLatency cid l) = ClientLatencyChanged cid l"
| "change_event (SetClientName cid nm) = ClientNameChanged cid nm"
| "change_event (SetGroupStream gid st) = GroupStreamChanged gid st"
| "change_event (SetGroupMute gid m) = GroupMuteChanged gid m"
| "change_event (SetGroupName gid nm) = GroupNameChanged gid nm"
| "change_event _ = ServerUpdated"

lemma dispatch_events:
  assumes "announces cmd" "length (v_events v) + 1 < EVENT_CHANNEL_SIZE"
    and "dispatch cfg fresh pkg cmd v = Some (w, r)"
  shows "v_events w = v_events v @ [StateChanged (v_state w), change_event cmd]"
proof -
  have st: "v_state w = fst (command_state fresh cmd (v_state v, v_next v))"
    using dispatch_core [OF assms(3)] by (simp add: same_core_def)
  have snap: "v_events (with_snapshot fresh cmd v) = v_events v @ [StateChanged (v_state w)]"
    using assms(2) by (simp add: snapshot_room st)
  have room: "v_events (try_event e x) = v_events v @ [StateChanged (v_state w), e]"
    if "v_events x = v_events v @ [StateChanged (v_state w)]" for e x
    using that assms(2) by (simp add: try_event_room)
  show ?thesis
  proof (cases cmd)
    case (SetClientVolume cid vol m)
    with assms(3) obtain u v2 where
      "push_settings u (with_snapshot fresh cmd v) = Some v2"
      "w = push_routing cid (try_event (ClientVolumeChanged cid vol m) v2)"
      by (auto simp: dispatch_def Let_def)
    with push_settings_events snap room [of v2] SetClientVolume show ?thesis by auto
  next
    case (SetClientLatency cid l)
    with assms(3) obtain u v2 where
      "v2 = with_snapshot fresh cmd v \<or> push_settings u (with_snapshot fresh cmd v) = Some v2"
      "w = try_event (ClientLatencyChanged cid l) v2"
      by (auto simp: dispatch_def Let_def split: option.splits)
    with push_settings_events snap room [of v2] SetClientLatency show ?thesis by auto
  qed (use assms(1,3) room [OF snap] in \<open>auto simp: dispatch_def\<close>)
qed

lemma exec_events:
  assumes "announces cmd" "length (v_events v) + 1 < EVENT_CHANNEL_SIZE"
    and "fst (dispatch_exec cfg fresh pkg cmd (Some v)) = Some w"
  shows "v_events w = v_events v @ [StateChanged (v_state w), change_event cmd]"
  using assms dispatch_events [of cmd v cfg fresh pkg] by (auto simp: dispatch_exec_def split: option.splits)

lemma exec_status: "status_or_null (dispatch_exec cfg fresh pkg) w =
    (w, case w of None \<Rightarrow> JNull | Some v \<Rightarrow> status_json (to_status pkg (v_state v)))"
  by (cases w) (simp_all add: status_or_null_def get_status_def dispatch_exec_def dispatch_def)

lemma event_keeps_world:
  "fst (event_notification (dispatch_exec cfg fresh pkg) obj e w) = w"
  by (cases e) (simp_all add: event_notification_def client_notification_def client_from_status_def exec_status Let_def)

definition announced_twice ::
  "server option exec \<Rightarrow> ((string \<rightharpoonup> json) \<Rightarrow> json) \<Rightarrow> server \<Rightarrow> server \<Rightarrow> json \<Rightarrow> bool" where
  "announced_twice exec obj v w n \<longleftrightarrow>
     (\<exists>e. v_events w = v_events v @ [StateChanged (v_state w), e] \<and>
       broadcast_events exec obj [StateChanged (v_state w), e] (Some w) = (Some w, [n]))"

lemma command_announced:
  assumes "announces cmd" "length (v_events v) + 1 < EVENT_CHANNEL_SIZE"
    and "fst (dispatch_exec cfg fresh pkg cmd (Some v)) = Some w"
    and "snd (event_notification (dispatch_exec cfg fresh pkg) obj (change_event cmd) (Some w)) = Some n"
  shows "announced_twice (dispatch_exec cfg fresh pkg) obj v w n"
proof -
  have "event_notification (dispatch_exec cfg fresh pkg) obj (change_event cmd) (Some w) = (Some w, Some n)"
    using assms(4) event_keeps_world [of cfg fresh pkg obj "change_event cmd" "Some w"] by (simp add: prod_eq_iff)
  then have "broadcast_events (dispatch_exec cfg fresh pkg) obj [StateChanged (v_state w), change_event cmd] (Some w) =
      (Some w, [n])"
    by (simp add: event_notification_def [of _ _ "StateChanged (v_state w)"])
  with exec_events [OF assms(1-3)] show ?thesis unfolding announced_twice_def by blast
qed

text \<open>The handlers, one by one.\<close>

lemma client_announced:
  assumes "handle_client (dispatch_exec cfg fresh pkg) meth i params (Some v) = (Some w, Response a (Some n))"
    and room: "length (v_events v) + 1 < EVENT_CHANNEL_SIZE"
  shows "announced_twice (dispatch_exec cfg fresh pkg) obj v w n"
  using assms(1)
  by (auto simp: handle_client_def require_str_def Let_def rpc_err_def rpc_ok_def ok_with_notification_def
      event_notification_def split: option.splits if_splits prod.splits intro!: command_announced [OF _ room, rotated])

lemma group_announced:
  assumes "handle_group (dispatch_exec cfg fresh pkg) meth i params (Some v) = (Some w, Response a (Some n))"
    and room: "length (v_events v) + 1 < EVENT_CHANNEL_SIZE"
  shows "announced_twice (dispatch_exec cfg fresh pkg) obj v w n"
  using assms(1)
  by (auto simp: handle_group_def require_str_def Let_def rpc_err_def rpc_ok_def ok_with_notification_def
      ok_with_notify_def exec_status event_notification_def notification_def
      split: option.splits if_splits prod.splits intro!: command_announced [OF _ room, rotated])

lemma stream_announced:
  assumes "handle_stream (dispatch_exec cfg fresh pkg) meth i params (Some v) = (Some w, Response a (Some n))"
    and room: "length (v_events v) + 1 < EVENT_CHANNEL_SIZE" and "meth \<noteq> ''Stream.SetProperty''"
  shows "announced_twice (dispatch_exec cfg fresh pkg) obj v w n"
  using assms(1,3)
  by (auto simp: handle_stream_def require_str_def Let_def rpc_err_def rpc_ok_def ok_with_notify_def add_stream_reply
      exec_status event_notification_def notification_def
      split: option.splits if_splits prod.splits intro!: command_announced [OF _ room, rotated])

lemma server_auth_quiet:
  "handle_server exec meth i params w \<noteq> (w', Response a (Some n))"
  "handle_auth jwt auth meth i params w \<noteq> (w', Response a (Some n))"
  by (auto simp: handle_server_def handle_auth_def require_str_def rpc_ok_def rpc_err_def split: option.splits prod.splits sum.splits)

lemma handled_broadcast:
  assumes "handle_request jwt auth (dispatch_exec cfg fresh pkg) r w = (w', Response a note)"
    and "request_command r = Some cmd"
  shows "note \<noteq> None \<longleftrightarrow> handler_broadcasts cmd"
  using request_handled [of jwt auth cfg fresh pkg r w] assms
  by (auto simp: answers_def Let_def split: if_splits)

lemma delete_announced:
  assumes "handle_request jwt auth (dispatch_exec cfg fresh pkg) r (Some v) = (Some w, Response a note)"
    and "request_command r = Some (DeleteClient cid)" and room: "length (v_events v) + 1 < EVENT_CHANNEL_SIZE"
  shows "announced_twice (dispatch_exec cfg fresh pkg) obj v w
    (notification ''Server.OnUpdate'' (status_json (to_status pkg (v_state w))))"
proof -
  have m: "request_method r = ''Server.DeleteClient''"
    using assms(2) by (auto simp: request_command_def Let_def split: if_splits option.splits Option.bind_splits)
  then have "fst (dispatch_exec cfg fresh pkg (DeleteClient cid) (Some v)) = Some w"
    using assms(1,2) by (auto simp: handle_request_def Let_def dispatch_defs handle_server_def require_str_def
        request_command_def split: option.splits)
  from command_announced [OF _ room this] show ?thesis by (simp add: event_notification_def exec_status)
qed



end
