(* ===== verification/Http.thy ===== *)
theory Http
  imports Control
begin

text \<open>
  The control API over HTTP, \<open>snapserver-rs/src/http.rs\<close>: a POST of one request, and the messages of a
  WebSocket connection, which has the state of a TCP control connection.  axum's routing and the files
  of Snapweb are outside.
\<close>

subsection \<open>POST\<close>

text \<open>The answer, the broadcast and the request for the extension handler, with the world after it.\<close>

record 'w post_result =
  po_world :: 'w
  po_answer :: json
  po_note :: "json option"
  po_event :: "json option"

definition http_jsonrpc_handler :: "env \<Rightarrow> 'w exec \<Rightarrow> string option \<Rightarrow> string \<Rightarrow> 'w \<Rightarrow> 'w post_result" where
  "http_jsonrpc_handler e exec auth_header body w =
     (case validate_bearer (en_jwt e) (en_auth e) auth_header of
        Inl err \<Rightarrow>
          \<lparr>po_world = w, po_answer = rpc_error_json JNull (- 32000) (''Unauthorized: '' @ err),
           po_note = None, po_event = None\<rparr>
      | Inr _ \<Rightarrow>
          (case en_parse e body of
             None \<Rightarrow>
               \<lparr>po_world = w, po_answer = rpc_error_json JNull (- 32700) ''Parse error'',
                po_note = None, po_event = None\<rparr>
           | Some request \<Rightarrow>
               (case handle_request (en_jwt e) (en_auth e) exec request w of
                  (w, Response response note) \<Rightarrow>
                    \<lparr>po_world = w, po_answer = response, po_note = note, po_event = None\<rparr>
                | (w, Unknown) \<Rightarrow>
                    \<lparr>po_world = w, po_answer = rpc_error_json JNull (- 32601) ''Method not found'',
                     po_note = None, po_event = Some request\<rparr>)))"

subsection \<open>WebSocket\<close>

datatype ws_message = WsText string | WsOther

definition ws_handle :: "env \<Rightarrow> 'w exec \<Rightarrow> ws_message \<Rightarrow> 'w control \<Rightarrow> 'w control" where
  "ws_handle e exec msg c =
     (case msg of
        WsOther \<Rightarrow> c
      | WsText text \<Rightarrow>
          (case en_parse e text of
             None \<Rightarrow> send_json (rpc_error_json JNull (- 32700) ''Parse error'') c
           | Some request \<Rightarrow>
               (let meth = request_method request in
                if \<not> ct_authenticated c \<and> meth \<noteq> ''Server.GetToken'' \<and> meth \<noteq> ''Server.Authenticate'' then
                  send_json (rpc_error_json (jfield ''id'' request) (- 32000) unauthorized_message) c
                else
                  (case handle_request (en_jwt e) (en_auth e) exec request (ct_world c) of
                     (w, Response response note) \<Rightarrow> on_known meth response note (c\<lparr>ct_world := w\<rparr>)
                   | (w, Unknown) \<Rightarrow> c\<lparr>ct_world := w, ct_events := ct_events c @ [(request, False)]\<rparr>))))"

text \<open>The two sources of input of a connection: messages of the peer and broadcasts of other connections.\<close>

datatype control_input = TcpLine string | WsMessage ws_message | Broadcast json

definition control_step :: "env \<Rightarrow> 'w exec \<Rightarrow> control_input \<Rightarrow> 'w control \<Rightarrow> 'w control" where
  "control_step e exec i c =
     (case i of
        TcpLine line \<Rightarrow> handle_line e exec line c
      | WsMessage msg \<Rightarrow> ws_handle e exec msg c
      | Broadcast n \<Rightarrow> on_notification n c)"

subsection \<open>The gate\<close>

text \<open>An input that presents a token which the library accepts.\<close>

definition presents_token :: "env \<Rightarrow> control_input \<Rightarrow> bool" where
  "presents_token e i =
     (case i of
        TcpLine line \<Rightarrow> authenticates e line
      | WsMessage (WsText text) \<Rightarrow> authenticates e text
      | _ \<Rightarrow> False)"

lemma gated_ws: "gated w c \<Longrightarrow> \<not> authenticates e body \<Longrightarrow> gated w (ws_handle e exec (WsText body) c)"
  using gated_request [of w c e body _ exec]
  by (cases "en_parse e body") (fastforce simp: ws_handle_def Let_def gated_def send_json_def)+

lemma gated_step:
  "gated w c \<Longrightarrow> \<not> presents_token e i \<Longrightarrow> gated w (control_step e exec i c)"
  by (auto simp: control_step_def presents_token_def gated_line gated_ws
      split: control_input.splits ws_message.splits)
    (simp_all add: ws_handle_def on_notification_def gated_def send_json_def)

lemma gated_new: "ac_enabled (en_auth e) \<Longrightarrow> gated w (control_new (en_auth e) w)"
  by (simp add: gated_def control_new_def)

text \<open>A connection over time: each input with the wall clock at which it is handled.\<close>

definition control_run :: "env \<Rightarrow> 'w exec \<Rightarrow> ((string + nat) \<times> control_input) list \<Rightarrow> 'w control \<Rightarrow> 'w control" where
  "control_run e exec inps c = fold (\<lambda>(now, i). control_step (at_time now e) exec i) inps c"

lemma gated_run:
  "\<forall>(now, i)\<in>set inps. \<not> presents_token (at_time now e) i \<Longrightarrow> gated w c \<Longrightarrow>
   gated w (control_run e exec inps c)"
  unfolding control_run_def by (induction inps arbitrary: c) (auto simp: gated_step)

text \<open>C5: with authentication on, no control surface of the server does anything for a peer without an
  accepted token.  Whatever a TCP or WebSocket connection is sent over time that presents none which
  is good at its moment, no command reaches the server, nothing is broadcast, no extension handler is
  called, and the connection stays unauthenticated; a POST without a bearer token that is accepted at
  its moment is refused before its body is read.\<close>

theorem control_gate_holds:
  assumes "ac_enabled (en_auth e)"
  shows "((\<forall>(now, i)\<in>set inps. \<not> presents_token (at_time now e) i) \<longrightarrow>
      gated w (control_run e exec inps (control_new (en_auth e) w))) \<and>
    (isl (validate_bearer (en_jwt (at_time now e)) (en_auth e) header) \<longrightarrow>
      (\<exists>msg. http_jsonrpc_handler (at_time now e) exec header body w =
        \<lparr>po_world = w, po_answer = rpc_error_json JNull (- 32000) msg, po_note = None, po_event = None\<rparr>))"
  using gated_run [OF _ gated_new [OF assms]] by (auto simp: http_jsonrpc_handler_def isl_def)

text \<open>A deletion, a guessed token, a token that has expired, and a notification; and a POST with an expired token.\<close>

lemma control_gate_holds_witness:
  "gated (0 :: nat) (control_run demo_env (\<lambda>cmd w. (Suc w, Some NoReply))
      [(Inr 1000, TcpLine ''delete''), (Inr 1001, WsMessage (WsText ''guess'')), (Inr 90000, WsMessage (WsText ''auth'')),
       (Inr 90001, Broadcast JNull), (Inr 90002, WsMessage (WsText ''delete''))]
      (control_new (en_auth demo_env) 0)) \<and>
   po_world (http_jsonrpc_handler (at_time (Inr 90000) demo_env) (\<lambda>cmd w. (Suc w, Some NoReply))
     (Some ''Bearer s3.eve'') ''delete'' (0 :: nat)) = 0"
proof -
  let ?inps = "[(Inr 1000, TcpLine ''delete''), (Inr 1001, WsMessage (WsText ''guess'')),
      (Inr 90000, WsMessage (WsText ''auth'')), (Inr 90001, Broadcast JNull), (Inr 90002, WsMessage (WsText ''delete''))]"
  have "ac_enabled (en_auth demo_env)" by (simp add: demo_env_def)
  note gate = control_gate_holds [OF this, of ?inps 0 "\<lambda>cmd w. (Suc w, Some NoReply)" "Inr 90000" "Some ''Bearer s3.eve''"
      "''delete''"]
  have "\<forall>(now, i)\<in>set ?inps. \<not> presents_token (at_time now demo_env) i"
    by (simp add: presents_token_def demo_env_def authenticates_def demo_parse_def demo_request_def
        request_method_def string_or_def jfield_def validate_token_def demo_jwt_def at_time_def clock_at_def)
  moreover have "isl (validate_bearer (en_jwt (at_time (Inr 90000) demo_env)) (en_auth demo_env) (Some ''Bearer s3.eve''))"
    by (simp add: demo_env_def validate_bearer_def validate_token_def demo_jwt_def at_time_def clock_at_def)
  ultimately show ?thesis using gate by auto
qed

text \<open>What the gate does not hold back: every notification goes to every connection, authenticated or not.\<close>

lemma notifications_pass_gate:
  "ct_out (control_step e exec (Broadcast n) c) = ct_out c @ [n]"
  by (simp add: control_step_def on_notification_def send_json_def)

end
