(* ===== verification/AudioSender.thy ===== *)
theory AudioSender
  imports Prelude
begin

text \<open>
  \<open>ChunkTimestamper\<close> (\<open>snapcast-server/src/time.rs\<close>) and \<open>F32AudioSender\<close>
  (\<open>snapcast-server/src/lib.rs\<close>).  Samples are only moved, so their type is a parameter.  Clock
  readings are arguments: \<open>now\<close> of the monotonic \<open>Instant\<close> in nanoseconds, \<open>usec\<close> of
  \<open>now_usec\<close>.  The channel's receiver takes \<open>limit\<close> frames before it is dropped (\<open>None\<close>: never),
  after which a send is an error.  A call that panics or never returns is \<open>None\<close>.
\<close>

record chunk_timestamper =
  ts_start :: int
  ts_written :: nat
  ts_rate :: u32

definition ts_new :: "int \<Rightarrow> u32 \<Rightarrow> chunk_timestamper" where
  "ts_new usec rate = \<lparr>ts_start = usec, ts_written = 0, ts_rate = rate\<rparr>"

definition ts_next :: "nat \<Rightarrow> chunk_timestamper \<Rightarrow> (int \<times> chunk_timestamper) option" where
  "ts_next frames t =
     (if ts_rate t = 0 then None
      else Some
        (wrap_i64 (ts_start t + wrap_i64 (wrap_i64 (int (ts_written t)) * 1000000) sdiv uint (ts_rate t)),
         t\<lparr>ts_written := (ts_written t + frames) mod 2 ^ 64\<rparr>))"

definition ts_reset :: "int \<Rightarrow> chunk_timestamper \<Rightarrow> chunk_timestamper" where
  "ts_reset usec t = t\<lparr>ts_start := usec, ts_written := 0\<rparr>"

datatype 'a audio_data = F32 "'a list" | Pcm "u8 list"

record 'a audio_frame =
  af_data :: "'a audio_data"
  af_timestamp :: int

record 'a f32_sender =
  fa_sent :: "'a audio_frame list"
  fa_buf :: "'a list"
  fa_chunk_samples :: nat
  fa_channels :: u16
  fa_rate :: u32
  fa_ts :: "chunk_timestamper option"
  fa_last_send :: nat

definition fa_new :: "nat \<Rightarrow> u32 \<Rightarrow> u16 \<Rightarrow> 'a f32_sender" where
  "fa_new now rate channels =
     \<lparr>fa_sent = [], fa_buf = [], fa_chunk_samples = (unat rate * 20 div 1000) * unat channels,
      fa_channels = channels, fa_rate = rate, fa_ts = None, fa_last_send = now\<rparr>"

definition channel_count :: "'a f32_sender \<Rightarrow> nat" where
  "channel_count s = max (unat (fa_channels s)) 1"

text \<open>One chunk: stamped, and sent or refused.  The result tells whether the channel took it.\<close>

definition emit_chunk ::
  "nat option \<Rightarrow> int \<Rightarrow> 'a list \<Rightarrow> 'a f32_sender \<Rightarrow> ('a f32_sender \<times> bool) option" where
  "emit_chunk limit usec chunk s =
     (let frames = (length chunk div channel_count s) mod 2 ^ 32;
          t = (case fa_ts s of Some t \<Rightarrow> t | None \<Rightarrow> ts_new usec (fa_rate s)) in
      case ts_next frames t of
        None \<Rightarrow> None
      | Some (stamp, t) \<Rightarrow>
          (let s = s\<lparr>fa_ts := Some t\<rparr>;
               closed = (case limit of None \<Rightarrow> False | Some n \<Rightarrow> n \<le> length (fa_sent s)) in
           if closed then Some (s, False)
           else Some (s\<lparr>fa_sent := fa_sent s @ [\<lparr>af_data = F32 chunk, af_timestamp = stamp\<rparr>]\<rparr>, True)))"

partial_function (option) emit_chunks ::
  "nat option \<Rightarrow> int \<Rightarrow> 'a f32_sender \<Rightarrow> ('a f32_sender \<times> bool) option" where
  "emit_chunks limit usec s =
     (if fa_chunk_samples s \<le> length (fa_buf s) then
        (case emit_chunk limit usec (take (fa_chunk_samples s) (fa_buf s))
                (s\<lparr>fa_buf := drop (fa_chunk_samples s) (fa_buf s)\<rparr>) of
           None \<Rightarrow> None
         | Some r \<Rightarrow> if snd r then emit_chunks limit usec (fst r) else Some r)
      else Some (s, True))"

definition send_samples ::
  "nat option \<Rightarrow> nat \<Rightarrow> int \<Rightarrow> 'a list \<Rightarrow> 'a f32_sender \<Rightarrow> ('a f32_sender \<times> bool) option" where
  "send_samples limit now usec samples s =
     (let gap = 500 * 10 ^ 6 < now - fa_last_send s;
          s = (if gap then s\<lparr>fa_ts := None, fa_buf := []\<rparr> else s);
          s = s\<lparr>fa_last_send := now, fa_buf := fa_buf s @ samples\<rparr> in
      emit_chunks limit usec s)"

definition flush_samples :: "nat option \<Rightarrow> int \<Rightarrow> 'a f32_sender \<Rightarrow> ('a f32_sender \<times> bool) option" where
  "flush_samples limit usec s =
     (if fa_buf s = [] then Some (s, True)
      else emit_chunk limit usec (fa_buf s) (s\<lparr>fa_buf := []\<rparr>))"

subsection \<open>Timestamps\<close>

text \<open>The timestamps of consecutive chunks have no drift: the \<open>k\<close>th is the rounded-down time of its first frame.\<close>

lemma ts_next_exact:
  assumes "ts_rate t \<noteq> 0" "\<bar>ts_start t\<bar> < 2 ^ 61" "ts_written t + frames < 2 ^ 42"
  shows "ts_next frames t =
    Some (ts_start t + int (ts_written t) * 1000000 div uint (ts_rate t),
      t\<lparr>ts_written := ts_written t + frames\<rparr>)"
proof -
  let ?r = "uint (ts_rate t)"
  have r: "0 < ?r" using assms(1) by (simp add: less_le uint_0_iff)
  have w: "int (ts_written t) < 2 ^ 42" using assms(3) by simp
  have w1: "wrap_i64 (int (ts_written t)) = int (ts_written t)"
    using w by (intro wrap_i64_id) (simp add: in_i64_def)
  have w2: "wrap_i64 (int (ts_written t) * 1000000) = int (ts_written t) * 1000000"
    using w by (intro wrap_i64_id) (simp add: in_i64_def)
  have d: "int (ts_written t) * 1000000 sdiv ?r = int (ts_written t) * 1000000 div ?r"
    using r by (simp add: signed_divide_int_def sgn_if)
  have "int (ts_written t) * 1000000 div ?r \<le> int (ts_written t) * 1000000 div 1"
    using r by (intro zdiv_mono2) simp_all
  moreover have "0 \<le> int (ts_written t) * 1000000 div ?r" using r by (simp add: pos_imp_zdiv_nonneg_iff)
  ultimately have "wrap_i64 (ts_start t + int (ts_written t) * 1000000 div ?r) =
      ts_start t + int (ts_written t) * 1000000 div ?r"
    using w assms(2) by (intro wrap_i64_id) (simp add: in_i64_def abs_less_iff)
  moreover have "(ts_written t + frames) mod 2 ^ 64 = ts_written t + frames" using assms(3) by simp
  ultimately show ?thesis using assms(1) by (simp add: ts_next_def w1 w2 d)
qed

subsection \<open>Chunking\<close>

fun samples_of :: "'a audio_frame \<Rightarrow> 'a list" where
  "samples_of f = (case af_data f of F32 xs \<Rightarrow> xs | Pcm _ \<Rightarrow> [])"

definition sent_samples :: "'a f32_sender \<Rightarrow> 'a list" where
  "sent_samples s = concat (List.map samples_of (fa_sent s))"

text \<open>
  A sender in order: whole chunks of whole frames, the \<open>k\<close>th stamped with the time of its first
  frame after the first chunk's, and a timestamper that continues the series.
\<close>

definition chunk_frames :: "'a f32_sender \<Rightarrow> nat" where
  "chunk_frames s = fa_chunk_samples s div channel_count s"

definition chunk_at :: "'a f32_sender \<Rightarrow> int \<Rightarrow> nat \<Rightarrow> 'a audio_frame \<Rightarrow> bool" where
  "chunk_at s start k f \<longleftrightarrow>
     length (samples_of f) = fa_chunk_samples s \<and>
     af_timestamp f = start + int (k * chunk_frames s) * 1000000 div uint (fa_rate s)"

definition sender_ok :: "'a f32_sender \<Rightarrow> bool" where
  "sender_ok s \<longleftrightarrow>
     fa_rate s \<noteq> 0 \<and> 0 < fa_chunk_samples s \<and> chunk_frames s < 2 ^ 32 \<and>
     (case fa_ts s of
        None \<Rightarrow> fa_sent s = []
      | Some t \<Rightarrow> ts_rate t = fa_rate s \<and> \<bar>ts_start t\<bar> < 2 ^ 61 \<and>
          ts_written t = length (fa_sent s) * chunk_frames s \<and>
          (\<forall>k<length (fa_sent s). chunk_at s (ts_start t) k (fa_sent s ! k)))"

lemma emit_chunk_ok:
  assumes ok: "sender_ok s" and usec: "\<bar>usec\<bar> < 2 ^ 61" and chunk: "length chunk = fa_chunk_samples s"
    and room: "Suc (length (fa_sent s)) * chunk_frames s < 2 ^ 42"
  obtains s' f where "emit_chunk None usec chunk s = Some (s', True)" "sender_ok s'"
    "fa_sent s' = fa_sent s @ [f]" "samples_of f = chunk" "fa_buf s' = fa_buf s"
    "fa_chunk_samples s' = fa_chunk_samples s" "fa_channels s' = fa_channels s" "fa_rate s' = fa_rate s"
    "fa_last_send s' = fa_last_send s"
proof -
  define t where "t = (case fa_ts s of Some t \<Rightarrow> t | None \<Rightarrow> ts_new usec (fa_rate s))"
  have t: "ts_rate t = fa_rate s" "\<bar>ts_start t\<bar> < 2 ^ 61"
    "ts_written t = length (fa_sent s) * chunk_frames s"
    "\<forall>k<length (fa_sent s). chunk_at s (ts_start t) k (fa_sent s ! k)"
    using ok usec by (auto simp: sender_ok_def t_def ts_new_def split: option.splits)
  have fr: "length chunk div channel_count s = chunk_frames s" "chunk_frames s mod 2 ^ 32 = chunk_frames s"
    using ok chunk by (simp_all add: chunk_frames_def sender_ok_def)
  have written: "ts_written t + chunk_frames s = Suc (length (fa_sent s)) * chunk_frames s" by (simp add: t)
  have nx: "ts_next (chunk_frames s) t =
      Some (ts_start t + int (ts_written t) * 1000000 div uint (fa_rate s),
        t\<lparr>ts_written := ts_written t + chunk_frames s\<rparr>)"
    using ts_next_exact [of t "chunk_frames s"] t ok room written by (simp add: sender_ok_def)
  define f where "f = \<lparr>af_data = F32 chunk,
    af_timestamp = ts_start t + int (ts_written t) * 1000000 div uint (fa_rate s)\<rparr>"
  define s' where "s' = s\<lparr>fa_ts := Some (t\<lparr>ts_written := ts_written t + chunk_frames s\<rparr>),
    fa_sent := fa_sent s @ [f]\<rparr>"
  have same: "chunk_frames s' = chunk_frames s" "chunk_at s' = chunk_at s"
    by (simp_all add: s'_def chunk_frames_def channel_count_def chunk_at_def fun_eq_iff)
  have "chunk_at s (ts_start t) (length (fa_sent s)) f"
    using chunk by (simp add: chunk_at_def f_def t(3))
  then have "\<forall>k<length (fa_sent s'). chunk_at s' (ts_start t) k (fa_sent s' ! k)"
    unfolding same using t(4) by (auto simp: s'_def nth_append less_Suc_eq)
  then have "sender_ok s'"
    using ok t same written by (simp add: sender_ok_def) (simp add: s'_def)
  moreover have "emit_chunk None usec chunk s = Some (s', True)"
    unfolding emit_chunk_def Let_def t_def [symmetric] fr nx by (simp add: s'_def f_def)
  ultimately show thesis by (intro that [of s' f]) (simp_all add: s'_def f_def)
qed

lemma emit_chunks_ok:
  assumes "sender_ok s" "\<bar>usec\<bar> < 2 ^ 61"
    and "(length (fa_sent s) + length (fa_buf s)) * chunk_frames s < 2 ^ 42"
  shows "\<exists>s'. emit_chunks None usec s = Some (s', True) \<and> sender_ok s' \<and>
    sent_samples s' @ fa_buf s' = sent_samples s @ fa_buf s \<and> length (fa_buf s') < fa_chunk_samples s' \<and>
    fa_last_send s' = fa_last_send s \<and> fa_chunk_samples s' = fa_chunk_samples s \<and>
    fa_channels s' = fa_channels s \<and> fa_rate s' = fa_rate s \<and>
    length (fa_sent s') + length (fa_buf s') \<le> length (fa_sent s) + length (fa_buf s)"
  using assms
proof (induction "length (fa_buf s)" arbitrary: s rule: less_induct)
  case less
  note ok = less.prems(1) and usec = less.prems(2) and room = less.prems(3)
  have pos: "0 < fa_chunk_samples s" using ok by (simp add: sender_ok_def)
  show ?case
  proof (cases "fa_chunk_samples s \<le> length (fa_buf s)")
    case False
    then have "emit_chunks None usec s = Some (s, True)" by (simp add: emit_chunks.simps)
    with False ok show ?thesis by auto
  next
    case True
    define n where "n = fa_chunk_samples s"
    define d where "d = s\<lparr>fa_buf := drop n (fa_buf s)\<rparr>"
    have d: "sender_ok d" "chunk_frames d = chunk_frames s"
      using ok by (simp_all add: d_def sender_ok_def chunk_frames_def channel_count_def chunk_at_def cong: option.case_cong)
    have "Suc (length (fa_sent d)) \<le> length (fa_sent s) + length (fa_buf s)"
      using True pos by (simp add: d_def)
    then have "Suc (length (fa_sent d)) * chunk_frames d \<le> (length (fa_sent s) + length (fa_buf s)) * chunk_frames s"
      unfolding d(2) by (rule mult_le_mono1)
    with room have r: "Suc (length (fa_sent d)) * chunk_frames d < 2 ^ 42" by linarith
    have len: "length (take n (fa_buf s)) = fa_chunk_samples d" using True by (simp add: d_def n_def)
    obtain s1 f where e: "emit_chunk None usec (take n (fa_buf s)) d = Some (s1, True)" "sender_ok s1"
      "fa_sent s1 = fa_sent d @ [f]" "samples_of f = take n (fa_buf s)" "fa_buf s1 = fa_buf d"
      "fa_chunk_samples s1 = fa_chunk_samples d" "fa_channels s1 = fa_channels d" "fa_rate s1 = fa_rate d"
      "fa_last_send s1 = fa_last_send d"
      by (rule emit_chunk_ok [OF d(1) usec len r])
    have cf: "chunk_frames s1 = chunk_frames s" using e(6,7) d(2) by (simp add: chunk_frames_def channel_count_def)
    have shorter: "length (fa_buf s1) < length (fa_buf s)" using True pos by (simp add: e(5) d_def n_def)
    have count: "length (fa_sent s1) + length (fa_buf s1) \<le> length (fa_sent s) + length (fa_buf s)"
      using True pos by (simp add: e(3,5) d_def n_def)
    then have "(length (fa_sent s1) + length (fa_buf s1)) * chunk_frames s1 < 2 ^ 42"
      unfolding cf using room by (meson le_less_trans mult_le_mono1)
    from less.hyps [OF shorter e(2) usec this] obtain s' where
      it: "emit_chunks None usec s1 = Some (s', True)" "sender_ok s'"
      "sent_samples s' @ fa_buf s' = sent_samples s1 @ fa_buf s1" "length (fa_buf s') < fa_chunk_samples s'"
      "fa_last_send s' = fa_last_send s1" "fa_chunk_samples s' = fa_chunk_samples s1"
      "fa_channels s' = fa_channels s1" "fa_rate s' = fa_rate s1"
      "length (fa_sent s') + length (fa_buf s') \<le> length (fa_sent s1) + length (fa_buf s1)" by blast
    have "emit_chunks None usec s = emit_chunks None usec s1"
      using True e(1) by (subst emit_chunks.simps) (simp add: n_def d_def)
    moreover have "sent_samples s1 @ fa_buf s1 = sent_samples s @ fa_buf s"
      using e(3,4,5) by (simp add: sent_samples_def d_def)
    ultimately show ?thesis using it e(6-9) count by (auto simp: d_def)
  qed
qed

text \<open>A series of \<open>send\<close> calls, up to the first error.\<close>

fun send_many :: "nat option \<Rightarrow> (nat \<times> int \<times> 'a list) list \<Rightarrow> 'a f32_sender \<Rightarrow> ('a f32_sender \<times> bool) option" where
  "send_many limit [] s = Some (s, True)"
| "send_many limit ((now, usec, samples) # evs) s =
     (case send_samples limit now usec samples s of
        None \<Rightarrow> None
      | Some (s, ok) \<Rightarrow> if ok then send_many limit evs s else Some (s, False))"

text \<open>Calls less than half a second apart.\<close>

fun gapless :: "nat \<Rightarrow> (nat \<times> int \<times> 'a list) list \<Rightarrow> bool" where
  "gapless last_send [] = True"
| "gapless last_send ((now, usec, samples) # evs) \<longleftrightarrow>
     now \<le> last_send + 500 * 10 ^ 6 \<and> \<bar>usec\<bar> < 2 ^ 61 \<and> gapless now evs"

definition inputs :: "(nat \<times> int \<times> 'a list) list \<Rightarrow> 'a list" where
  "inputs evs = concat (List.map (\<lambda>(now, usec, samples). samples) evs)"

lemma send_samples_ok:
  assumes "sender_ok s" "now \<le> fa_last_send s + 500 * 10 ^ 6" "\<bar>usec\<bar> < 2 ^ 61"
    and "(length (fa_sent s) + length (fa_buf s) + length samples) * chunk_frames s < 2 ^ 42"
  shows "\<exists>s'. send_samples None now usec samples s = Some (s', True) \<and> sender_ok s' \<and>
    sent_samples s' @ fa_buf s' = sent_samples s @ fa_buf s @ samples \<and> length (fa_buf s') < fa_chunk_samples s' \<and>
    fa_last_send s' = now \<and> fa_rate s' = fa_rate s \<and> chunk_frames s' = chunk_frames s \<and> fa_chunk_samples s' = fa_chunk_samples s \<and>
    length (fa_sent s') + length (fa_buf s') \<le> length (fa_sent s) + length (fa_buf s) + length samples"
proof -
  define d where "d = s\<lparr>fa_last_send := now, fa_buf := fa_buf s @ samples\<rparr>"
  have "sender_ok d" "chunk_frames d = chunk_frames s"
    using assms(1) by (simp_all add: d_def sender_ok_def chunk_frames_def channel_count_def chunk_at_def cong: option.case_cong)
  moreover have "\<not> 500 * 10 ^ 6 < now - fa_last_send s" using assms(2) by linarith
  then have "send_samples None now usec samples s = emit_chunks None usec d"
    unfolding send_samples_def Let_def d_def by (simp only: if_False)
  moreover have "(length (fa_sent d) + length (fa_buf d)) * chunk_frames d < 2 ^ 42"
    using assms(4) calculation(2) by (simp add: d_def add.assoc)
  ultimately show ?thesis
    using emit_chunks_ok [of d usec] assms(3)
    by (fastforce simp: d_def chunk_frames_def channel_count_def sent_samples_def)
qed

lemma send_many_ok:
  assumes "sender_ok s" "gapless (fa_last_send s) evs" "length (fa_buf s) < fa_chunk_samples s"
    and "(length (fa_sent s) + length (fa_buf s) + length (inputs evs)) * chunk_frames s < 2 ^ 42"
  shows "\<exists>s'. send_many None evs s = Some (s', True) \<and> sender_ok s' \<and>
    sent_samples s' @ fa_buf s' = sent_samples s @ fa_buf s @ inputs evs \<and>
    length (fa_buf s') < fa_chunk_samples s' \<and> chunk_frames s' = chunk_frames s \<and>
    fa_chunk_samples s' = fa_chunk_samples s \<and> fa_rate s' = fa_rate s"
  using assms
proof (induction evs arbitrary: s)
  case Nil
  then show ?case by (auto simp: inputs_def)
next
  case (Cons e evs)
  obtain now usec samples where e: "e = (now, usec, samples)" by (cases e) auto
  have inp: "inputs (e # evs) = samples @ inputs evs" by (simp add: inputs_def e)
  have "length (fa_sent s) + length (fa_buf s) + length samples \<le>
      length (fa_sent s) + length (fa_buf s) + length (inputs (e # evs))" by (simp add: inp)
  with Cons.prems(4) have "(length (fa_sent s) + length (fa_buf s) + length samples) * chunk_frames s < 2 ^ 42"
    by (meson le_less_trans mult_le_mono1)
  then obtain s1 where s1: "send_samples None now usec samples s = Some (s1, True)" "sender_ok s1"
    "sent_samples s1 @ fa_buf s1 = sent_samples s @ fa_buf s @ samples" "length (fa_buf s1) < fa_chunk_samples s1"
    "fa_last_send s1 = now" "chunk_frames s1 = chunk_frames s" "fa_chunk_samples s1 = fa_chunk_samples s"
    "fa_rate s1 = fa_rate s"
    "length (fa_sent s1) + length (fa_buf s1) \<le> length (fa_sent s) + length (fa_buf s) + length samples"
    using send_samples_ok [of s now usec samples] Cons.prems(1,2) by (auto simp: e)
  have "length (fa_sent s1) + length (fa_buf s1) + length (inputs evs) \<le>
      length (fa_sent s) + length (fa_buf s) + length (inputs (e # evs))" using s1(9) by (simp add: inp)
  with Cons.prems(4) have "(length (fa_sent s1) + length (fa_buf s1) + length (inputs evs)) * chunk_frames s1 < 2 ^ 42"
    unfolding s1(6) by (meson le_less_trans mult_le_mono1)
  with Cons.IH [of s1] Cons.prems(2) s1 obtain s' where
    "send_many None evs s1 = Some (s', True)" "sender_ok s'"
    "sent_samples s' @ fa_buf s' = sent_samples s1 @ fa_buf s1 @ inputs evs"
    "length (fa_buf s') < fa_chunk_samples s'" "chunk_frames s' = chunk_frames s1"
    "fa_chunk_samples s' = fa_chunk_samples s1" "fa_rate s' = fa_rate s1" by (auto simp: e)
  moreover have "sent_samples s1 @ fa_buf s1 @ inputs evs = sent_samples s @ fa_buf s @ samples @ inputs evs"
    using s1(3) by (metis append_assoc)
  ultimately show ?case unfolding inp using s1 by (auto simp: e)
qed

lemma new_sender_ok:
  assumes "50 \<le> unat rate" "channels \<noteq> 0"
  shows "sender_ok (fa_new now rate channels)" "chunk_frames (fa_new now rate channels) = unat rate * 20 div 1000"
proof -
  have c: "0 < unat channels" using assms(2) by (simp add: unat_gt_0)
  have r: "rate \<noteq> 0" using assms(1) by auto
  have p: "0 < unat rate * 20 div 1000" using assms(1) by (simp add: div_greater_zero_iff)
  show cf: "chunk_frames (fa_new now rate channels) = unat rate * 20 div 1000"
    using c by (simp add: chunk_frames_def channel_count_def fa_new_def max_def)
  have "unat rate * 20 div 1000 < 2 ^ 32" using unat_u32_less [of rate] by simp
  with c r p show "sender_ok (fa_new now rate channels)"
    unfolding sender_ok_def cf by (simp add: fa_new_def)
qed

text \<open>C12: an audio source that sends without a gap loses and reorders nothing: what was sent followed by
  what is still buffered is the input, in chunks of exactly twenty milliseconds, and the \<open>k\<close>th chunk
  carries the exact time of its first frame, rounded down, however many there are.\<close>

theorem sender_preserves_audio:
  fixes evs :: "(nat \<times> int \<times> 'a list) list"
  assumes "50 \<le> unat rate" "channels \<noteq> 0" "gapless now evs"
    and "length (inputs evs) * (unat rate * 20 div 1000) < 2 ^ 42"
    and n: "n = unat rate * 20 div 1000 * unat channels"
  shows "\<exists>s' start. send_many None evs (fa_new now rate channels) = Some (s', True) \<and>
    sent_samples s' @ fa_buf s' = inputs evs \<and> length (fa_buf s') < n \<and>
    (\<forall>k<length (fa_sent s'). length (samples_of (fa_sent s' ! k)) = n \<and>
       af_timestamp (fa_sent s' ! k) = start + int (k * (unat rate * 20 div 1000)) * 1000000 div uint rate)"
proof -
  let ?s = "fa_new now rate channels :: 'a f32_sender"
  have ok: "sender_ok ?s" "chunk_frames ?s = unat rate * 20 div 1000"
    by (rule new_sender_ok [OF assms(1,2)])+
  have new: "fa_last_send ?s = now" "fa_buf ?s = []" "fa_sent ?s = []" "fa_chunk_samples ?s = n" "fa_rate ?s = rate"
    by (simp_all add: fa_new_def n)
  have pos: "0 < n" using ok(1) unfolding sender_ok_def new(4) by (elim conjE)
  have "\<exists>s'. send_many None evs ?s = Some (s', True) \<and> sender_ok s' \<and>
    sent_samples s' @ fa_buf s' = sent_samples ?s @ fa_buf ?s @ inputs evs \<and>
    length (fa_buf s') < fa_chunk_samples s' \<and> chunk_frames s' = chunk_frames ?s \<and>
    fa_chunk_samples s' = fa_chunk_samples ?s \<and> fa_rate s' = fa_rate ?s"
    using assms(3,4) pos by (intro send_many_ok [OF ok(1)]) (simp_all add: new ok(2))
  then obtain s' where s': "send_many None evs ?s = Some (s', True)" "sender_ok s'"
    "sent_samples s' @ fa_buf s' = inputs evs" "length (fa_buf s') < n"
    "chunk_frames s' = unat rate * 20 div 1000" "fa_chunk_samples s' = n" "fa_rate s' = rate"
    by (auto simp: new ok(2) sent_samples_def)
  have "\<exists>start. \<forall>k<length (fa_sent s'). chunk_at s' start k (fa_sent s' ! k)"
    using s'(2) by (cases "fa_ts s'") (auto simp: sender_ok_def)
  then obtain start where "\<forall>k<length (fa_sent s'). chunk_at s' start k (fa_sent s' ! k)" ..
  then show ?thesis using s'(1,3,4)
    unfolding chunk_at_def s'(5-7) by (intro exI [of _ s'] exI [of _ start] conjI)
qed

text \<open>Fifty hertz in mono: chunks of one sample, here from two calls.\<close>

lemma sender_preserves_audio_witness:
  "\<exists>s' start. send_many None [(3, 7, [1, 2]), (9, 8, [3 :: nat])] (fa_new 0 50 1) = Some (s', True) \<and>
    sent_samples s' @ fa_buf s' = [1, 2, 3] \<and> length (fa_buf s') < 1 \<and>
    (\<forall>k<length (fa_sent s'). length (samples_of (fa_sent s' ! k)) = 1 \<and>
       af_timestamp (fa_sent s' ! k) = start + int (k * (unat (50 :: u32) * 20 div 1000)) * 1000000 div uint (50 :: u32))"
  using sender_preserves_audio [of 50 1 0 "[(3, 7, [1, 2]), (9, 8, [3 :: nat])]" 1]
  by (simp add: inputs_def)

lemma emit_chunk_result:
  "emit_chunk None usec chunk s = Some r \<Longrightarrow> snd r \<and> fa_chunk_samples (fst r) = fa_chunk_samples s"
  by (auto simp: emit_chunk_def Let_def split: option.splits)

lemma emit_chunks_endless:
  assumes "emit_chunks limit usec s = Some y"
  shows "\<not> (limit = None \<and> fa_chunk_samples s = 0)"
proof (rule emit_chunks.raw_induct [OF _ assms, where P =
    "\<lambda>limit usec s y. \<not> (limit = None \<and> fa_chunk_samples s = 0)"])
  fix rl :: "nat option \<Rightarrow> int \<Rightarrow> 'a f32_sender \<Rightarrow> ('a f32_sender \<times> bool) option" and limit usec s y
  assume IH: "\<And>limit usec s y. rl limit usec s = Some y \<Longrightarrow> \<not> (limit = None \<and> fa_chunk_samples s = 0)"
    and step: "(if fa_chunk_samples s \<le> length (fa_buf s) then
        (case emit_chunk limit usec (take (fa_chunk_samples s) (fa_buf s))
                (s\<lparr>fa_buf := drop (fa_chunk_samples s) (fa_buf s)\<rparr>) of
           None \<Rightarrow> None
         | Some r \<Rightarrow> if snd r then rl limit usec (fst r) else Some r)
      else Some (s, True)) = Some y"
  show "\<not> (limit = None \<and> fa_chunk_samples s = 0)"
  proof
    assume z: "limit = None \<and> fa_chunk_samples s = 0"
    define d where "d = s\<lparr>fa_buf := drop (fa_chunk_samples s) (fa_buf s)\<rparr>"
    have d0: "fa_chunk_samples d = 0" using z by (simp add: d_def)
    have "fa_chunk_samples s \<le> length (fa_buf s)" using z by simp
    then obtain r where em: "emit_chunk limit usec (take (fa_chunk_samples s) (fa_buf s)) d = Some r"
      and r: "(if snd r then rl limit usec (fst r) else Some r) = Some y"
      using step unfolding d_def [symmetric]
      by (cases "emit_chunk limit usec (take (fa_chunk_samples s) (fa_buf s)) d") simp_all
    have "snd r" "fa_chunk_samples (fst r) = 0"
      using emit_chunk_result [of usec _ d r] em d0 z by simp_all
    with IH [of limit usec "fst r" y] r z show False by simp
  qed
qed

text \<open>Below fifty samples a second, where twenty milliseconds are no sample, no call ever
  returns while the receiver lives: it emits empty chunks without end.\<close>

lemma slow_source_never_returns:
  assumes "unat rate < 50"
  shows "send_samples None now' usec samples (fa_new now rate channels) = None"
proof -
  have "unat rate * 20 div 1000 = 0" using assms by simp
  then have z: "fa_chunk_samples (fa_new now rate channels) = 0" by (simp add: fa_new_def)
  have none: "emit_chunks None usec s = None" if "fa_chunk_samples s = 0" for s :: "'a f32_sender"
    using emit_chunks_endless [of None usec s] that by (cases "emit_chunks None usec s") auto
  show ?thesis unfolding send_samples_def Let_def by (rule none) (simp add: z)
qed

lemma slow_source_never_returns_witness:
  "send_samples None 0 0 [1 :: nat] (fa_new 0 49 2) = None"
  by (rule slow_source_never_returns) simp

end
