(* ===== verification/F64.thy ===== *)
theory F64
  imports Complex_Main Prelude
begin

text \<open>
  IEEE-754 double arithmetic as Rust's \<open>f64\<close> computes it: finite values are rationals, every
  operation is the exact one rounded to the nearest double, ties to even, with overflow to an
  infinity and gradual underflow.  The sign of a zero is not represented; the sources never
  divide by a zero whose sign they could tell.  Casts to integers truncate and saturate.
\<close>

datatype f64 = FNaN | FInf bool | FNum rat

definition pow2 :: "int \<Rightarrow> rat" where
  "pow2 e = (if 0 \<le> e then 2 ^ nat e else 1 / 2 ^ nat (- e))"

fun ilog2 :: "nat \<Rightarrow> nat" where
  "ilog2 n = (if n < 2 then 0 else Suc (ilog2 (n div 2)))"

declare ilog2.simps [simp del]

text \<open>The exponent of a positive rational.\<close>

definition exponent :: "rat \<Rightarrow> int" where
  "exponent x =
     (let (n, d) = quotient_of x; k = int (ilog2 (nat n)) - int (ilog2 (nat d)) in
      if pow2 k \<le> x then k else k - 1)"

definition round_even :: "rat \<Rightarrow> int" where
  "round_even y =
     (let f = floor y; d = y - of_int f in
      if d < 1 / 2 then f else if 1 / 2 < d then f + 1 else if even f then f else f + 1)"

definition quantum :: "rat \<Rightarrow> rat" where
  "quantum x = pow2 (max (exponent \<bar>x\<bar>) (- 1022) - 52)"

definition f64_round :: "rat \<Rightarrow> f64" where
  "f64_round x =
     (if x = 0 then FNum 0
      else let r = of_int (round_even (x / quantum x)) * quantum x in
           if pow2 1024 \<le> \<bar>r\<bar> then FInf (x < 0) else FNum r)"

definition f64_of_int :: "int \<Rightarrow> f64" where
  "f64_of_int n = f64_round (of_int n)"

fun f64_neg :: "f64 \<Rightarrow> f64" where
  "f64_neg FNaN = FNaN"
| "f64_neg (FInf s) = FInf (\<not> s)"
| "f64_neg (FNum x) = FNum (- x)"

fun f64_add :: "f64 \<Rightarrow> f64 \<Rightarrow> f64" where
  "f64_add (FNum x) (FNum y) = f64_round (x + y)"
| "f64_add (FInf s) (FInf t) = (if s = t then FInf s else FNaN)"
| "f64_add (FInf s) (FNum y) = FInf s"
| "f64_add (FNum x) (FInf t) = FInf t"
| "f64_add FNaN _ = FNaN"
| "f64_add _ FNaN = FNaN"

definition f64_sub :: "f64 \<Rightarrow> f64 \<Rightarrow> f64" where
  "f64_sub x y = f64_add x (f64_neg y)"

fun f64_mul :: "f64 \<Rightarrow> f64 \<Rightarrow> f64" where
  "f64_mul (FNum x) (FNum y) = f64_round (x * y)"
| "f64_mul (FInf s) (FInf t) = FInf (s \<noteq> t)"
| "f64_mul (FInf s) (FNum y) = (if y = 0 then FNaN else FInf (s \<noteq> (y < 0)))"
| "f64_mul (FNum x) (FInf t) = (if x = 0 then FNaN else FInf (t \<noteq> (x < 0)))"
| "f64_mul FNaN _ = FNaN"
| "f64_mul _ FNaN = FNaN"

fun f64_div :: "f64 \<Rightarrow> f64 \<Rightarrow> f64" where
  "f64_div (FNum x) (FNum y) =
     (if y = 0 then (if x = 0 then FNaN else FInf (x < 0)) else f64_round (x / y))"
| "f64_div (FInf s) (FInf t) = FNaN"
| "f64_div (FInf s) (FNum y) = FInf (s \<noteq> (y < 0))"
| "f64_div (FNum x) (FInf t) = FNum 0"
| "f64_div FNaN _ = FNaN"
| "f64_div _ FNaN = FNaN"

fun f64_less :: "f64 \<Rightarrow> f64 \<Rightarrow> bool" where
  "f64_less (FNum x) (FNum y) \<longleftrightarrow> x < y"
| "f64_less (FInf s) (FInf t) \<longleftrightarrow> s \<and> \<not> t"
| "f64_less (FInf s) (FNum y) \<longleftrightarrow> s"
| "f64_less (FNum x) (FInf t) \<longleftrightarrow> \<not> t"
| "f64_less FNaN _ \<longleftrightarrow> False"
| "f64_less _ FNaN \<longleftrightarrow> False"

fun f64_abs :: "f64 \<Rightarrow> f64" where
  "f64_abs FNaN = FNaN"
| "f64_abs (FInf s) = FInf False"
| "f64_abs (FNum x) = FNum \<bar>x\<bar>"

text \<open>\<open>f64::min\<close> gives the other argument for a NaN.\<close>

fun f64_min :: "f64 \<Rightarrow> f64 \<Rightarrow> f64" where
  "f64_min FNaN y = y"
| "f64_min x FNaN = x"
| "f64_min x y = (if f64_less y x then y else x)"

text \<open>\<open>f64::round\<close>: half away from zero.\<close>

definition round_away :: "rat \<Rightarrow> int" where
  "round_away x = (if 0 \<le> x then floor (x + 1 / 2) else - floor (- x + 1 / 2))"

fun f64_round_int :: "f64 \<Rightarrow> f64" where
  "f64_round_int (FNum x) = FNum (of_int (round_away x))"
| "f64_round_int x = x"

definition trunc_rat :: "rat \<Rightarrow> int" where
  "trunc_rat x = (if 0 \<le> x then floor x else - floor (- x))"

definition clamp_int :: "int \<Rightarrow> int \<Rightarrow> int \<Rightarrow> int" where
  "clamp_int lo hi x = (if x < lo then lo else if hi < x then hi else x)"

text \<open>\<open>as\<close> casts to an integer type with the range from \<open>lo\<close> to \<open>hi\<close>.\<close>

fun f64_as_int :: "int \<Rightarrow> int \<Rightarrow> f64 \<Rightarrow> int" where
  "f64_as_int lo hi FNaN = 0"
| "f64_as_int lo hi (FInf s) = (if s then lo else hi)"
| "f64_as_int lo hi (FNum x) = clamp_int lo hi (trunc_rat x)"

definition f64_as_i64 :: "f64 \<Rightarrow> int" where
  "f64_as_i64 = f64_as_int (- (2 ^ 63)) (2 ^ 63 - 1)"

definition f64_as_i32 :: "f64 \<Rightarrow> int" where
  "f64_as_i32 = f64_as_int (- (2 ^ 31)) (2 ^ 31 - 1)"

definition f64_as_u32 :: "f64 \<Rightarrow> nat" where
  "f64_as_u32 x = nat (f64_as_int 0 (2 ^ 32 - 1) x)"

subsection \<open>Rounding\<close>

lemma pow2_pos [simp]: "0 < pow2 e"
  by (simp add: pow2_def)

lemma pow2_nonzero [simp]: "pow2 e \<noteq> 0"
  using pow2_pos [of e] by linarith

lemma int_diff_nat: "\<exists>m n. (a :: int) = int m - int n"
proof (cases "0 \<le> a")
  case True
  then have "a = int (nat a) - int 0" by simp
  then show ?thesis by blast
next
  case False
  then have "a = int 0 - int (nat (- a))" by simp
  then show ?thesis by blast
qed

lemma pow2_add: "pow2 (a + b) = pow2 a * pow2 b"
proof -
  have pos: "pow2 (int m) = 2 ^ m" "pow2 (- int m) = 1 / 2 ^ m" for m
    by (simp_all add: pow2_def)
  have mixed: "pow2 (int m - int n) = 2 ^ m / 2 ^ n" for m n
  proof (cases "n \<le> m")
    case True
    then have "pow2 (int m - int n) = 2 ^ (m - n)" by (simp add: pow2_def nat_diff_distrib)
    with True show ?thesis by (simp add: power_diff)
  next
    case False
    then have "pow2 (int m - int n) = 1 / 2 ^ (n - m)" by (simp add: pow2_def nat_diff_distrib)
    with False show ?thesis by (simp add: power_diff)
  qed
  obtain m n where a: "a = int m - int n" using int_diff_nat by blast
  obtain p q where b: "b = int p - int q" using int_diff_nat by blast
  have sum: "a + b = int (m + p) - int (n + q)" by (simp add: a b)
  have "pow2 (a + b) = 2 ^ (m + p) / 2 ^ (n + q)" unfolding sum by (rule mixed)
  moreover have "pow2 a = 2 ^ m / 2 ^ n" unfolding a by (rule mixed)
  moreover have "pow2 b = 2 ^ p / 2 ^ q" unfolding b by (rule mixed)
  ultimately show ?thesis by (simp add: power_add)
qed

lemma pow2_Suc: "pow2 (e + 1) = 2 * pow2 e"
  by (simp add: pow2_add) (simp add: pow2_def)

lemma pow2_mono: "a \<le> b \<Longrightarrow> pow2 a \<le> pow2 b"
proof -
  assume "a \<le> b"
  then obtain n where b: "b = a + int n" using zle_iff_zadd by blast
  have "1 \<le> pow2 (int n)" by (simp add: pow2_def)
  then show ?thesis using pow2_pos [of a] by (simp add: b pow2_add)
qed

lemma pow2_nat: "0 \<le> e \<Longrightarrow> pow2 e = of_int (2 ^ nat e)"
  by (simp add: pow2_def)

lemma ilog2_bounds: "0 < n \<Longrightarrow> 2 ^ ilog2 n \<le> n \<and> n < 2 ^ (ilog2 n + 1)"
proof (induction n rule: ilog2.induct)
  case (1 n)
  show ?case
  proof (cases "n < 2")
    case True
    with 1 show ?thesis by (simp add: ilog2.simps [of n])
  next
    case False
    with 1 have "2 ^ ilog2 (n div 2) \<le> n div 2 \<and> n div 2 < 2 ^ (ilog2 (n div 2) + 1)" by simp
    with False show ?thesis by (simp add: ilog2.simps [of n]) linarith
  qed
qed

lemma exponent_bounds:
  assumes "0 < x"
  shows "pow2 (exponent x) \<le> x \<and> x < pow2 (exponent x + 1)"
proof -
  obtain n d where q: "quotient_of x = (n, d)" by (cases "quotient_of x")
  have d: "0 < d" using q by (rule quotient_of_denom_pos)
  have x: "x = of_int n / of_int d" using q by (rule quotient_of_div)
  with assms d have n: "0 < n" by (simp add: zero_less_divide_iff)
  let ?a = "ilog2 (nat n)" and ?b = "ilog2 (nat d)"
  have na: "2 ^ ?a \<le> nat n" "nat n < 2 ^ (?a + 1)" using ilog2_bounds [of "nat n"] n by auto
  have db: "2 ^ ?b \<le> nat d" "nat d < 2 ^ (?b + 1)" using ilog2_bounds [of "nat d"] d by auto
  have n1: "(2 :: rat) ^ ?a \<le> of_int n" and n2: "of_int n < (2 :: rat) ^ (?a + 1)"
    using na n by (metis of_nat_le_iff of_nat_less_iff of_nat_nat less_imp_le of_nat_numeral of_nat_power of_int_of_nat_eq)+
  have d1: "(2 :: rat) ^ ?b \<le> of_int d" and d2: "of_int d < (2 :: rat) ^ (?b + 1)"
    using db d by (metis of_nat_le_iff of_nat_less_iff of_nat_nat less_imp_le of_nat_numeral of_nat_power of_int_of_nat_eq)+
  have p: "pow2 (int m) = 2 ^ m" for m by (simp add: pow2_def)
  let ?k = "int ?a - int ?b"
  have kb: "pow2 ?k * 2 ^ ?b = 2 ^ ?a"
    using pow2_add [of ?k "int ?b"] by (simp add: p)
  have up: "x < pow2 (?k + 1)"
  proof -
    have "of_int n < pow2 (?k + 1) * of_int d"
    proof -
      have "of_int n < 2 * (pow2 ?k * 2 ^ ?b)" using n2 by (simp add: kb)
      also have "\<dots> \<le> pow2 (?k + 1) * of_int d"
        using d1 pow2_pos [of ?k] by (simp add: pow2_Suc)
      finally show ?thesis .
    qed
    with d show ?thesis by (simp add: x divide_less_eq)
  qed
  have low: "pow2 (?k - 1) \<le> x"
  proof -
    have half: "pow2 ?k = 2 * pow2 (?k - 1)" using pow2_Suc [of "?k - 1"] by simp
    have "pow2 (?k - 1) * of_int d \<le> pow2 (?k - 1) * 2 ^ (?b + 1)"
      using d2 pow2_pos [of "?k - 1"] by simp
    also have "\<dots> = 2 ^ ?a" using kb half by simp
    also have "\<dots> \<le> of_int n" by (rule n1)
    finally show ?thesis using d by (simp add: x le_divide_eq)
  qed
  show ?thesis
    using up low by (simp add: exponent_def q Let_def)
qed

text \<open>The error of rounding to an integer, and to a double.\<close>

lemma round_even_error: "\<bar>of_int (round_even y) - y\<bar> \<le> 1 / 2"
proof -
  define f d where "f = floor y" and "d = y - of_int f"
  have d: "0 \<le> d" "d < 1" using floor_correct [of y] unfolding f_def d_def by linarith+
  have y: "y = of_int f + d" by (simp add: d_def)
  have "round_even y = f \<and> d \<le> 1 / 2 \<or> round_even y = f + 1 \<and> 1 / 2 \<le> d"
    unfolding round_even_def Let_def f_def [symmetric] d_def [symmetric] by auto
  then show ?thesis using d y by auto
qed

lemma round_even_int [simp]: "round_even (of_int n) = n"
  by (simp add: round_even_def)

lemma quantum_pos [simp]: "0 < quantum x"
  by (simp add: quantum_def)

lemma round_quantum_error:
  "\<bar>of_int (round_even (x / quantum x)) * quantum x - x\<bar> \<le> quantum x / 2"
proof -
  have nz: "quantum x \<noteq> 0" using quantum_pos [of x] by (rule less_imp_neq [symmetric])
  have eq: "of_int (round_even (x / quantum x)) * quantum x - x =
      (of_int (round_even (x / quantum x)) - x / quantum x) * quantum x"
    unfolding left_diff_distrib using nz by simp
  have "\<bar>of_int (round_even (x / quantum x)) - x / quantum x\<bar> * quantum x \<le> 1 / 2 * quantum x"
    using round_even_error [of "x / quantum x"] by (intro mult_right_mono) (simp_all add: less_imp_le)
  then show ?thesis unfolding eq by (simp add: abs_mult abs_of_pos)
qed

lemma f64_round_error:
  assumes "f64_round x = FNum r"
  shows "\<bar>r - x\<bar> \<le> quantum x / 2"
proof (cases "x = 0")
  case True
  with assms show ?thesis by (simp add: f64_round_def less_imp_le)
next
  case False
  with assms have "r = of_int (round_even (x / quantum x)) * quantum x"
    by (simp add: f64_round_def Let_def split: if_splits)
  then show ?thesis using round_quantum_error [of x] by simp
qed

text \<open>Sizes: the quantum, and the exactness of small dyadic numbers.\<close>

lemma exponent_less: "0 < x \<Longrightarrow> x < pow2 j \<Longrightarrow> exponent x < j"
proof (rule ccontr)
  assume "0 < x" "x < pow2 j" "\<not> exponent x < j"
  then have "pow2 j \<le> pow2 (exponent x)" by (intro pow2_mono) simp
  with exponent_bounds [OF \<open>0 < x\<close>] \<open>x < pow2 j\<close> show False by linarith
qed

lemma quantum_le: "x \<noteq> 0 \<Longrightarrow> \<bar>x\<bar> < pow2 j \<Longrightarrow> - 1021 \<le> j \<Longrightarrow> quantum x \<le> pow2 (j - 53)"
  unfolding quantum_def using exponent_less [of "\<bar>x\<bar>" j] by (intro pow2_mono) simp

lemma no_overflow:
  assumes "\<bar>x\<bar> < pow2 j" "j \<le> 1023" "- 1021 \<le> j"
  shows "\<exists>r. f64_round x = FNum r"
proof (cases "x = 0")
  case True
  then show ?thesis by (simp add: f64_round_def)
next
  case False
  define r where "r = of_int (round_even (x / quantum x)) * quantum x"
  have "\<bar>r - x\<bar> \<le> quantum x / 2" unfolding r_def by (rule round_quantum_error)
  moreover have "quantum x \<le> pow2 j"
    using quantum_le [OF False assms(1,3)] pow2_mono [of "j - 53" j] by linarith
  moreover have "2 * pow2 j \<le> pow2 1024" using pow2_mono [of "j + 1" 1024] assms(2) by (simp add: pow2_Suc)
  ultimately have "\<bar>r\<bar> < pow2 1024" using assms(1) by linarith
  with False show ?thesis by (auto simp: f64_round_def Let_def r_def)
qed

lemma f64_round_bounded:
  assumes "\<bar>x\<bar> < pow2 j" "j \<le> 1023" "- 1021 \<le> j"
  shows "\<exists>r. f64_round x = FNum r \<and> \<bar>r - x\<bar> \<le> pow2 (j - 54)"
proof -
  obtain r where r: "f64_round x = FNum r" using no_overflow [OF assms] by blast
  have "\<bar>r - x\<bar> \<le> pow2 (j - 54)"
  proof (cases "x = 0")
    case True
    with r show ?thesis by (simp add: f64_round_def less_imp_le)
  next
    case False
    have "quantum x \<le> 2 * pow2 (j - 54)"
      using quantum_le [OF False assms(1,3)] pow2_Suc [of "j - 54"] by simp
    with f64_round_error [OF r] show ?thesis by linarith
  qed
  with r show ?thesis by blast
qed

lemma f64_round_exact:
  assumes "x * pow2 (int k) = of_int m" "\<bar>m\<bar> < 2 ^ 53" "k \<le> 1000"
  shows "f64_round x = FNum x"
proof (cases "x = 0")
  case True
  then show ?thesis by (simp add: f64_round_def)
next
  case False
  have x: "x = of_int m * pow2 (- int k)"
  proof -
    have "pow2 (int k) * pow2 (- int k) = pow2 0" by (simp flip: pow2_add)
    then have "x = x * pow2 (int k) * pow2 (- int k)" by (simp add: pow2_def mult.assoc)
    then show ?thesis by (simp only: assms(1))
  qed
  have m: "\<bar>of_int m\<bar> < (2 :: rat) ^ 53"
    using assms(2) by (metis of_int_abs of_int_less_iff of_int_numeral of_int_power)
  have "\<bar>x\<bar> = \<bar>of_int m\<bar> * pow2 (- int k)" by (simp add: x abs_mult abs_of_pos)
  also have "\<dots> < pow2 53 * pow2 (- int k)"
    using m by (intro mult_strict_right_mono) (simp_all add: pow2_def)
  also have "\<dots> = pow2 (53 - int k)" by (simp flip: pow2_add)
  finally have small: "\<bar>x\<bar> < pow2 (53 - int k)" .
  define q where "q = max (exponent \<bar>x\<bar>) (- 1022) - 52"
  have qx: "quantum x = pow2 q" by (simp add: quantum_def q_def)
  have q: "q \<le> - int k" unfolding q_def
    using exponent_less [OF _ small] False assms(3) by simp
  have "x / quantum x = of_int m * pow2 (- int k - q)"
  proof -
    have "x = of_int m * pow2 (- int k - q) * pow2 q"
      using pow2_add [of "- int k - q" q] x by (simp add: mult.assoc)
    then show ?thesis unfolding qx by (metis nonzero_mult_div_cancel_right pow2_nonzero)
  qed
  also have "\<dots> = of_int (m * 2 ^ nat (- int k - q))"
    using q by (simp add: pow2_nat)
  finally have i: "x / quantum x = of_int (m * 2 ^ nat (- int k - q))" .
  have "of_int (round_even (x / quantum x)) * quantum x = x"
    unfolding i round_even_int unfolding i [symmetric]
    using quantum_pos [of x, THEN less_imp_neq, symmetric] by simp
  moreover have "\<bar>x\<bar> < pow2 1024"
    using small pow2_mono [of "53 - int k" 1024] by linarith
  ultimately show ?thesis using False by (simp add: f64_round_def Let_def)
qed

lemma f64_of_int_exact: "\<bar>n\<bar> < 2 ^ 53 \<Longrightarrow> f64_of_int n = FNum (of_int n)"
  unfolding f64_of_int_def by (rule f64_round_exact [of _ 0 n]) (simp_all add: pow2_def)

text \<open>Rounding keeps a number within a relative error of \<open>2 ^ - 53\<close>.\<close>

lemma f64_round_between:
  assumes "lo \<le> x" "x \<le> hi" "pow2 (- 1000) \<le> lo" "hi < pow2 1000"
  shows "\<exists>r. f64_round x = FNum r \<and> lo * (1 - pow2 (- 53)) \<le> r \<and> r \<le> hi * (1 + pow2 (- 53))"
proof -
  have pos: "0 < x" using assms(1,3) by (meson less_le_trans pow2_pos)
  have xb: "\<bar>x\<bar> < pow2 1000" using assms(2,4) pos by simp
  obtain r where r: "f64_round x = FNum r" using no_overflow [OF xb] by auto
  have e: "pow2 (exponent x) \<le> x" using exponent_bounds [OF pos] by simp
  have "pow2 (- 1000) < pow2 (exponent x + 1)"
    using exponent_bounds [OF pos] assms(1,3) by (meson le_less_trans)
  then have "- 1000 < exponent x + 1" using pow2_mono [of "exponent x + 1" "- 1000"] by (meson leD leI)
  then have "quantum x = pow2 (exponent x - 52)" using pos by (simp add: quantum_def max_def)
  also have "\<dots> = 2 * (pow2 (exponent x) * pow2 (- 53))"
    using pow2_add [of "exponent x" "- 53"] pow2_Suc [of "exponent x - 53"] by simp
  finally have q: "quantum x = 2 * (pow2 (exponent x) * pow2 (- 53))" .
  have "pow2 (exponent x) * pow2 (- 53) \<le> x * pow2 (- 53)"
    using e by (intro mult_right_mono) (simp_all add: less_imp_le)
  moreover have "\<bar>r - x\<bar> \<le> pow2 (exponent x) * pow2 (- 53)"
    using f64_round_error [OF r] unfolding q by simp
  ultimately have "\<bar>r - x\<bar> \<le> x * pow2 (- 53)" by (rule order_trans [rotated])
  then have err: "r \<le> x + x * pow2 (- 53)" "x - x * pow2 (- 53) \<le> r"
    unfolding abs_le_iff by (simp_all add: algebra_simps)
  have "lo * (1 - pow2 (- 53)) \<le> x * (1 - pow2 (- 53))"
    using assms(1) by (intro mult_right_mono) (simp_all add: pow2_def)
  moreover have "x * (1 + pow2 (- 53)) \<le> hi * (1 + pow2 (- 53))"
    using assms(2) by (intro mult_right_mono) (simp_all add: pow2_def)
  moreover have "x * (1 - pow2 (- 53)) = x - x * pow2 (- 53)" "x * (1 + pow2 (- 53)) = x + x * pow2 (- 53)"
    by (simp_all add: algebra_simps)
  ultimately have "lo * (1 - pow2 (- 53)) \<le> r \<and> r \<le> hi * (1 + pow2 (- 53))"
    using err by (metis order_trans)
  with r show ?thesis by blast
qed

text \<open>The same with a coarse error, for chains of operations on numerals.\<close>

lemma f64_round_within:
  assumes "lo \<le> x" "x \<le> hi" "1 / 10 ^ 30 \<le> lo" "hi \<le> 10 ^ 30"
    and lo': "lo' \<le> lo * (1 - 1 / 10 ^ 15)" and hi': "hi * (1 + 1 / 10 ^ 15) \<le> hi'"
  obtains r where "f64_round x = FNum r" "lo' \<le> r" "r \<le> hi'"
proof -
  have e: "pow2 (- 53) \<le> 1 / 10 ^ 15" by (simp add: pow2_def)
  have "(1 :: rat) / 2 ^ 1000 \<le> 1 / 2 ^ 100" by (intro divide_left_mono power_increasing) simp_all
  then have "pow2 (- 1000) \<le> 1 / 2 ^ 100" by (simp add: pow2_def)
  also have "(1 :: rat) / 2 ^ 100 \<le> 1 / 10 ^ 30" by simp
  finally have l: "pow2 (- 1000) \<le> lo" using assms(3) by (rule order_trans)
  have "(10 :: rat) ^ 30 < 2 ^ 100" by simp
  also have "(2 :: rat) ^ 100 \<le> 2 ^ 1000" by (intro power_increasing) simp_all
  finally have h: "hi < pow2 1000" using assms(4) by (simp add: pow2_def)
  have "0 \<le> lo" "0 \<le> hi" using l pow2_pos [of "- 1000"] assms(1,2)
    by (meson less_imp_le order_trans)+
  then have "lo * (1 - 1 / 10 ^ 15) \<le> lo * (1 - pow2 (- 53))" "hi * (1 + pow2 (- 53)) \<le> hi * (1 + 1 / 10 ^ 15)"
    using e by (intro mult_left_mono; simp)+
  then show thesis using f64_round_between [OF assms(1,2) l h] lo' hi' that by (meson order_trans)
qed

lemma round_even_neg: "round_even (- y) = - round_even y"
proof -
  define f d where "f = floor y" and "d = y - of_int f"
  have d: "0 \<le> d" "d < 1" using floor_correct [of y] unfolding f_def d_def by linarith+
  have y: "y = of_int f + d" by (simp add: d_def)
  have "floor (- y) = (if d = 0 then - f else - f - 1)"
    unfolding y using d by (intro floor_unique) auto
  then have fl: "floor (- y) = (if d = 0 then - f else - f - 1)" .
  have "round_even y = (if d < 1 / 2 then f else if 1 / 2 < d then f + 1 else if even f then f else f + 1)"
    by (simp add: round_even_def Let_def f_def d_def)
  moreover have "- y - of_int (- f - 1) = 1 - d" "- y - of_int (- f) = - d" by (simp_all add: y)
  ultimately show ?thesis using d fl
    by (auto simp: round_even_def Let_def y)
qed

lemma f64_round_neg: "f64_round (- x) = f64_neg (f64_round x)"
proof (cases "x = 0")
  case True
  then show ?thesis by (simp add: f64_round_def)
next
  case False
  have "quantum (- x) = quantum x" by (simp add: quantum_def)
  with False show ?thesis by (auto simp: f64_round_def Let_def round_even_neg)
qed

text \<open>Truncated division of whole numbers is exact: the double quotient cannot reach the next integer.\<close>

lemma f64_floor_div:
  assumes "0 \<le> n" "n < 2 ^ 51" "0 < d" "d \<le> 2 ^ 20"
  shows "f64_as_u32 (f64_div (FNum (of_int n)) (FNum (of_int d))) = nat (min (n div d) (2 ^ 32 - 1))"
proof -
  define q where "q = n div d"
  have qn: "q * d \<le> n" "n < (q + 1) * d" "0 \<le> q"
  proof -
    have "n div d * d + n mod d = n" by simp
    moreover have "0 \<le> n mod d" "n mod d < d" using assms(3) by simp_all
    ultimately show "q * d \<le> n" "n < (q + 1) * d" unfolding q_def distrib_right by linarith+
    show "0 \<le> q" using assms(1,3) by (simp add: q_def pos_imp_zdiv_nonneg_iff)
  qed
  define x where "x = (of_int n / of_int d :: rat)"
  have "\<exists>r. f64_round x = FNum r \<and> of_int q \<le> r \<and> r < of_int q + 1"
  proof (cases "n = q * d")
    case True
    then have "x = of_int q" using assms(3) by (simp add: x_def)
    moreover have "q * 1 \<le> q * d" using qn(3) assms(3) by (intro mult_left_mono) simp_all
    then have "\<bar>q\<bar> < 2 ^ 53" using qn assms(2) by simp
    then have "f64_round (of_int q) = FNum (of_int q)"
      using f64_of_int_exact [of q] by (simp add: f64_of_int_def)
    ultimately show ?thesis by simp
  next
    case False
    with qn(1) have "q * d + 1 \<le> n" "n + 1 \<le> (q + 1) * d" using qn(2) by linarith+
    then have b: "of_int (q * d + 1) \<le> (of_int n :: rat)" "of_int (n + 1) \<le> (of_int ((q + 1) * d) :: rat)"
      by (simp_all only: of_int_le_iff)
    have d: "(0 :: rat) < of_int d" using assms(3) by simp
    have xl: "of_int q + 1 / of_int d \<le> x" and xu: "x + 1 / of_int d \<le> of_int q + 1"
    proof -
      have "of_int q + 1 / of_int d = of_int (q * d + 1) / (of_int d :: rat)"
        using d by (simp add: add_divide_distrib)
      then show "of_int q + 1 / of_int d \<le> x"
        unfolding x_def using divide_right_mono [OF b(1), of "of_int d"] d by simp
      have "x + 1 / of_int d = of_int (n + 1) / of_int d" by (simp add: x_def add_divide_distrib)
      moreover have "of_int q + 1 = of_int ((q + 1) * d) / (of_int d :: rat)" using d by simp
      ultimately show "x + 1 / of_int d \<le> of_int q + 1"
        using divide_right_mono [OF b(2), of "of_int d"] d by simp
    qed
    have "of_int n \<le> (of_int (2 ^ 51) :: rat)" using assms(2) by (simp only: of_int_le_iff)
    then have "of_int n * pow2 (- 53) < 1" by (simp add: pow2_def)
    then have "of_int n * pow2 (- 53) / of_int d < 1 / of_int d"
      using d by (intro divide_strict_right_mono)
    then have e: "x * pow2 (- 53) < 1 / of_int d" by (simp add: x_def)
    have "(1 :: rat) / 2 ^ 1000 \<le> 1 / 2 ^ 20" by (intro divide_left_mono power_increasing) simp_all
    also have "(1 :: rat) / 2 ^ 20 \<le> 1 / of_int d"
    proof -
      have "(of_int d :: rat) \<le> of_int (2 ^ 20)" using assms(4) by (simp only: of_int_le_iff)
      then show ?thesis using d by (intro divide_left_mono) simp_all
    qed
    also have "1 / of_int d \<le> x" using xl qn(3) by (meson add_increasing of_int_0_le_iff order_refl order_trans)
    finally have lo: "pow2 (- 1000) \<le> x" by (simp add: pow2_def)
    have "0 \<le> (of_int n :: rat)" "(1 :: rat) \<le> of_int d" using assms(1,3) by simp_all
    then have "of_int n * 1 \<le> of_int n * (of_int d :: rat)" by (intro mult_left_mono)
    then have "x \<le> of_int n" unfolding x_def divide_le_eq using d by simp
    also have "\<dots> \<le> 2 ^ 51" using \<open>of_int n \<le> (of_int (2 ^ 51) :: rat)\<close> by simp
    also have "(2 :: rat) ^ 51 < 2 ^ 1000" by (intro power_strict_increasing) simp_all
    finally have hi: "x < pow2 1000" by (simp add: pow2_def)
    obtain r where r: "f64_round x = FNum r" "x * (1 - pow2 (- 53)) \<le> r" "r \<le> x * (1 + pow2 (- 53))"
      using f64_round_between [OF order_refl order_refl lo hi] by blast
    have "of_int q \<le> r" "r < of_int q + 1"
      using r(2,3) xl xu e by (simp_all add: right_diff_distrib distrib_left)
    with r(1) show ?thesis by blast
  qed
  then obtain r where r: "f64_round x = FNum r" "of_int q \<le> r" "r < of_int q + 1" by blast
  have "floor r = q" using r(2,3) by (intro floor_unique) simp_all
  moreover have "0 \<le> r" using r(2) qn(3) by (meson of_int_0_le_iff order_trans)
  ultimately have "trunc_rat r = q" by (simp add: trunc_rat_def)
  then show ?thesis using r(1) assms(3) qn(3)
    by (auto simp: x_def [symmetric] f64_as_u32_def clamp_int_def q_def)
qed

end
