(* ===== verification/F32.thy ===== *)
theory F32
  imports F64
begin

text \<open>
  Single-precision arithmetic, the type \<open>f32\<close> of the sources: values as in theory \<open>F64\<close>, rounded to
  24 bits of precision.  The lemmas at the end are what the sample conversions need: scaling a whole
  number of a sample's range down and up again is exact, although both operations round.
\<close>

type_synonym f32 = f64

definition quantum32 :: "rat \<Rightarrow> rat" where
  "quantum32 x = pow2 (max (exponent \<bar>x\<bar>) (- 126) - 23)"

definition f32_round :: "rat \<Rightarrow> f32" where
  "f32_round x =
     (if x = 0 then FNum 0
      else let r = of_int (round_even (x / quantum32 x)) * quantum32 x in
           if pow2 128 \<le> \<bar>r\<bar> then FInf (x < 0) else FNum r)"

definition f32_of_int :: "int \<Rightarrow> f32" where
  "f32_of_int n = f32_round (of_int n)"

fun f32_mul :: "f32 \<Rightarrow> f32 \<Rightarrow> f32" where
  "f32_mul (FNum x) (FNum y) = f32_round (x * y)"
| "f32_mul x y = f64_mul x y"

fun f32_div :: "f32 \<Rightarrow> f32 \<Rightarrow> f32" where
  "f32_div (FNum x) (FNum y) =
     (if y = 0 then (if x = 0 then FNaN else FInf (x < 0)) else f32_round (x / y))"
| "f32_div x y = f64_div x y"

text \<open>\<open>f32::clamp\<close> keeps a NaN.\<close>

definition f32_clamp :: "f32 \<Rightarrow> f32 \<Rightarrow> f32 \<Rightarrow> f32" where
  "f32_clamp lo hi x = (let y = (if f64_less x lo then lo else x) in if f64_less hi y then hi else y)"

text \<open>\<open>f32::from_le_bytes\<close>, from the bits.\<close>

definition f32_of_bits :: "nat \<Rightarrow> f32" where
  "f32_of_bits b =
     (let s = 2 ^ 31 \<le> b; e = (b div 2 ^ 23) mod 256; m = b mod 2 ^ 23;
          v = (if e = 0 then of_nat m * pow2 (- 149) else of_nat (2 ^ 23 + m) * pow2 (int e - 150)) in
      if e = 255 then (if m = 0 then FInf s else FNaN) else FNum (if s then - v else v))"

definition f32_to_bits :: "f32 \<Rightarrow> nat" where
  "f32_to_bits v =
     (case v of
        FNaN \<Rightarrow> 2143289344
      | FInf s \<Rightarrow> (if s then 2 ^ 31 else 0) + 255 * 2 ^ 23
      | FNum x \<Rightarrow>
          if x = 0 then 0
          else let e = max (exponent \<bar>x\<bar>) (- 126); m = nat (floor (\<bar>x\<bar> / pow2 (e - 23))) in
               (if x < 0 then 2 ^ 31 else 0) + (if m < 2 ^ 23 then m else nat (e + 126) * 2 ^ 23 + m))"

subsection \<open>Rounding\<close>

lemma exponent_eq: "pow2 e \<le> x \<Longrightarrow> x < pow2 (e + 1) \<Longrightarrow> exponent x = e"
proof -
  assume a: "pow2 e \<le> x" "x < pow2 (e + 1)"
  then have "0 < x" using pow2_pos [of e] by linarith
  note b = exponent_bounds [OF this]
  have "exponent x < e + 1" using \<open>0 < x\<close> a(2) by (rule exponent_less)
  moreover have "e < exponent x + 1"
    using b a(1) pow2_mono [of "exponent x + 1" e] by (cases "exponent x + 1 \<le> e") simp_all
  ultimately show ?thesis by simp
qed

lemma quantum32_pos [simp]: "0 < quantum32 x"
  by (simp add: quantum32_def)

lemma f32_round_neg: "f32_round (- x) = f64_neg (f32_round x)"
proof (cases "x = 0")
  case True
  then show ?thesis by (simp add: f32_round_def)
next
  case False
  have "quantum32 (- x) = quantum32 x" by (simp add: quantum32_def)
  with False show ?thesis by (auto simp: f32_round_def Let_def round_even_neg)
qed

lemma round_even_near: "\<bar>y - of_int j\<bar> < 1 / 2 \<Longrightarrow> round_even y = j"
proof -
  assume "\<bar>y - of_int j\<bar> < 1 / 2"
  with round_even_error [of y] have "\<bar>of_int (round_even y) - of_int j :: rat\<bar> < 1" by linarith
  then have "\<bar>of_int (round_even y - j) :: rat\<bar> < of_int 1" by simp
  then have "\<bar>round_even y - j\<bar> < 1" by (simp only: of_int_less_iff flip: of_int_abs)
  then show ?thesis by simp
qed

text \<open>No whole number is nearer than the rounded one.\<close>

lemma round_even_nearest: "\<bar>of_int (round_even y) - y\<bar> \<le> \<bar>of_int j - y\<bar>"
proof (cases "round_even y = j")
  case False
  then have "1 \<le> \<bar>j - round_even y\<bar>" by simp
  then have "(1 :: rat) \<le> \<bar>of_int j - of_int (round_even y)\<bar>"
    by (metis of_int_1 of_int_abs of_int_diff of_int_le_iff)
  with round_even_error [of y] show ?thesis by linarith
qed simp

text \<open>A number near a multiple of its quantum is rounded to it.\<close>

lemma f32_round_hits:
  assumes e: "pow2 e \<le> y" "y < pow2 (e + 1)" "- 126 \<le> e" "e \<le> 126"
    and near: "\<bar>y - of_int j * pow2 (e - 23)\<bar> < pow2 (e - 24)"
  shows "f32_round y = FNum (of_int j * pow2 (e - 23))"
proof -
  have "0 < y" using e(1) pow2_pos [of e] by linarith
  then have q: "quantum32 y = pow2 (e - 23)"
    using exponent_eq [OF e(1,2)] e(3) by (simp add: quantum32_def)
  have half: "pow2 (e - 23) = 2 * pow2 (e - 24)" using pow2_Suc [of "e - 24"] by simp
  have "\<bar>y / pow2 (e - 23) - of_int j\<bar> * pow2 (e - 23) < 1 / 2 * pow2 (e - 23)"
  proof -
    have "\<bar>y / pow2 (e - 23) - of_int j\<bar> * pow2 (e - 23) = \<bar>(y / pow2 (e - 23) - of_int j) * pow2 (e - 23)\<bar>"
      by (simp add: abs_mult abs_of_pos)
    also have "\<dots> = \<bar>y - of_int j * pow2 (e - 23)\<bar>" by (simp add: left_diff_distrib)
    finally show ?thesis using near half by simp
  qed
  then have "round_even (y / pow2 (e - 23)) = j"
    by (intro round_even_near) simp
  moreover have "\<bar>of_int j * pow2 (e - 23)\<bar> < pow2 128"
  proof -
    have "pow2 (e + 1) + pow2 (e - 24) \<le> pow2 128"
      using pow2_Suc [of 127] pow2_mono [of "e + 1" 127] pow2_mono [of "e - 24" 127] e(4) by simp
    then show ?thesis using near e(2) \<open>0 < y\<close> by linarith
  qed
  ultimately show ?thesis using \<open>0 < y\<close> q by (simp add: f32_round_def Let_def)
qed

lemma f32_round_hits_eq:
  assumes "pow2 e \<le> y" "y < pow2 (e + 1)" "- 126 \<le> e" "e \<le> 126"
    and "z = of_int j * pow2 (e - 23)" "\<bar>y - z\<bar> < pow2 (e - 24)"
  shows "f32_round y = FNum z"
  using f32_round_hits [OF assms(1-4), of j] assms(5,6) by simp

text \<open>Rounding takes the nearest multiple of the quantum.\<close>

lemma f32_round_nearest:
  assumes e: "pow2 e \<le> y" "y < pow2 (e + 1)" "- 126 \<le> e" "e \<le> 126"
  obtains r where "f32_round y = FNum r" "\<bar>r - y\<bar> \<le> pow2 (e - 24)"
    "\<forall>j. \<bar>r - y\<bar> \<le> \<bar>of_int j * pow2 (e - 23) - y\<bar>"
proof -
  have "0 < y" using e(1) pow2_pos [of e] by linarith
  then have q: "quantum32 y = pow2 (e - 23)"
    using exponent_eq [OF e(1,2)] e(3) by (simp add: quantum32_def)
  define r where "r = of_int (round_even (y / pow2 (e - 23))) * pow2 (e - 23)"
  have half: "pow2 (e - 23) = 2 * pow2 (e - 24)" using pow2_Suc [of "e - 24"] by simp
  have scale: "\<bar>of_int j - y / pow2 (e - 23)\<bar> * pow2 (e - 23) = \<bar>of_int j * pow2 (e - 23) - y\<bar>" for j
  proof -
    have "\<bar>of_int j - y / pow2 (e - 23)\<bar> * pow2 (e - 23) = \<bar>(of_int j - y / pow2 (e - 23)) * pow2 (e - 23)\<bar>"
      by (simp add: abs_mult abs_of_pos)
    then show ?thesis by (simp add: left_diff_distrib)
  qed
  have "\<bar>r - y\<bar> \<le> 1 / 2 * pow2 (e - 23)"
    unfolding r_def scale [symmetric] by (intro mult_right_mono round_even_error) (simp add: less_imp_le)
  then have err: "\<bar>r - y\<bar> \<le> pow2 (e - 24)" using half by simp
  have near: "\<bar>r - y\<bar> \<le> \<bar>of_int j * pow2 (e - 23) - y\<bar>" for j
    unfolding r_def scale [symmetric] by (intro mult_right_mono round_even_nearest) (simp add: less_imp_le)
  have "pow2 (e + 1) + pow2 (e - 24) \<le> pow2 128"
    using pow2_Suc [of 127] pow2_mono [of "e + 1" 127] pow2_mono [of "e - 24" 127] e(4) by simp
  then have "\<bar>r\<bar> < pow2 128" using err e(2) \<open>0 < y\<close> by linarith
  then have "f32_round y = FNum r"
    using \<open>0 < y\<close> q by (simp add: f32_round_def Let_def r_def)
  then show thesis using err near that by blast
qed

subsection \<open>Scaling samples\<close>

lemma pow2_int [simp]: "pow2 (int k) = 2 ^ k"
  by (simp add: pow2_def)

lemma pow2_0 [simp]: "pow2 0 = 1"
  by (simp add: pow2_def)

lemma pow2_split: "a + b = c \<Longrightarrow> pow2 a * pow2 b = pow2 c"
  by (simp flip: pow2_add)

lemma f32_round_int: "1 \<le> a \<Longrightarrow> a < 2 ^ 24 \<Longrightarrow> f32_round (of_int a) = FNum (of_int a)"
proof -
  assume a: "1 \<le> a" "a < 2 ^ 24"
  let ?k = "exponent (of_int a)"
  have pos: "0 < (of_int a :: rat)" using a by simp
  note b = exponent_bounds [OF pos]
  have "(of_int a :: rat) < pow2 24" using a(2) by (simp add: pow2_def)
  with pos have k: "?k < 24" by (rule exponent_less)
  have "0 \<le> ?k"
  proof (rule ccontr)
    assume "\<not> 0 \<le> ?k"
    then have "pow2 (?k + 1) \<le> pow2 0" by (intro pow2_mono) simp
    with b a(1) show False by simp
  qed
  have z: "of_int a = of_int (a * 2 ^ nat (23 - ?k)) * pow2 (?k - 23)"
    using k pow2_split [of "23 - ?k" "?k - 23" 0] by (simp add: pow2_nat mult.assoc)
  show ?thesis
    using b k \<open>0 \<le> ?k\<close> by (intro f32_round_hits_eq [OF _ _ _ _ z]) simp_all
qed

text \<open>The quotient of a whole number by \<open>2^m - 1\<close>, and its exponent.\<close>

lemma sample_scale_bounds:
  fixes a :: int
  assumes k: "2 ^ k \<le> a" "a < 2 ^ (k + 1)" and a: "a < 2 ^ m - 1"
  shows "k < m \<and> pow2 (int k - int m) \<le> of_int a / (2 ^ m - 1) \<and>
    of_int a / (2 ^ m - 1) < pow2 (int k - int m + 1)"
proof -
  have "(2 :: int) ^ k < 2 ^ m" using k(1) a by linarith
  then have km: "k < m" by simp
  have M: "0 < (2 ^ m - 1 :: rat)" using km by simp
  have "pow2 (int k - int m) * (2 ^ m - 1) \<le> pow2 (int k - int m) * 2 ^ m"
    by (intro mult_left_mono) (simp_all add: less_imp_le)
  also have "\<dots> = of_int (2 ^ k)" using pow2_split [of "int k - int m" "int m" "int k"] by simp
  also have "\<dots> \<le> of_int a" using k(1) by (simp only: of_int_le_iff)
  finally have lo: "pow2 (int k - int m) \<le> of_int a / (2 ^ m - 1)" using M by (simp add: le_divide_eq)
  have "a * 2 ^ m < (2 ^ m - 1) * 2 ^ (k + 1)"
  proof (cases "k + 1 = m")
    case True
    with a show ?thesis by simp
  next
    case False
    with km have "(2 :: int) ^ (k + 1) < 2 ^ m" by (intro power_strict_increasing) simp_all
    moreover have "a * 2 ^ m \<le> (2 ^ (k + 1) - 1) * 2 ^ m"
      using k(2) by (intro mult_right_mono) simp_all
    ultimately show ?thesis by (simp add: algebra_simps)
  qed
  then have "(of_int (a * 2 ^ m) :: rat) < of_int ((2 ^ m - 1) * 2 ^ (k + 1))" by (simp only: of_int_less_iff)
  then have "of_int a * 2 ^ m < ((2 ^ m - 1) * 2 ^ (k + 1) :: rat)" by simp
  also have "\<dots> = (2 ^ m - 1) * (pow2 (int k - int m + 1) * 2 ^ m)"
  proof -
    have "int k - int m + 1 + int m = int (k + 1)" by simp
    from pow2_split [OF this] show ?thesis by (simp only: pow2_int)
  qed
  finally have "of_int a / (2 ^ m - 1) < pow2 (int k - int m + 1)"
    using M by (simp add: divide_less_eq mult.commute)
  with km lo show ?thesis by blast
qed

text \<open>A power of two is scaled down almost without error: \<open>2^(k - m) (1 + 2^(-m))\<close> is very near.\<close>

lemma scale_gap:
  assumes "13 \<le> m" "m \<le> 23"
  shows "\<exists>j. \<bar>of_int j * pow2 (int k - int m - 23) - 2 ^ k / (2 ^ m - 1)\<bar> * (2 ^ m - 1) < pow2 (int k - 25)"
proof -
  let ?e = "int k - int m"
  let ?P = "pow2 (?e - int m)" and ?j = "2 ^ 23 + 2 ^ (23 - m) :: int" and ?M = "2 ^ m - 1 :: rat"
  have "(2 :: rat) ^ 13 \<le> 2 ^ m" using assms(1) by (intro power_increasing) simp_all
  then have M: "0 < ?M" by simp
  have "of_int ?j * pow2 (?e - 23) = pow2 23 * pow2 (?e - 23) + pow2 (23 - int m) * pow2 (?e - 23)"
    using assms(2) by (simp add: pow2_def nat_diff_distrib distrib_right)
  also have "\<dots> = pow2 ?e + ?P" by (simp add: pow2_split)
  also have "pow2 ?e = ?P * 2 ^ m" using pow2_split [of "?e - int m" "int m" ?e] by simp
  finally have j: "of_int ?j * pow2 (?e - 23) = ?P * 2 ^ m + ?P" .
  have "?P * 2 ^ m = pow2 ?e" "pow2 ?e * 2 ^ m = 2 ^ k"
    using pow2_split [of "?e - int m" "int m" ?e] pow2_split [of ?e "int m" "int k"] by simp_all
  then have a: "2 ^ k = ?P * (2 ^ m * 2 ^ m)" by (metis mult.assoc)
  have "(of_int ?j * pow2 (?e - 23) - 2 ^ k / ?M) * ?M = (?P * 2 ^ m + ?P) * ?M - 2 ^ k"
    using M unfolding j by (simp add: left_diff_distrib)
  also have "\<dots> = - ?P" unfolding a by (simp add: algebra_simps)
  finally have "\<bar>of_int ?j * pow2 (?e - 23) - 2 ^ k / ?M\<bar> * ?M = ?P"
    using M abs_mult [of "of_int ?j * pow2 (?e - 23) - 2 ^ k / ?M" ?M] abs_of_pos [OF pow2_pos [of "?e - int m"]]
    by simp
  moreover have "?P < pow2 (int k - 25)"
  proof -
    have "pow2 (?e - int m + 1) \<le> pow2 (int k - 25)" using assms(1) by (intro pow2_mono) simp
    then show ?thesis using pow2_pos [of "?e - int m"] unfolding pow2_Suc by linarith
  qed
  ultimately show ?thesis by (metis (no_types, lifting))
qed

text \<open>A number within half a unit in the last place of a whole one is rounded to it.\<close>

lemma f32_round_whole:
  fixes a :: int
  assumes k: "2 ^ k \<le> a" "a < 2 ^ (k + 1)" "k < 23" and y: "\<bar>y - of_int a\<bar> < pow2 (int k - 24)"
    and corner: "a = 2 ^ k \<Longrightarrow> \<bar>y - of_int a\<bar> < pow2 (int k - 25)"
  shows "f32_round y = FNum (of_int a)"
proof -
  have small: "pow2 (int k - 24) \<le> 1" using pow2_mono [of "int k - 24" 0] k(3) by simp
  have "(of_int (a + 1) :: rat) \<le> of_int (2 ^ (k + 1))" using k(2) by (simp only: of_int_le_iff)
  then have upper: "y < pow2 (int k + 1)" using y small by (simp add: pow2_Suc)
  show ?thesis
  proof (cases "2 ^ k \<le> y")
    case True
    have z: "of_int a = of_int (a * 2 ^ nat (23 - int k)) * pow2 (int k - 23)"
      using k(3) pow2_split [of "23 - int k" "int k - 23" 0] by (simp add: pow2_nat mult.assoc)
    show ?thesis using True upper y k(3) by (intro f32_round_hits_eq [OF _ _ _ _ z]) simp_all
  next
    case False
    have "a = 2 ^ k"
    proof (rule ccontr)
      assume "a \<noteq> 2 ^ k"
      then have "2 ^ k + 1 \<le> a" using k(1) by simp
      then have "(of_int (2 ^ k + 1) :: rat) \<le> of_int a" by (simp only: of_int_le_iff)
      then show False using False y small by simp
    qed
    then have ar: "(of_int a :: rat) = 2 ^ k" and gap: "\<bar>y - of_int a\<bar> < pow2 (int k - 25)"
      using corner by simp_all
    have "pow2 (int k - 1) \<le> y"
    proof -
      have "pow2 (int k - 25) \<le> pow2 (int k - 1)" by (rule pow2_mono) simp
      moreover have "2 ^ k = 2 * pow2 (int k - 1)" using pow2_Suc [of "int k - 1"] by simp
      ultimately show ?thesis using gap ar by linarith
    qed
    moreover have "of_int a = of_int (2 ^ 24) * pow2 (int k - 1 - 23)"
      using pow2_split [of 24 "int k - 24" "int k"] ar by (simp add: pow2_def)
    ultimately show ?thesis
      using False gap k(3) by (intro f32_round_hits_eq [of "int k - 1"]) simp_all
  qed
qed

lemma scale_inner:
  assumes m: "13 \<le> m" "m \<le> 23" and a: "0 < a" "a < 2 ^ m - 1"
  shows "\<exists>x. f32_round (of_int a / (2 ^ m - 1)) = FNum x \<and> 0 \<le> x \<and> x \<le> 1 \<and>
    f32_round (x * (2 ^ m - 1)) = FNum (of_int a)"
proof -
  let ?M = "2 ^ m - 1 :: rat" and ?x0 = "of_int a / (2 ^ m - 1) :: rat"
  obtain k where "2 ^ k \<le> nat a" "nat a < 2 ^ (k + 1)" using ilog2_bounds [of "nat a"] a(1) by auto
  then have k: "2 ^ k \<le> a" "a < 2 ^ (k + 1)"
    using a(1) by (metis int_nat_eq less_imp_le of_nat_le_iff of_nat_less_iff of_nat_numeral of_nat_power)+
  let ?e = "int k - int m"
  note sb = sample_scale_bounds [OF k a(2)]
  then have e: "- 126 \<le> ?e" "?e \<le> 126" using m(2) by simp_all
  obtain x where x: "f32_round ?x0 = FNum x" "\<bar>x - ?x0\<bar> \<le> pow2 (?e - 24)"
    and near: "\<forall>j. \<bar>x - ?x0\<bar> \<le> \<bar>of_int j * pow2 (?e - 23) - ?x0\<bar>"
    using sb by (auto intro: f32_round_nearest [OF _ _ e])
  have "(of_int a :: rat) < of_int (2 ^ m - 1)" using a(2) by (simp only: of_int_less_iff)
  then have M: "of_int a < ?M" "0 < ?M" using a(1) by (simp_all add: order.strict_trans [of 0 "of_int a"])
  then have x0: "0 < ?x0" "?x0 < 1" using a(1) by simp_all
  have "of_int (2 ^ nat (23 - ?e)) * pow2 (?e - 23) = 1"
    using sb pow2_split [of "23 - ?e" "?e - 23" 0] by (simp add: pow2_nat)
  then have x1: "x \<le> 1" using near [rule_format, of "2 ^ nat (23 - ?e)"] x0 by simp
  have x2: "0 \<le> x" using near [rule_format, of 0] x0 by linarith
  have y_err: "\<bar>x * ?M - of_int a\<bar> = \<bar>x - ?x0\<bar> * ?M"
  proof -
    have "x * ?M - of_int a = (x - ?x0) * ?M" using M by (simp add: left_diff_distrib)
    then show ?thesis using M by (simp add: abs_mult)
  qed
  have "f32_round (x * ?M) = FNum (of_int a)"
  proof (rule f32_round_whole [OF k])
    show "k < 23" using sb m(2) by simp
    have "\<bar>x * ?M - of_int a\<bar> \<le> pow2 (?e - 24) * ?M"
      unfolding y_err using x(2) M by (intro mult_right_mono) simp_all
    also have "\<dots> < pow2 (?e - 24) * 2 ^ m" by (intro mult_strict_left_mono) simp_all
    also have "\<dots> = pow2 (int k - 24)" using pow2_split [of "?e - 24" "int m" "int k - 24"] by simp
    finally show "\<bar>x * ?M - of_int a\<bar> < pow2 (int k - 24)" .
    assume ak: "a = 2 ^ k"
    obtain j where j: "\<bar>of_int j * pow2 (?e - 23) - 2 ^ k / ?M\<bar> * ?M < pow2 (int k - 25)"
      using scale_gap [OF m] by blast
    have "\<bar>x * ?M - of_int a\<bar> \<le> \<bar>of_int j * pow2 (?e - 23) - ?x0\<bar> * ?M"
      unfolding y_err using near M by (intro mult_right_mono) simp_all
    also have "\<dots> < pow2 (int k - 25)" using j ak by simp
    finally show "\<bar>x * ?M - of_int a\<bar> < pow2 (int k - 25)" .
  qed
  with x(1) x2 x1 show ?thesis by blast
qed

text \<open>Both ends included: from \<open>0\<close> to \<open>2^m - 1\<close>.\<close>

lemma scale_exact:
  assumes m: "13 \<le> m" "m \<le> 23" and a: "0 \<le> a" "a \<le> 2 ^ m - 1"
  shows "\<exists>x. f32_round (of_int a / (2 ^ m - 1)) = FNum x \<and> 0 \<le> x \<and> x \<le> 1 \<and>
    f32_round (x * (2 ^ m - 1)) = FNum (of_int a)"
proof -
  consider "a = 0" | "0 < a" "a < 2 ^ m - 1" | "a = 2 ^ m - 1" using a by linarith
  then show ?thesis
  proof cases
    case 1
    then show ?thesis by (simp add: f32_round_def)
  next
    case 2
    then show ?thesis by (rule scale_inner [OF m])
  next
    case 3
    have "(2 :: int) ^ 13 \<le> 2 ^ m" "(2 :: int) ^ m \<le> 2 ^ 23" using power_increasing [OF m(1), of "2 :: int"] power_increasing [OF m(2), of "2 :: int"] by simp_all
    then have "f32_round (of_int a) = FNum (of_int a)" "f32_round (of_int 1) = FNum (of_int 1)"
      unfolding 3 by (intro f32_round_int; simp)+
    moreover have "(2 :: rat) ^ 13 \<le> 2 ^ m" using m(1) by (intro power_increasing) simp_all
    ultimately show ?thesis using 3 by auto
  qed
qed

lemma f32_of_int_exact: "\<bar>a\<bar> < 2 ^ 24 \<Longrightarrow> f32_of_int a = FNum (of_int a)"
proof -
  assume a: "\<bar>a\<bar> < 2 ^ 24"
  consider "a = 0" | "1 \<le> a" | "1 \<le> - a" by linarith
  then show ?thesis
  proof cases
    case 3
    with a f32_round_int [of "- a"] f32_round_neg [of "of_int (- a)"] show ?thesis
      by (simp add: f32_of_int_def)
  qed (use a in \<open>simp_all add: f32_of_int_def f32_round_int, simp add: f32_round_def\<close>)
qed

text \<open>A sample divided by full scale, and multiplied by it again.\<close>

lemma sample_exact:
  assumes m: "13 \<le> m" "m \<le> 23" and a: "\<bar>a\<bar> \<le> 2 ^ m - 1"
  shows "\<exists>x. f32_div (f32_of_int a) (FNum (2 ^ m - 1)) = FNum x \<and> - 1 \<le> x \<and> x \<le> 1 \<and>
    f32_mul (FNum x) (FNum (2 ^ m - 1)) = FNum (of_int a)"
proof -
  have "(2 :: int) ^ m \<le> 2 ^ 23" using m(2) by (intro power_increasing) simp_all
  then have i: "f32_of_int a = FNum (of_int a)" using a by (intro f32_of_int_exact) simp
  have "(2 :: rat) ^ 13 \<le> 2 ^ m" using m(1) by (intro power_increasing) simp_all
  then have nz: "(2 ^ m - 1 :: rat) \<noteq> 0" by simp
  show ?thesis
  proof (cases "0 \<le> a")
    case True
    then obtain x where "f32_round (of_int a / (2 ^ m - 1)) = FNum x" "0 \<le> x" "x \<le> 1"
      "f32_round (x * (2 ^ m - 1)) = FNum (of_int a)"
      using scale_exact [OF m, of a] a by auto
    with nz show ?thesis by (intro exI [of _ x]) (simp add: i)
  next
    case False
    then obtain x where x: "f32_round (of_int (- a) / (2 ^ m - 1)) = FNum x" "0 \<le> x" "x \<le> 1"
      "f32_round (x * (2 ^ m - 1)) = FNum (of_int (- a))"
      using scale_exact [OF m, of "- a"] a by auto
    then have "f32_round (of_int a / (2 ^ m - 1)) = FNum (- x)" "f32_round (- x * (2 ^ m - 1)) = FNum (of_int a)"
      using f32_round_neg [of "of_int (- a) / (2 ^ m - 1)"] f32_round_neg [of "x * (2 ^ m - 1)"] by simp_all
    with nz x show ?thesis by (intro exI [of _ "- x"]) (simp add: i)
  qed
qed

text \<open>Rounding keeps what is above one above one.\<close>

lemma f32_round_above:
  assumes "1 \<le> y" "y < 2 ^ 24"
  shows "\<exists>r. f32_round y = FNum r \<and> 1 \<le> r"
proof -
  let ?e = "exponent y"
  have y: "0 < y" using assms(1) by linarith
  note b = exponent_bounds [OF y]
  have e: "?e < 24" using exponent_less [OF y, of 24] assms(2) by (simp add: pow2_def)
  have e0: "0 \<le> ?e"
  proof (rule ccontr)
    assume "\<not> 0 \<le> ?e"
    then have "pow2 (?e + 1) \<le> pow2 0" by (intro pow2_mono) simp
    with b assms(1) show False by simp
  qed
  have e': "- 126 \<le> ?e" "?e \<le> 126" using e e0 by simp_all
  obtain r where r: "f32_round y = FNum r" and near: "\<forall>j. \<bar>r - y\<bar> \<le> \<bar>of_int j * pow2 (?e - 23) - y\<bar>"
    using b by (auto intro: f32_round_nearest [OF _ _ e'])
  have "of_int (2 ^ nat (23 - ?e)) * pow2 (?e - 23) = 1"
    using e pow2_split [of "23 - ?e" "?e - 23" 0] by (simp add: pow2_nat)
  then have "\<bar>r - y\<bar> \<le> y - 1" using near [rule_format, of "2 ^ nat (23 - ?e)"] assms(1) by simp
  then show ?thesis using r by auto
qed

end
