(* ===== verification/SampleFormat.thy ===== *)
theory SampleFormat
  imports Strings
begin

text \<open>
  \<open>SampleFormat\<close> of \<open>snapcast-proto/src/sample_format.rs\<close>: the fields at their widths, the size
  computations (which wrap at 16 bits in a release build), the parser and the printer.
\<close>

record sample_format =
  sf_rate :: u32
  sf_bits :: u16
  sf_channels :: u16

datatype sample_format_error = InvalidFormat string | InvalidNumber num_error

definition sf_new :: "u32 \<Rightarrow> u16 \<Rightarrow> u16 \<Rightarrow> sample_format" where
  "sf_new rate bits channels = \<lparr>sf_rate = rate, sf_bits = bits, sf_channels = channels\<rparr>"

definition sf_default :: sample_format where
  "sf_default = sf_new 0 0 0"

definition sample_size :: "sample_format \<Rightarrow> u16" where
  "sample_size f = (if sf_bits f = 24 then 4 else sf_bits f div 8)"

definition frame_size :: "sample_format \<Rightarrow> u16" where
  "frame_size f = sf_channels f * sample_size f"

definition is_initialized :: "sample_format \<Rightarrow> bool" where
  "is_initialized f \<longleftrightarrow> sf_rate f \<noteq> 0 \<or> sf_bits f \<noteq> 0 \<or> sf_channels f \<noteq> 0"

definition sf_parse_u32 :: "string \<Rightarrow> sample_format_error + nat" where
  "sf_parse_u32 p =
     (if p = ''*'' then Inr 0
      else case parse_unsigned (2 ^ 32 - 1) p of Inl e \<Rightarrow> Inl (InvalidNumber e) | Inr n \<Rightarrow> Inr n)"

definition sf_parse_u16 :: "string \<Rightarrow> string \<Rightarrow> sample_format_error + nat" where
  "sf_parse_u16 s p =
     (if p = ''*'' then Inr 0
      else case parse_unsigned (2 ^ 32 - 1) p of
             Inl e \<Rightarrow> Inl (InvalidNumber e)
           | Inr n \<Rightarrow> if n < 2 ^ 16 then Inr n else Inl (InvalidFormat s))"

definition sf_from_str :: "string \<Rightarrow> sample_format_error + sample_format" where
  "sf_from_str s =
     (case split_on CHR '':'' s of
        [p0, p1, p2] \<Rightarrow>
          (case sf_parse_u32 p0 of
             Inl e \<Rightarrow> Inl e
           | Inr rate \<Rightarrow>
               (case sf_parse_u16 s p1 of
                  Inl e \<Rightarrow> Inl e
                | Inr bits \<Rightarrow>
                    (case sf_parse_u16 s p2 of
                       Inl e \<Rightarrow> Inl e
                     | Inr channels \<Rightarrow>
                         Inr (sf_new (word_of_nat rate) (word_of_nat bits) (word_of_nat channels)))))
      | _ \<Rightarrow> Inl (InvalidFormat s))"

definition sf_show :: "sample_format \<Rightarrow> string" where
  "sf_show f = show_nat (unat (sf_rate f)) @ CHR '':'' #
     show_nat (unat (sf_bits f)) @ CHR '':'' # show_nat (unat (sf_channels f))"

definition DEFAULT_SAMPLE_FORMAT :: sample_format where
  "DEFAULT_SAMPLE_FORMAT = sf_new 48000 16 2"

definition DEFAULT_SAMPLE_FORMAT_STRING :: string where
  "DEFAULT_SAMPLE_FORMAT_STRING = ''48000:16:2''"

lemma show_nat_not_star [simp]: "show_nat n \<noteq> ''*''"
  using show_nat_hd [of n "CHR ''*''" "[]"] by (auto simp: to_digit_def)

lemma colon_notin_show [simp]: "CHR '':'' \<notin> set (show_nat n)"
  by (rule to_digit_notin_show) (simp add: to_digit_def)

lemma split_three:
  "c \<notin> set p0 \<Longrightarrow> c \<notin> set p1 \<Longrightarrow> c \<notin> set p2 \<Longrightarrow>
   split_on c (p0 @ c # p1 @ c # p2) = [p0, p1, p2]"
  by (simp add: split_on_append split_on_whole)

text \<open>A number that the parser returned for a field, and the pieces it came from.\<close>

lemma sf_parse_u16_bound: "sf_parse_u16 s p = Inr n \<Longrightarrow> n < 2 ^ 16"
  by (auto simp: sf_parse_u16_def split: if_splits sum.splits)

lemma sf_parse_u32_show: "sf_parse_u32 (show_nat (unat (w :: u32))) = Inr (unat w)"
  using unat_u32_le [of w] by (simp add: sf_parse_u32_def)

lemma sf_parse_u16_show: "sf_parse_u16 s (show_nat (unat (w :: u16))) = Inr (unat w)"
  using unat_u16_less [of w] by (simp add: sf_parse_u16_def)

subsection \<open>Properties\<close>

text \<open>Every sample format is read back from the string it is displayed as.\<close>

lemma sample_format_roundtrip: "sf_from_str (sf_show f) = Inr f"
  by (cases f) (simp add: sf_from_str_def sf_show_def split_three sf_parse_u32_show
      sf_parse_u16_show sf_new_def)

text \<open>What one field of the string stands for: the wildcard, or a number below the bound.\<close>

definition sf_field :: "nat \<Rightarrow> string \<Rightarrow> nat \<Rightarrow> bool" where
  "sf_field bound p n \<longleftrightarrow>
     (if p = ''*'' then n = 0 else parse_unsigned (2 ^ 32 - 1) p = Inr n \<and> n < bound)"

lemma sf_parse_u32_field: "sf_parse_u32 p = Inr n \<longleftrightarrow> sf_field (2 ^ 32) p n"
  by (auto simp: sf_parse_u32_def sf_field_def split: sum.splits dest!: parse_unsigned_bound)

lemma sf_parse_u16_field: "sf_parse_u16 s p = Inr n \<longleftrightarrow> sf_field (2 ^ 16) p n"
  by (auto simp: sf_parse_u16_def sf_field_def split: sum.splits)

lemma sf_field_bound: "sf_field b p n \<Longrightarrow> 0 < b \<Longrightarrow> n < b"
  by (auto simp: sf_field_def split: if_splits)

text \<open>The parser accepts exactly the strings with three fields that are wildcards or numbers in
  the range of their field, and no value is truncated to its width.\<close>

lemma sample_format_accepts:
  "sf_from_str s = Inr f \<longleftrightarrow>
     (\<exists>p0 p1 p2. split_on CHR '':'' s = [p0, p1, p2] \<and>
        sf_field (2 ^ 32) p0 (unat (sf_rate f)) \<and>
        sf_field (2 ^ 16) p1 (unat (sf_bits f)) \<and>
        sf_field (2 ^ 16) p2 (unat (sf_channels f)))" (is "?l \<longleftrightarrow> ?r")
proof
  assume ?l
  then obtain p0 p1 p2 r b c where s: "split_on CHR '':'' s = [p0, p1, p2]"
    and p: "sf_parse_u32 p0 = Inr r" "sf_parse_u16 s p1 = Inr b" "sf_parse_u16 s p2 = Inr c"
    and f: "f = sf_new (word_of_nat r) (word_of_nat b) (word_of_nat c)"
    by (auto simp: sf_from_str_def split: list.splits sum.splits)
  then have "r < 2 ^ 32" "b < 2 ^ 16" "c < 2 ^ 16"
    using sf_field_bound by (auto simp: sf_parse_u32_field sf_parse_u16_field)
  with s p f show ?r
    by (simp add: sf_parse_u32_field sf_parse_u16_field sf_new_def unat_of_nat)
next
  assume ?r
  then obtain p0 p1 p2 where s: "split_on CHR '':'' s = [p0, p1, p2]"
    and p: "sf_parse_u32 p0 = Inr (unat (sf_rate f))"
      "sf_parse_u16 s p1 = Inr (unat (sf_bits f))" "sf_parse_u16 s p2 = Inr (unat (sf_channels f))"
    by (auto simp: sf_parse_u32_field sf_parse_u16_field)
  then show ?l by (cases f) (simp add: sf_from_str_def sf_new_def)
qed

end
