(* ===== verification/PcmChunk.thy ===== *)
theory PcmChunk
  imports SampleFormat Timeval
begin

text \<open>
  Chunks of decoded audio and the loop that reads frames across them
  (\<open>snapcast-client/src/stream.rs\<close>, \<open>PcmChunk\<close> and \<open>Stream::read_next\<close>).  A call that does not
  return is \<open>None\<close>: it panics on a slice out of range, or its loop never ends.  The queue of
  chunks refines a first-in first-out queue of bytes, \<open>pending\<close>.
\<close>

datatype sample_encoding = PcmInt | Float32

record pcm_chunk =
  pc_timestamp :: timeval
  pc_data :: "u8 list"
  pc_format :: sample_format
  pc_encoding :: sample_encoding
  pc_read_pos :: nat

definition pc_new_with_encoding ::
  "timeval \<Rightarrow> u8 list \<Rightarrow> sample_format \<Rightarrow> sample_encoding \<Rightarrow> pcm_chunk" where
  "pc_new_with_encoding timestamp data format encoding =
     \<lparr>pc_timestamp = timestamp, pc_data = data, pc_format = format, pc_encoding = encoding,
      pc_read_pos = 0\<rparr>"

definition pc_new :: "timeval \<Rightarrow> u8 list \<Rightarrow> sample_format \<Rightarrow> pcm_chunk" where
  "pc_new timestamp data format = pc_new_with_encoding timestamp data format PcmInt"

definition start_usec :: "pcm_chunk \<Rightarrow> int" where
  "start_usec c = to_usec (pc_timestamp c)"

definition duration_usec :: "pcm_chunk \<Rightarrow> int" where
  "duration_usec c =
     (if frame_size (pc_format c) = 0 \<or> sf_rate (pc_format c) = 0 then 0
      else
        let frames = int (length (pc_data c) div unat (frame_size (pc_format c))) in
        wrap_i64 (frames * 1000000) sdiv uint (sf_rate (pc_format c)))"

text \<open>Slices \<open>xs[lo..hi]\<close> and \<open>xs[off..off + src.len()].copy_from_slice(src)\<close>.\<close>

definition slice :: "nat \<Rightarrow> nat \<Rightarrow> 'a list \<Rightarrow> 'a list option" where
  "slice lo hi xs = (if lo \<le> hi \<and> hi \<le> length xs then Some (take (hi - lo) (drop lo xs)) else None)"

definition write_at :: "nat \<Rightarrow> 'a list \<Rightarrow> 'a list \<Rightarrow> 'a list option" where
  "write_at off src xs =
     (if off + length src \<le> length xs
      then Some (take off xs @ src @ drop (off + length src) xs) else None)"

definition read_frames :: "pcm_chunk \<Rightarrow> u8 list \<Rightarrow> nat \<Rightarrow> (pcm_chunk \<times> u8 list \<times> nat) option" where
  "read_frames c output frames =
     (let fs = unat (frame_size (pc_format c)) in
      if fs = 0 then Some (c, output, 0)
      else
        let available_bytes = (2 ^ 64 + length (pc_data c) - pc_read_pos c) mod 2 ^ 64;
            to_read = min (min frames (available_bytes div fs)) (length output div fs);
            bytes = to_read * fs in
        (case slice (pc_read_pos c) (pc_read_pos c + bytes) (pc_data c) of
           None \<Rightarrow> None
         | Some src \<Rightarrow>
             map_option (\<lambda>output. (c\<lparr>pc_read_pos := pc_read_pos c + bytes\<rparr>, output, to_read))
               (write_at 0 src output)))"

definition is_end :: "pcm_chunk \<Rightarrow> bool" where
  "is_end c \<longleftrightarrow> length (pc_data c) \<le> pc_read_pos c"

definition seek :: "nat \<Rightarrow> pcm_chunk \<Rightarrow> pcm_chunk" where
  "seek frames c =
     c\<lparr>pc_read_pos :=
         min (pc_read_pos c + frames * unat (frame_size (pc_format c))) (length (pc_data c))\<rparr>"

text \<open>The loop of \<open>read_next\<close>: \<open>chunk\<close> is the current chunk and \<open>chunks\<close> the queue behind it.\<close>

partial_function (option) read_loop ::
  "nat \<Rightarrow> nat \<Rightarrow> pcm_chunk \<Rightarrow> pcm_chunk list \<Rightarrow> u8 list \<Rightarrow> nat \<Rightarrow>
   (pcm_chunk \<times> pcm_chunk list \<times> u8 list) option" where
  "read_loop fs frames chunk chunks output read =
     (if read < frames then
        if length output < read * fs then None
        else
          (case read_frames chunk (drop (read * fs) output) (frames - read) of
             None \<Rightarrow> None
           | Some r \<Rightarrow>
               let chunk = fst r; output = take (read * fs) output @ fst (snd r);
                   read = read + snd (snd r) in
               if read < frames \<and> is_end chunk then
                 (case chunks of
                    [] \<Rightarrow> Some (chunk, [], output)
                  | c # cs \<Rightarrow> read_loop fs frames c cs output read)
               else read_loop fs frames chunk chunks output read)
      else Some (chunk, chunks, output))"

subsection \<open>Slices\<close>

lemma slice_Some: "slice lo hi xs = Some ys \<longleftrightarrow> lo \<le> hi \<and> hi \<le> length xs \<and> ys = take (hi - lo) (drop lo xs)"
  by (auto simp: slice_def)

lemma write_at_Some:
  "write_at off src xs = Some ys \<longleftrightarrow>
   off + length src \<le> length xs \<and> ys = take off xs @ src @ drop (off + length src) xs"
  by (auto simp: write_at_def)

lemma write_at_length: "write_at off src xs = Some ys \<Longrightarrow> length ys = length xs"
  by (auto simp: write_at_Some)

subsection \<open>The queue of bytes\<close>

definition chunk_rest :: "pcm_chunk \<Rightarrow> u8 list" where
  "chunk_rest c = drop (pc_read_pos c) (pc_data c)"

definition pending :: "pcm_chunk \<Rightarrow> pcm_chunk list \<Rightarrow> u8 list" where
  "pending c cs = chunk_rest c @ concat (List.map chunk_rest cs)"

text \<open>A chunk of the stream's format whose data and cursor are whole frames.\<close>

definition chunk_ok :: "sample_format \<Rightarrow> pcm_chunk \<Rightarrow> bool" where
  "chunk_ok f c \<longleftrightarrow>
     pc_format c = f \<and> pc_read_pos c \<le> length (pc_data c) \<and> length (pc_data c) < 2 ^ 40 \<and>
     unat (frame_size f) dvd length (chunk_rest c)"

lemma read_frames_ok:
  assumes "chunk_ok f c" and fs: "unat (frame_size f) = fs" "0 < fs"
    and k_def: "k = min (min n (length (chunk_rest c) div fs)) (length out div fs)"
  shows "read_frames c out n =
    Some (c\<lparr>pc_read_pos := pc_read_pos c + k * fs\<rparr>, take (k * fs) (chunk_rest c) @ drop (k * fs) out, k)"
proof -
  have pos: "pc_read_pos c \<le> length (pc_data c)" "length (pc_data c) < 2 ^ 40" and f: "pc_format c = f"
    using assms(1) by (auto simp: chunk_ok_def)
  have av: "(2 ^ 64 + length (pc_data c) - pc_read_pos c) mod 2 ^ 64 = length (chunk_rest c)"
  proof -
    have "2 ^ 64 + length (pc_data c) - pc_read_pos c = 2 ^ 64 + length (chunk_rest c)"
      using pos by (simp add: chunk_rest_def)
    moreover have "length (chunk_rest c) < 2 ^ 64" using pos by (simp add: chunk_rest_def)
    ultimately show ?thesis by simp
  qed
  have k1: "k * fs \<le> length (chunk_rest c)" and k2: "k * fs \<le> length out"
  proof -
    have "k \<le> length (chunk_rest c) div fs" "k \<le> length out div fs" unfolding k_def by simp_all
    then have "k * fs \<le> length (chunk_rest c) div fs * fs" "k * fs \<le> length out div fs * fs"
      by (blast intro: mult_le_mono1)+
    moreover have "length (chunk_rest c) div fs * fs \<le> length (chunk_rest c)"
      "length out div fs * fs \<le> length out" by simp_all
    ultimately show "k * fs \<le> length (chunk_rest c)" "k * fs \<le> length out" by linarith+
  qed
  have s: "slice (pc_read_pos c) (pc_read_pos c + k * fs) (pc_data c) = Some (take (k * fs) (chunk_rest c))"
    using k1 pos by (simp add: slice_Some chunk_rest_def)
  have w: "write_at 0 (take (k * fs) (chunk_rest c)) out =
      Some (take (k * fs) (chunk_rest c) @ drop (k * fs) out)"
    using k1 k2 by (simp add: write_at_Some min_def)
  show ?thesis
    unfolding read_frames_def f fs(1) Let_def av k_def [symmetric] s
    using fs(2) by (simp add: w)
qed

lemma chunk_rest_advance:
  "chunk_rest (c\<lparr>pc_read_pos := pc_read_pos c + n\<rparr>) = drop n (chunk_rest c)"
  by (simp add: chunk_rest_def add.commute)

lemma chunk_ok_advance:
  assumes "chunk_ok f c" "unat (frame_size f) = fs" "k * fs \<le> length (chunk_rest c)"
  shows "chunk_ok f (c\<lparr>pc_read_pos := pc_read_pos c + k * fs\<rparr>)"
proof -
  have "pc_read_pos c + k * fs \<le> length (pc_data c)"
    using assms by (auto simp: chunk_ok_def chunk_rest_def)
  moreover have "fs dvd length (chunk_rest c) - k * fs"
    using assms by (auto simp: chunk_ok_def intro: dvd_diff_nat)
  ultimately show ?thesis
    using assms(1,2) chunk_rest_advance [of c "k * fs"] by (simp add: chunk_ok_def)
qed

lemma is_end_rest: "is_end c \<longleftrightarrow> chunk_rest c = []"
  by (simp add: is_end_def chunk_rest_def)

text \<open>One pass of the loop, and the loop.\<close>

lemma read_loop_done: "\<not> read < frames \<Longrightarrow> read_loop fs frames c cs out read = Some (c, cs, out)"
  by (simp add: read_loop.simps)

lemma read_loop_pass:
  assumes ok: "chunk_ok f c" and fs: "unat (frame_size f) = fs" "0 < fs"
    and room: "frames * fs \<le> length out" and less: "read < frames"
    and k: "k = min (frames - read) (length (chunk_rest c) div fs)"
    and c': "c' = c\<lparr>pc_read_pos := pc_read_pos c + k * fs\<rparr>"
    and out': "out' = take (read * fs) out @ take (k * fs) (chunk_rest c) @ drop (read * fs + k * fs) out"
  shows "read_loop fs frames c cs out read =
    (if read + k < frames \<and> is_end c' then
       (case cs of [] \<Rightarrow> Some (c', [], out') | d # ds \<Rightarrow> read_loop fs frames d ds out' (read + k))
     else read_loop fs frames c' cs out' (read + k))"
proof -
  have le: "read * fs \<le> frames * fs" using less by simp
  have "(frames - read) * fs \<le> length out - read * fs"
    using room by (simp add: diff_mult_distrib)
  then have "frames - read \<le> (length out - read * fs) div fs"
    using fs(2) by (simp add: less_eq_div_iff_mult_less_eq)
  then have k': "k = min (min (frames - read) (length (chunk_rest c) div fs))
      (length (drop (read * fs) out) div fs)"
    by (simp add: k min_def)
  have r: "read_frames c (drop (read * fs) out) (frames - read) =
      Some (c', take (k * fs) (chunk_rest c) @ drop (k * fs) (drop (read * fs) out), k)"
    unfolding c' by (rule read_frames_ok [OF ok fs k'])
  have "take (read * fs) out @ take (k * fs) (chunk_rest c) @ drop (k * fs) (drop (read * fs) out) = out'"
    unfolding out' by (simp add: add.commute)
  moreover have "\<not> length out < read * fs" using le room by linarith
  ultimately show ?thesis using r less
    by (subst read_loop.simps) (simp add: Let_def)
qed

lemma pass_amount:
  fixes n :: nat
  assumes "fs dvd n" "0 < fs"
  shows "min m (n div fs) * fs = min (m * fs) n"
proof -
  from assms(1) obtain q where "n = fs * q" by blast
  with assms(2) show ?thesis by (simp add: min_def mult.commute)
qed

lemma read_loop_ok:
  assumes "chunk_ok f c" "\<forall>x\<in>set cs. chunk_ok f x"
    and fs: "unat (frame_size f) = fs" "0 < fs"
    and "frames * fs \<le> length out" "read \<le> frames"
    and "w = min ((frames - read) * fs) (length (pending c cs))"
  shows "\<exists>c' cs'. read_loop fs frames c cs out read =
      Some (c', cs', take (read * fs) out @ take w (pending c cs) @ drop (read * fs + w) out) \<and>
    chunk_ok f c' \<and> (\<forall>x\<in>set cs'. chunk_ok f x) \<and> pending c' cs' = drop w (pending c cs)"
  using assms(1,2,5,6,7)
proof (induction cs arbitrary: c out read w)
  case (Nil c out read w)
  note prems = Nil
  define cs :: "pcm_chunk list" where "cs = []"
  show ?case
  proof (cases "read < frames")
    case False
    with prems show ?thesis by (simp add: read_loop_done)
  next
    case True
    define k where "k = min (frames - read) (length (chunk_rest c) div fs)"
    define c' where "c' = c\<lparr>pc_read_pos := pc_read_pos c + k * fs\<rparr>"
    define out' where
      "out' = take (read * fs) out @ take (k * fs) (chunk_rest c) @ drop (read * fs + k * fs) out"
    have kfs: "k * fs = w" using prems(1,5) fs pass_amount [of fs "length (chunk_rest c)"]
      by (simp add: k_def chunk_ok_def pending_def)
    have le: "k * fs \<le> length (chunk_rest c)" using prems(5) by (simp add: kfs pending_def)
    have ok: "chunk_ok f c'" unfolding c'_def by (rule chunk_ok_advance [OF prems(1) fs(1) le])
    have rest: "chunk_rest c' = drop w (chunk_rest c)" by (simp add: c'_def chunk_rest_advance kfs)
    have pass: "read_loop fs frames c [] out read =
      (if read + k < frames \<and> is_end c' then Some (c', [], out')
       else read_loop fs frames c' [] out' (read + k))"
      using read_loop_pass [OF prems(1) fs prems(3) True k_def c'_def out'_def, of "[]"] by simp
    have "read + k < frames \<Longrightarrow> is_end c'"
    proof -
      assume "read + k < frames"
      then have "k * fs < (frames - read) * fs" using fs(2) by (simp add: less_diff_conv)
      then have "w = length (chunk_rest c)" using prems(5) by (simp add: kfs pending_def)
      then show "is_end c'" by (simp add: is_end_rest rest)
    qed
    then have "read_loop fs frames c [] out read = Some (c', [], out')"
      using pass read_loop_done [of "read + k" frames] by auto
    then show ?thesis using ok rest by (simp add: out'_def kfs pending_def)
  qed
next
  case (Cons d ds c out read w)
  note prems = Cons.prems
  show ?case
  proof (cases "read < frames")
    case False
    with prems show ?thesis by (simp add: read_loop_done)
  next
    case True
    define k where "k = min (frames - read) (length (chunk_rest c) div fs)"
    define c' where "c' = c\<lparr>pc_read_pos := pc_read_pos c + k * fs\<rparr>"
    define out' where
      "out' = take (read * fs) out @ take (k * fs) (chunk_rest c) @ drop (read * fs + k * fs) out"
    have kfs: "k * fs = min ((frames - read) * fs) (length (chunk_rest c))"
      using prems(1) fs pass_amount [of fs "length (chunk_rest c)"] by (simp add: k_def chunk_ok_def)
    have le: "k * fs \<le> length (chunk_rest c)" by (simp add: kfs)
    have ok: "chunk_ok f c'" unfolding c'_def by (rule chunk_ok_advance [OF prems(1) fs(1) le])
    have rest: "chunk_rest c' = drop (k * fs) (chunk_rest c)" by (simp add: c'_def chunk_rest_advance)
    note pass = read_loop_pass [OF prems(1) fs prems(3) True k_def c'_def out'_def, of "d # ds"]
    have room: "read * fs + k * fs \<le> length out"
    proof -
      have "read * fs + (frames - read) * fs \<le> length out"
        using prems(3) True by (simp flip: add_mult_distrib)
      then show ?thesis by (simp add: kfs)
    qed
    show ?thesis
    proof (cases "read + k < frames")
      case True
      then have lt: "k * fs < (frames - read) * fs" using fs(2) by (simp add: less_diff_conv)
      then have all: "k * fs = length (chunk_rest c)" by (simp add: kfs)
      then have rest0: "chunk_rest c' = []" by (simp add: rest)
      then have "read_loop fs frames c (d # ds) out read = read_loop fs frames d ds out' (read + k)"
        using pass True by (simp add: is_end_rest)
      moreover have len: "length out' = length out" using room le by (simp add: out'_def)
      moreover define v where "v = min ((frames - (read + k)) * fs) (length (pending d ds))"
      ultimately obtain d' ds' where it: "read_loop fs frames c (d # ds) out read =
          Some (d', ds', take ((read + k) * fs) out' @ take v (pending d ds) @
            drop ((read + k) * fs + v) out')"
        and okd: "chunk_ok f d'" "\<forall>x\<in>set ds'. chunk_ok f x" "pending d' ds' = drop v (pending d ds)"
        using Cons.IH [of d out' "read + k" v] prems True by auto
      have w: "w = k * fs + v"
        using prems(5) lt all by (simp add: v_def pending_def min_def diff_mult_distrib add_mult_distrib)
      have P: "pending c (d # ds) = chunk_rest c @ pending d ds" by (simp add: pending_def)
      have t: "take ((read + k) * fs) out' = take (read * fs) out @ chunk_rest c"
        using room all by (simp add: out'_def add_mult_distrib)
      have dr: "drop ((read + k) * fs + v) out' = drop (read * fs + w) out"
      proof -
        have "(read + k) * fs + v = length (take (read * fs) out @ take (k * fs) (chunk_rest c)) + v"
          using room le by (simp add: add_mult_distrib)
        then have "drop ((read + k) * fs + v) out' = drop v (drop (read * fs + k * fs) out)"
          unfolding out'_def by (simp only: append_assoc [symmetric] drop_append drop_drop add.commute)
              (simp add: ac_simps)
        then show ?thesis by (simp add: w ac_simps)
      qed
      show ?thesis
        using it okd by (simp add: t dr P w all)
    next
      case False
      then have kf: "read + k = frames" using \<open>read < frames\<close> by (simp add: k_def)
      then have "read_loop fs frames c (d # ds) out read = Some (c', d # ds, out')"
        using pass by (simp add: read_loop_done)
      moreover have w: "w = k * fs"
        using prems(5) kf kfs by (auto simp: pending_def min_def split: if_splits)
      moreover have "take w (pending c (d # ds)) = take w (chunk_rest c)"
        "drop w (pending c (d # ds)) = pending c' (d # ds)"
        using le by (simp_all add: w pending_def rest)
      ultimately show ?thesis using ok prems(2) by (simp add: out'_def w)
    qed
  qed
qed

end
