(* ===== verification/PcmCodec.thy ===== *)
theory PcmCodec
  imports AudioSender F32 PcmChunk
begin

text \<open>
  Samples between floats and bytes: the conversions and the PCM codec of \<open>snapcast-server/src/encoder\<close>
  (\<open>mod.rs\<close>, \<open>pcm.rs\<close>), and the PCM decoder and \<open>samples_to_f32\<close> of \<open>snapcast-client/src\<close>
  (\<open>decoder/mod.rs\<close>, \<open>controller.rs\<close>).  A 24-bit sample travels in four bytes.
\<close>

subsection \<open>Conversions\<close>

function chunks_of :: "nat \<Rightarrow> 'a list \<Rightarrow> 'a list list" where
  "chunks_of k xs = (if k = 0 \<or> length xs < k then [] else take k xs # chunks_of k (drop k xs))"
  by pat_completeness auto
termination by (relation "measure (\<lambda>(k, xs). length xs)") auto

declare chunks_of.simps [simp del]

definition int_of_le :: "u8 list \<Rightarrow> int" where
  "int_of_le bs =
     (let n = int (le_dec bs) in if 2 * n < 256 ^ length bs then n else n - 256 ^ length bs)"

definition le_of_int :: "nat \<Rightarrow> int \<Rightarrow> u8 list" where
  "le_of_int k i = le_enc k (nat (i mod 256 ^ k))"

text \<open>\<open>(s.clamp(-1.0, 1.0) * full) as iN\<close>, where \<open>hi\<close> is the largest value of the integer type.\<close>

definition quantize :: "f32 \<Rightarrow> int \<Rightarrow> f32 \<Rightarrow> int" where
  "quantize full hi s = f64_as_int (- hi - 1) hi (f32_mul (f32_clamp (FNum (- 1)) (FNum 1) s) full)"

definition PCM_24BIT_MAX :: f32 where
  "PCM_24BIT_MAX = FNum 8388607"

definition sample_to_pcm :: "u16 \<Rightarrow> f32 \<Rightarrow> u8 list" where
  "sample_to_pcm bits s =
     (if bits = 24 then le_of_int 4 (quantize PCM_24BIT_MAX (2 ^ 31 - 1) s)
      else if bits = 32 then le_of_int 4 (quantize (f32_of_int (2 ^ 31 - 1)) (2 ^ 31 - 1) s)
      else le_of_int 2 (quantize (f32_of_int (2 ^ 15 - 1)) (2 ^ 15 - 1) s))"

definition f32_to_pcm :: "f32 list \<Rightarrow> u16 \<Rightarrow> u8 list" where
  "f32_to_pcm samples bits = concat (List.map (sample_to_pcm bits) samples)"

definition scale_samples :: "nat \<Rightarrow> f32 \<Rightarrow> u8 list \<Rightarrow> f32 list" where
  "scale_samples k full pcm =
     List.map (\<lambda>c. f32_div (f32_of_int (int_of_le c)) full) (chunks_of k pcm)"

definition pcm_to_f32 :: "u8 list \<Rightarrow> u16 \<Rightarrow> f32 list" where
  "pcm_to_f32 pcm bits =
     (if bits = 24 then scale_samples 4 PCM_24BIT_MAX pcm
      else if bits = 32 then scale_samples 4 (f32_of_int (2 ^ 31 - 1)) pcm
      else scale_samples 2 (f32_of_int (2 ^ 15 - 1)) pcm)"

definition samples_to_f32 :: "u8 list \<Rightarrow> sample_format \<Rightarrow> sample_encoding \<Rightarrow> f32 list" where
  "samples_to_f32 data format encoding =
     (case encoding of
        Float32 \<Rightarrow> List.map (\<lambda>c. f32_of_bits (le_dec c)) (chunks_of 4 data)
      | PcmInt \<Rightarrow>
          if sf_bits format = 16 then scale_samples 2 (f32_of_int (2 ^ 15 - 1)) data
          else if sf_bits format = 24 then scale_samples 4 PCM_24BIT_MAX data
          else if sf_bits format = 32 then scale_samples 4 (f32_of_int (2 ^ 31 - 1)) data
          else [])"

subsection \<open>The PCM codec\<close>

text \<open>The float samples of an audio frame are given by their bits.\<close>

definition pcm_encode :: "sample_format \<Rightarrow> u32 audio_data \<Rightarrow> u8 list" where
  "pcm_encode format input =
     (case input of
        Pcm pcm \<Rightarrow> pcm
      | F32 samples \<Rightarrow> f32_to_pcm (List.map (\<lambda>b. f32_of_bits (unat b)) samples) (sf_bits format))"

definition build_wav_header :: "sample_format \<Rightarrow> u8 list" where
  "build_wav_header f =
     (let block_align = sf_channels f * sample_size f;
          byte_rate = sf_rate f * ucast block_align in
      as_bytes ''RIFF'' @ le_enc 4 36 @ as_bytes ''WAVE'' @ as_bytes ''fmt '' @ le_enc 4 16 @ le_enc 2 1
        @ le_enc 2 (unat (sf_channels f)) @ le_enc 4 (unat (sf_rate f)) @ le_enc 4 (unat byte_rate)
        @ le_enc 2 (unat block_align) @ le_enc 2 (unat (sf_bits f)) @ as_bytes ''data'' @ le_enc 4 0)"

text \<open>\<open>payload[pos..pos + n]\<close>, in range.\<close>

definition range_at :: "nat \<Rightarrow> nat \<Rightarrow> 'a list \<Rightarrow> 'a list" where
  "range_at pos n xs = take n (drop pos xs)"

text \<open>The walk over the chunks of the header, with the fields of the last \<open>fmt\<close> chunk.\<close>

function riff_walk :: "u8 list \<Rightarrow> nat \<Rightarrow> sample_format \<Rightarrow> string + sample_format" where
  "riff_walk payload pos f =
     (if pos + 8 \<le> length payload then
        (let chunk_id = range_at pos 4 payload;
             chunk_size = le_dec (range_at (pos + 4) 4 payload);
             pos' = pos + 8 in
         if chunk_id = as_bytes ''fmt '' then
           if length payload < pos' + 16 then Inl ''fmt chunk too small''
           else riff_walk payload (pos' + chunk_size)
                  (sf_new (word_of_nat (le_dec (range_at (pos' + 4) 4 payload)))
                     (word_of_nat (le_dec (range_at (pos' + 14) 2 payload)))
                     (word_of_nat (le_dec (range_at (pos' + 2) 2 payload))))
         else if chunk_id = as_bytes ''data'' then Inr f
         else riff_walk payload (pos' + chunk_size) f)
      else Inr f)"
  by pat_completeness auto
termination by (relation "measure (\<lambda>(payload, pos, f). length payload - pos)") auto

declare riff_walk.simps [simp del]

definition parse_riff_header :: "u8 list \<Rightarrow> string + sample_format" where
  "parse_riff_header payload =
     (if length payload < 44 then
        Inl (''PCM header too small ('' @ show_nat (length payload) @ '' bytes)'')
      else if range_at 0 4 payload \<noteq> as_bytes ''RIFF'' \<or> range_at 8 4 payload \<noteq> as_bytes ''WAVE'' then
        Inl ''not a RIFF/WAVE header''
      else case riff_walk payload 12 (sf_new 0 0 0) of
        Inl e \<Rightarrow> Inl e
      | Inr f \<Rightarrow> if sf_rate f = 0 then Inl ''sample format not found in RIFF header'' else Inr f)"

subsection \<open>The header round trip\<close>

lemma range_at_eval [simp]:
  "range_at 0 n xs = take n xs"
  "range_at (numeral k) n (x # xs) = range_at (pred_numeral k) n xs"
  "range_at (Suc m) n (x # xs) = range_at m n xs"
  by (simp_all add: range_at_def numeral_eq_Suc)

lemma range_at_append: "length xs = k \<Longrightarrow> range_at (k + m) n (xs @ ys) = range_at m n ys"
  by (simp add: range_at_def)

lemma range_at_hit: "length xs = n \<Longrightarrow> range_at 0 n (xs @ ys) = xs"
  by (simp add: range_at_def)

lemma range_at_skip: "length xs \<le> m \<Longrightarrow> range_at m n (xs @ ys) = range_at (m - length xs) n ys"
  by (simp add: range_at_def)

lemma unat_u16_mod [simp]: "unat (w :: u16) mod 65536 = unat w"
  using unat_u16_less [of w] by simp

lemma unat_u32_mod [simp]: "unat (w :: u32) mod 4294967296 = unat w"
  using unat_u32_less [of w] by simp

lemma length_wav_header [simp]: "length (build_wav_header f) = 44"
  by (simp add: build_wav_header_def Let_def)

lemmas header_simps = build_wav_header_def Let_def range_at_skip range_at_hit le_dec_le_enc

lemma sf_new_fields [simp]: "sf_new (sf_rate f) (sf_bits f) (sf_channels f) = f"
  by (simp add: sf_new_def)

lemma riff_walk_header: "riff_walk (build_wav_header f) 12 (sf_new 0 0 0) = Inr f"
proof -
  let ?h = "build_wav_header f"
  have data: "range_at 36 4 ?h = as_bytes ''data''"
    and fmt: "range_at 12 4 ?h = as_bytes ''fmt ''" "le_dec (range_at 16 4 ?h) = 16"
      "le_dec (range_at 22 2 ?h) = unat (sf_channels f)" "le_dec (range_at 24 4 ?h) = unat (sf_rate f)"
      "le_dec (range_at 34 2 ?h) = unat (sf_bits f)"
    by (simp_all add: header_simps)
  have "riff_walk ?h 36 f = Inr f"
    by (subst riff_walk.simps) (simp add: Let_def data)
  moreover have "riff_walk ?h 12 (sf_new 0 0 0) = riff_walk ?h 36 f"
    by (subst riff_walk.simps) (simp add: Let_def fmt sf_new_fields)
  ultimately show ?thesis by simp
qed

lemma wav_header_parsed:
  "parse_riff_header (build_wav_header f) =
     (if sf_rate f = 0 then Inl ''sample format not found in RIFF header'' else Inr f)"
proof -
  have "range_at 0 4 (build_wav_header f) = as_bytes ''RIFF''" "range_at 8 4 (build_wav_header f) = as_bytes ''WAVE''"
    by (simp_all add: header_simps del: range_at_eval)
  then show ?thesis by (simp add: parse_riff_header_def riff_walk_header del: range_at_eval)
qed

subsection \<open>Samples\<close>

lemma chunks_of_append:
  "length xs = k \<Longrightarrow> 0 < k \<Longrightarrow> chunks_of k (xs @ ys) = xs # chunks_of k ys"
  by (subst chunks_of.simps) simp

lemma chunks_of_concat:
  "0 < k \<Longrightarrow> (\<And>x. length (f x) = k) \<Longrightarrow> chunks_of k (concat (List.map f xs)) = List.map f xs"
  by (induction xs) (simp_all add: chunks_of_append, simp add: chunks_of.simps)

lemma chunks_of_short: "length xs < n \<Longrightarrow> chunks_of n xs = []"
  by (simp add: chunks_of.simps)

lemma chunks_of_long: "0 < n \<Longrightarrow> n \<le> length xs \<Longrightarrow> chunks_of n xs = take n xs # chunks_of n (drop n xs)"
  by (simp add: chunks_of.simps [of n xs])

lemma length_chunks_of: "0 < k \<Longrightarrow> length (chunks_of k xs) = length xs div k"
proof (induction "length xs" arbitrary: xs rule: less_induct)
  case less
  then show ?case
    by (cases "length xs < k") (simp_all add: chunks_of_short chunks_of_long le_div_geq [of k "length xs"])
qed

lemma length_in_chunks_of: "c \<in> set (chunks_of k xs) \<Longrightarrow> length c = k"
proof (induction k xs rule: chunks_of.induct)
  case (1 k xs)
  then show ?case
    by (subst (asm) (2) chunks_of.simps) (auto split: if_splits)
qed

lemma length_le_of_int [simp]: "length (le_of_int k i) = k"
  by (simp add: le_of_int_def)

lemma int_of_le_of_int:
  assumes "- (256 ^ k) \<le> 2 * i" "2 * i < 256 ^ k"
  shows "int_of_le (le_of_int k i) = i"
proof -
  let ?m = "256 ^ k :: int"
  have m: "0 \<le> i mod ?m" "i mod ?m < ?m" by simp_all
  have "int (le_dec (le_of_int k i)) = i mod ?m"
    using m by (simp add: le_of_int_def le_dec_le_enc)
  moreover have "i mod ?m = (if 0 \<le> i then i else i + ?m)"
  proof (cases "0 \<le> i")
    case True
    then show ?thesis using assms(2) by simp
  next
    case False
    then have "(i + ?m) mod ?m = i + ?m" using assms(1) by (intro mod_pos_pos_trivial) linarith+
    with False show ?thesis by simp
  qed
  ultimately show ?thesis using assms by (auto simp: int_of_le_def Let_def)
qed

lemma as_int_of_int: "lo \<le> a \<Longrightarrow> a \<le> hi \<Longrightarrow> f64_as_int lo hi (FNum (of_int a)) = a"
  by (simp add: trunc_rat_def clamp_int_def)

lemma quantize_inner:
  "- 1 \<le> x \<Longrightarrow> x \<le> 1 \<Longrightarrow> quantize full hi (FNum x) = f64_as_int (- hi - 1) hi (f32_mul (FNum x) full)"
  by (simp add: quantize_def f32_clamp_def Let_def)

lemma quantize_low: "x \<le> - 1 \<Longrightarrow> quantize full hi (FNum x) = quantize full hi (FNum (- 1))"
  by (simp add: quantize_def f32_clamp_def Let_def)

text \<open>Down to a float and back, for a full scale of \<open>2^m - 1\<close>: exact, but the lowest value is lost.\<close>

lemma quantize_scaled:
  assumes m: "13 \<le> m" "m \<le> 23" and a: "- (2 ^ m) \<le> a" "a \<le> 2 ^ m - 1" and hi: "2 ^ m - 1 \<le> hi"
    and full: "full = FNum (2 ^ m - 1)"
  shows "quantize full hi (f32_div (f32_of_int a) full) = max (1 - 2 ^ m) a"
proof (cases "a = - (2 ^ m)")
  case False
  then have "\<bar>a\<bar> \<le> 2 ^ m - 1" using a by linarith
  then obtain x where "f32_div (f32_of_int a) full = FNum x" "- 1 \<le> x" "x \<le> 1"
    "f32_mul (FNum x) full = FNum (of_int a)"
    using sample_exact [OF m] full by blast
  moreover have "max (1 - 2 ^ m) a = a" using False a by simp
  ultimately show ?thesis using False a hi
    by (simp add: quantize_inner as_int_of_int del: f64_as_int.simps)
next
  case True
  have p13: "(2 :: int) ^ 13 \<le> 2 ^ m" "(2 :: int) ^ m \<le> 2 ^ 23" "(2 :: rat) ^ 13 \<le> 2 ^ m" "(2 :: rat) ^ m \<le> 2 ^ 23"
    using power_increasing [OF m(1), of "2 :: int"] power_increasing [OF m(2), of "2 :: int"]
      power_increasing [OF m(1), of "2 :: rat"] power_increasing [OF m(2), of "2 :: rat"] by simp_all
  then have "f32_of_int a = FNum (- (2 ^ m))" using f32_of_int_exact [of a] True by simp
  moreover obtain r where "f32_round (2 ^ m / (2 ^ m - 1)) = FNum r" "1 \<le> r"
    using f32_round_above [of "2 ^ m / (2 ^ m - 1)"] p13 by (auto simp: le_divide_eq divide_less_eq)
  ultimately have "f32_div (f32_of_int a) full = FNum (- r)"
    using f32_round_neg [of "2 ^ m / (2 ^ m - 1)"] p13 by (simp add: full)
  then have q: "quantize full hi (f32_div (f32_of_int a) full) = quantize full hi (FNum (- 1))"
    using \<open>1 \<le> r\<close> quantize_low [of "- r"] by simp
  obtain x where x: "f32_div (f32_of_int (1 - 2 ^ m)) full = FNum x" "- 1 \<le> x"
    "f32_mul (FNum x) full = FNum (of_int (1 - 2 ^ m))"
    using sample_exact [OF m, of "1 - 2 ^ m"] full p13 by auto
  have "f32_of_int (1 - 2 ^ m) = FNum (1 - 2 ^ m)" using f32_of_int_exact [of "1 - 2 ^ m"] p13 by simp
  moreover have "(1 - 2 ^ m) / (2 ^ m - 1) = (- 1 :: rat)" using p13 by (simp add: divide_eq_eq)
  moreover have "f32_round (- 1) = FNum (- 1)" using f32_round_neg [of 1] f32_round_int [of 1] by simp
  ultimately have "x = - 1" using x(1) p13 by (simp add: full)
  then have "quantize full hi (FNum (- 1)) = 1 - 2 ^ m"
    using x(3) hi p13 as_int_of_int [of "- hi - 1" "1 - 2 ^ m" hi]
    by (simp add: quantize_inner del: f64_as_int.simps)
  then show ?thesis unfolding q using True by simp
qed

lemma full_scale_16: "f32_of_int 32767 = FNum 32767"
  using f32_of_int_exact [of 32767] by simp

lemma scale_samples_bytes:
  "0 < k \<Longrightarrow> \<forall>a\<in>set xs. - (256 ^ k) \<le> 2 * a \<and> 2 * a < 256 ^ k \<Longrightarrow>
   scale_samples k full (concat (List.map (le_of_int k) xs)) =
     List.map (\<lambda>a. f32_div (f32_of_int a) full) xs"
  by (simp add: scale_samples_def chunks_of_concat int_of_le_of_int)

text \<open>C31: PCM of 16 or 24 bits survives the way to floats and back bit by bit, with the one exception of the
  lowest value, which comes back one higher: although the division by full scale, the multiplication and
  the truncation each lose digits, the two roundings always land on the sample again.  The client's
  and the server's conversions agree.\<close>

theorem pcm_float_roundtrip:
  assumes "sf_bits f = bits" and "bits = 16 \<and> k = 2 \<and> m = 15 \<or> bits = 24 \<and> k = 4 \<and> m = 23"
    and "\<forall>a\<in>set xs. - (2 ^ m) \<le> a \<and> a \<le> 2 ^ m - 1"
  shows "samples_to_f32 (concat (List.map (le_of_int k) xs)) f PcmInt =
      pcm_to_f32 (concat (List.map (le_of_int k) xs)) bits \<and>
    f32_to_pcm (samples_to_f32 (concat (List.map (le_of_int k) xs)) f PcmInt) bits =
      concat (List.map (\<lambda>a. le_of_int k (max (1 - 2 ^ m) a)) xs)"
proof -
  let ?pcm = "concat (List.map (le_of_int k) xs)"
  from assms(2) consider "bits = 16" "k = 2" "m = 15" | "bits = 24" "k = 4" "m = 23" by blast
  then show ?thesis
  proof cases
    case 1
    have q: "quantize (FNum (2 ^ 15 - 1)) (2 ^ 15 - 1) (f32_div (f32_of_int a) (FNum (2 ^ 15 - 1))) =
        max (1 - 2 ^ 15) a" if "a \<in> set xs" for a
      using that assms(3) 1 by (intro quantize_scaled) simp_all
    have "scale_samples 2 (FNum (2 ^ 15 - 1)) ?pcm = List.map (\<lambda>a. f32_div (f32_of_int a) (FNum (2 ^ 15 - 1))) xs"
      unfolding 1 using assms(3) 1 by (intro scale_samples_bytes) auto
    then show ?thesis using q 1 assms(1)
      by (simp add: samples_to_f32_def pcm_to_f32_def f32_to_pcm_def sample_to_pcm_def full_scale_16 comp_def
          cong: map_cong)
  next
    case 2
    have q: "quantize (FNum (2 ^ 23 - 1)) (2 ^ 31 - 1) (f32_div (f32_of_int a) (FNum (2 ^ 23 - 1))) =
        max (1 - 2 ^ 23) a" if "a \<in> set xs" for a
      using that assms(3) 2 by (intro quantize_scaled) simp_all
    have "PCM_24BIT_MAX = FNum (2 ^ 23 - 1)" by (simp add: PCM_24BIT_MAX_def)
    moreover have "scale_samples 4 (FNum (2 ^ 23 - 1)) ?pcm =
        List.map (\<lambda>a. f32_div (f32_of_int a) (FNum (2 ^ 23 - 1))) xs"
      unfolding 2 using assms(3) 2 by (intro scale_samples_bytes) auto
    ultimately show ?thesis using q 2 assms(1)
      by (simp add: samples_to_f32_def pcm_to_f32_def f32_to_pcm_def sample_to_pcm_def comp_def cong: map_cong)
  qed
qed

lemma pcm_float_roundtrip_witness:
  "f32_to_pcm (samples_to_f32 (concat (List.map (le_of_int 2) [1, - 12345, 32767, - 32768])) (sf_new 48000 16 2) PcmInt) 16 =
   concat (List.map (le_of_int 2) [1, - 12345, 32767, - 32767])"
  using pcm_float_roundtrip [of "sf_new 48000 16 2" 16 2 15 "[1, - 12345, 32767, - 32768]", THEN conjunct2]
  by (simp add: sf_new_def)

end
