(* ===== verification/Resampler.thy ===== *)
theory Resampler
  imports PcmCodec
begin

text \<open>
  The sample rate converter of the client, \<open>snapcast-client/src/resampler.rs\<close>.  The rubato library is a
  record of two functions: making a converter for the rates, the frames of a chunk, the sub-chunks and the
  channels, and processing the samples of every channel.  None is a panic.
\<close>

record 'r rubato =
  rub_make :: "nat \<Rightarrow> nat \<Rightarrow> nat \<Rightarrow> nat \<Rightarrow> nat \<Rightarrow> string + 'r"
  rub_process :: "'r \<Rightarrow> f64 list list \<Rightarrow> 'r \<times> (string + f64 list list)"

record 'r resampler =
  rs_state :: 'r
  rs_in :: sample_format
  rs_encoding :: sample_encoding
  rs_out :: sample_format
  rs_channels :: nat

definition resampler_new ::
  "'r rubato \<Rightarrow> sample_format \<Rightarrow> sample_format \<Rightarrow> sample_encoding \<Rightarrow> nat \<Rightarrow> string + 'r resampler option" where
  "resampler_new rub inp out encoding frames =
     (if sf_rate out = 0 \<or> sf_rate out = sf_rate inp then Inr None
      else if sf_channels inp = 0 then Inl ''cannot resample 0 channels''
      else
        (case rub_make rub (unat (sf_rate inp)) (unat (sf_rate out)) frames 2 (unat (sf_channels inp)) of
           Inl e \<Rightarrow> Inl e
         | Inr st \<Rightarrow> Inr (Some \<lparr>rs_state = st, rs_in = inp, rs_encoding = encoding, rs_out = out,
                              rs_channels = unat (sf_channels inp)\<rparr>)))"

definition sample_f64 :: "sample_format \<Rightarrow> sample_encoding \<Rightarrow> u8 list \<Rightarrow> f64" where
  "sample_f64 f encoding b =
     (if length b = 2 then f64_div (f64_of_int (int_of_le b)) (FNum 32767)
      else if length b = 4 \<and> encoding = Float32 then f32_of_bits (le_dec b)
      else if length b = 4 \<and> sf_bits f = 24 then f64_div (f64_of_int (int_of_le b)) (FNum 8388607)
      else if length b = 4 then f64_div (f64_of_int (int_of_le b)) (FNum 2147483647)
      else FNum 0)"

definition f64_as_f32 :: "f64 \<Rightarrow> f32" where
  "f64_as_f32 x = (case x of FNum r \<Rightarrow> f32_round r | _ \<Rightarrow> x)"

text \<open>The samples of every channel, zero where a frame has none.\<close>

definition split_channels :: "sample_format \<Rightarrow> sample_encoding \<Rightarrow> nat \<Rightarrow> u8 list \<Rightarrow> f64 list list" where
  "split_channels f encoding channels data =
     (let frames = List.map (chunks_of (unat (sample_size f))) (chunks_of (unat (frame_size f)) data) in
      List.map (\<lambda>ch. List.map (\<lambda>fr. if ch < length fr then sample_f64 f encoding (fr ! ch) else FNum 0) frames)
        [0..<channels])"

definition join_channels :: "f64 list list \<Rightarrow> u8 list option" where
  "join_channels chans =
     (case chans of
        [] \<Rightarrow> None
      | c # _ \<Rightarrow>
          if \<exists>d\<in>set chans. length d < length c then None
          else Some (concat (List.map (\<lambda>i. concat (List.map (\<lambda>d. le_enc 4 (f32_to_bits (f64_as_f32 (d ! i)))) chans))
                 [0..<length c])))"

definition resampler_process ::
  "'r rubato \<Rightarrow> u8 list \<Rightarrow> 'r resampler \<Rightarrow> ((string + unit) \<times> u8 list \<times> 'r resampler) option" where
  "resampler_process rub data r =
     (if frame_size (rs_in r) = 0 \<or> sample_size (rs_in r) = 0 then
        Some (Inl ''cannot resample zero-sized frames'', data, r)
      else
        (case rub_process rub (rs_state r) (split_channels (rs_in r) (rs_encoding r) (rs_channels r) data) of
           (st, Inl e) \<Rightarrow> Some (Inl e, data, r\<lparr>rs_state := st\<rparr>)
         | (st, Inr chans) \<Rightarrow>
             map_option (\<lambda>out. (Inr (), out, r\<lparr>rs_state := st\<rparr>)) (join_channels chans)))"

definition resampler_format :: "'r resampler \<Rightarrow> sample_format" where
  "resampler_format r = sf_new (sf_rate (rs_out r)) 32 (sf_channels (rs_in r))"

end
