(* ===== verification/DoubleBuffer.thy ===== *)
theory DoubleBuffer
  imports Prelude
begin

text \<open>
  The bounded window of \<open>snapcast-client/src/double_buffer.rs\<close>.  \<open>None\<close> is a panic (a slice
  outside the sorted values); sums wrap at 64 bits, and \<open>/\<close> truncates.
\<close>

record double_buffer =
  db_buf :: "int list"
  db_capacity :: nat

definition db_new :: "nat \<Rightarrow> double_buffer" where
  "db_new capacity = \<lparr>db_buf = [], db_capacity = capacity\<rparr>"

definition db_add :: "int \<Rightarrow> double_buffer \<Rightarrow> double_buffer" where
  "db_add value b =
     (let buf = if db_capacity b \<le> length (db_buf b) then drop 1 (db_buf b) else db_buf b in
      b\<lparr>db_buf := buf @ [value]\<rparr>)"

definition db_median :: "nat \<Rightarrow> double_buffer \<Rightarrow> int option" where
  "db_median mean_count b =
     (if db_buf b = [] then Some 0
      else
        let sorted = sort (db_buf b); mid = length sorted div 2 in
        if mean_count \<le> 1 \<or> length sorted < mean_count then Some (sorted ! mid)
        else
          let half = mean_count div 2; low = mid - half; high = mid + half in
          if high < length sorted then
            Some (wrap_i64 (sum_list (take (Suc high - low) (drop low sorted))) sdiv int mean_count)
          else None)"

text \<open>The simple median never slices, so it is a plain value.\<close>

definition db_median_simple :: "double_buffer \<Rightarrow> int" where
  "db_median_simple b =
     (if db_buf b = [] then 0 else sort (db_buf b) ! (length (db_buf b) div 2))"

definition db_clear :: "double_buffer \<Rightarrow> double_buffer" where
  "db_clear b = b\<lparr>db_buf := []\<rparr>"

definition db_is_empty :: "double_buffer \<Rightarrow> bool" where
  "db_is_empty b \<longleftrightarrow> db_buf b = []"

definition db_full :: "double_buffer \<Rightarrow> bool" where
  "db_full b \<longleftrightarrow> db_capacity b \<le> length (db_buf b)"

lemma median_simple_is_median: "db_median 1 b = Some (db_median_simple b)"
  by (simp add: db_median_def db_median_simple_def Let_def)

lemma db_capacity_simps [simp]:
  "db_capacity (db_new c) = c" "db_capacity (db_add v b) = db_capacity b"
  "db_capacity (db_clear b) = db_capacity b"
  by (simp_all add: db_new_def db_add_def db_clear_def Let_def)

lemma db_buf_simps [simp]: "db_buf (db_new c) = []" "db_buf (db_clear b) = []"
  by (simp_all add: db_new_def db_clear_def)

lemma db_add_buf:
  "0 < db_capacity b \<Longrightarrow> length (db_buf b) \<le> db_capacity b \<Longrightarrow>
   db_buf (db_add v b) = drop (Suc (length (db_buf b)) - db_capacity b) (db_buf b @ [v])"
  by (auto simp: db_add_def Let_def)

lemma db_add_set: "set (db_buf (db_add v b)) \<subseteq> insert v (set (db_buf b))"
  by (auto simp: db_add_def Let_def dest: in_set_dropD)

lemma db_add_length:
  "0 < db_capacity b \<Longrightarrow> length (db_buf b) \<le> db_capacity b \<Longrightarrow>
   length (db_buf (db_add v b)) \<le> db_capacity b"
  by (simp add: db_add_buf)

lemma db_add_not_empty [simp]: "db_buf (db_add v b) \<noteq> []"
  by (simp add: db_add_def Let_def)

lemma fold_db_add:
  assumes "0 < c" "db_capacity b = c" "length (db_buf b) \<le> c"
  shows "db_buf (fold db_add xs b) = drop (length (db_buf b) + length xs - c) (db_buf b @ xs)"
  using assms(2,3)
proof (induction xs arbitrary: b)
  case Nil
  then show ?case by simp
next
  case (Cons x xs)
  let ?b = "db_add x b"
  let ?k = "Suc (length (db_buf b)) - c"
  have buf: "db_buf ?b = drop ?k (db_buf b @ [x])" using Cons.prems assms(1) by (simp add: db_add_buf)
  then have len: "length (db_buf ?b) = Suc (length (db_buf b)) - ?k" by simp
  have k: "?k \<le> Suc (length (db_buf b))" by simp
  have "db_buf (fold db_add xs ?b) =
      drop (length (db_buf ?b) + length xs - c) (db_buf ?b @ xs)"
    using Cons.prems assms(1) db_add_length [of b x] by (intro Cons.IH) simp_all
  also have "db_buf ?b @ xs = drop ?k ((db_buf b @ [x]) @ xs)"
    using k unfolding buf by (subst drop_append [of _ "db_buf b @ [x]"]) simp
  also have "drop (length (db_buf ?b) + length xs - c) (drop ?k ((db_buf b @ [x]) @ xs)) =
      drop (length (db_buf b) + length (x # xs) - c) (db_buf b @ x # xs)"
    unfolding len drop_drop using Cons.prems assms(1) by (intro arg_cong2 [where f = drop]) auto
  finally show ?case by simp
qed

text \<open>In a sorted list, at most the positions before \<open>i\<close> are smaller than the entry at \<open>i\<close>.\<close>

lemma sorted_less_count:
  fixes xs :: "int list"
  assumes "sorted xs" "i < length xs"
  shows "length (filter (\<lambda>x. x < xs ! i) xs) \<le> i"
proof -
  have d: "\<forall>x\<in>set (drop i xs). \<not> x < xs ! i"
  proof
    fix x assume "x \<in> set (drop i xs)"
    then obtain j where "j < length xs - i" "x = xs ! (i + j)" by (auto simp: in_set_conv_nth)
    then have "i + j < length xs" by linarith
    with assms sorted_nth_mono [of xs i "i + j"] \<open>x = xs ! (i + j)\<close> show "\<not> x < xs ! i" by simp
  qed
  have "length (filter (\<lambda>x. x < xs ! i) xs) =
      length (filter (\<lambda>x. x < xs ! i) (take i xs)) + length (filter (\<lambda>x. x < xs ! i) (drop i xs))"
    by (metis append_take_drop_id filter_append length_append)
  moreover have "filter (\<lambda>x. x < xs ! i) (drop i xs) = []" using d by (auto simp: filter_empty_conv)
  moreover have "length (filter (\<lambda>x. x < xs ! i) (take i xs)) \<le> i"
    by (rule order_trans [OF length_filter_le]) simp
  ultimately show ?thesis by simp
qed

lemma sorted_greater_count:
  fixes xs :: "int list"
  assumes "sorted xs" "i < length xs"
  shows "length (filter (\<lambda>x. xs ! i < x) xs) \<le> length xs - Suc i"
proof -
  have d: "\<forall>x\<in>set (take (Suc i) xs). \<not> xs ! i < x"
    using assms by (auto simp: in_set_conv_nth intro!: leD sorted_nth_mono)
  have "length (filter (\<lambda>x. xs ! i < x) xs) =
      length (filter (\<lambda>x. xs ! i < x) (take (Suc i) xs)) +
      length (filter (\<lambda>x. xs ! i < x) (drop (Suc i) xs))"
    by (metis append_take_drop_id filter_append length_append)
  moreover have "filter (\<lambda>x. xs ! i < x) (take (Suc i) xs) = []"
    using d by (auto simp: filter_empty_conv)
  moreover have "length (filter (\<lambda>x. xs ! i < x) (drop (Suc i) xs)) \<le> length xs - Suc i"
    by (rule order_trans [OF length_filter_le]) simp
  ultimately show ?thesis by simp
qed

lemma filter_sort_length: "length (filter p (sort xs)) = length (filter p (xs :: int list))"
  by (metis filter_sort length_sort)

lemma median_simple_in: "db_buf b \<noteq> [] \<Longrightarrow> db_median_simple b \<in> set (db_buf b)"
proof -
  assume ne: "db_buf b \<noteq> []"
  then have "length (db_buf b) div 2 < length (sort (db_buf b))" by simp
  then have "sort (db_buf b) ! (length (db_buf b) div 2) \<in> set (sort (db_buf b))" by (rule nth_mem)
  with ne show ?thesis by (simp add: db_median_simple_def)
qed

lemma median_simple_balanced:
  assumes "db_buf b \<noteq> []"
  shows "2 * length (filter (\<lambda>x. x < db_median_simple b) (db_buf b)) \<le> length (db_buf b)"
    and "2 * length (filter (\<lambda>x. db_median_simple b < x) (db_buf b)) \<le> length (db_buf b)"
proof -
  let ?s = "sort (db_buf b)" and ?i = "length (db_buf b) div 2"
  have i: "?i < length ?s" using assms by simp
  have m: "db_median_simple b = ?s ! ?i" using assms by (simp add: db_median_simple_def)
  have "length (filter (\<lambda>x. x < ?s ! ?i) (db_buf b)) \<le> ?i"
    using sorted_less_count [OF _ i] filter_sort_length by (metis sorted_sort)
  then show "2 * length (filter (\<lambda>x. x < db_median_simple b) (db_buf b)) \<le> length (db_buf b)"
    by (simp add: m)
  have "length (filter (\<lambda>x. ?s ! ?i < x) (db_buf b)) \<le> length (db_buf b) - Suc ?i"
    using sorted_greater_count [OF _ i] filter_sort_length by (metis length_sort sorted_sort)
  then show "2 * length (filter (\<lambda>x. db_median_simple b < x) (db_buf b)) \<le> length (db_buf b)"
    by (simp add: m)
qed

text \<open>After any sequence of values, the window holds exactly the last \<open>capacity\<close> of them, in
  order, and its simple median is one of them with at most half of them below and at most half of
  them above it.\<close>

lemma window_median:
  assumes "0 < c" "xs \<noteq> []" and w: "w = fold db_add xs (db_new c)"
  shows "db_buf w = drop (length xs - c) xs \<and>
    (\<exists>m. db_median 1 w = Some m \<and> m \<in> set (drop (length xs - c) xs) \<and>
       2 * length (filter (\<lambda>x. x < m) (db_buf w)) \<le> length (db_buf w) \<and>
       2 * length (filter (\<lambda>x. m < x) (db_buf w)) \<le> length (db_buf w))"
proof
  show buf: "db_buf w = drop (length xs - c) xs"
    using fold_db_add [of c "db_new c" xs] assms by simp
  have ne: "db_buf w \<noteq> []" using assms(1,2) by (cases xs) (simp_all add: buf)
  show "\<exists>m. db_median 1 w = Some m \<and> m \<in> set (drop (length xs - c) xs) \<and>
       2 * length (filter (\<lambda>x. x < m) (db_buf w)) \<le> length (db_buf w) \<and>
       2 * length (filter (\<lambda>x. m < x) (db_buf w)) \<le> length (db_buf w)"
    using median_simple_is_median [of w] median_simple_in [OF ne] median_simple_balanced [OF ne]
    unfolding buf by blast
qed

lemma window_median_witness:
  "db_buf (fold db_add [5, 1, 9, 4] (db_new 3)) = [1, 9, 4] \<and>
   db_median 1 (fold db_add [5, 1, 9, 4] (db_new 3)) = Some 4"
proof
  show "db_buf (fold db_add [5, 1, 9, 4] (db_new 3)) = [1, 9, 4]"
    using window_median [of 3 "[5, 1, 9, 4]"] by simp
  show "db_median 1 (fold db_add [5, 1, 9, 4] (db_new 3)) = Some 4"
    by (simp add: db_median_def db_add_def db_new_def)
qed

text \<open>an even \<open>mean_count\<close> selects one value more than it divides by: a window of equal values
  gives a larger median, and on a window of exactly \<open>mean_count\<close> values the slice is out of
  range, a panic.\<close>

lemma even_mean_count_misaverages:
  "db_median 2 (fold db_add [600, 600, 600] (db_new 3)) = Some 900 \<and>
   db_median 2 (fold db_add [600, 600] (db_new 3)) = None"
  by (simp add: db_median_def db_add_def db_new_def wrap_i64_def)

end
