(* ===== verification/PcmStream.thy ===== *)
theory PcmStream
  imports PcmChunk DoubleBuffer F64
begin

text \<open>
  The synchronised stream of \<open>snapcast-client/src/stream.rs\<close>.  Microsecond ages are \<open>i64\<close>
  (\<open>wrap_i64\<close>), counters are \<open>u32\<close>/\<open>i32\<close>, rates are doubles (theory \<open>F64\<close>); frame counts
  are naturals below \<open>2 ^ 32\<close>.  An operation that takes the caller's \<open>output\<close> slice returns its
  new contents.  \<open>None\<close> is a call that does not return: a panic or a loop that never ends.
\<close>

definition CORRECTION_BEGIN_USEC :: int where "CORRECTION_BEGIN_USEC = 100"
definition HARD_SYNC_MEDIAN_USEC :: int where "HARD_SYNC_MEDIAN_USEC = 2000"
definition HARD_SYNC_SHORT_MEDIAN_USEC :: int where "HARD_SYNC_SHORT_MEDIAN_USEC = 5000"
definition HARD_SYNC_MINI_MEDIAN_USEC :: int where "HARD_SYNC_MINI_MEDIAN_USEC = 50000"
definition HARD_SYNC_AGE_USEC :: int where "HARD_SYNC_AGE_USEC = 500000"
definition HARD_SYNC_MIN_AGE_USEC :: int where "HARD_SYNC_MIN_AGE_USEC = 500"
definition SOFT_SYNC_MIN_USEC :: int where "SOFT_SYNC_MIN_USEC = 50"
definition MAX_RATE_CORRECTION :: f64 where "MAX_RATE_CORRECTION = f64_round (5 / 10000)"
definition RATE_CORRECTION_SCALE :: f64 where "RATE_CORRECTION_SCALE = f64_round (5 / 100000)"
definition F64_EPSILON :: f64 where "F64_EPSILON = FNum (1 / 2 ^ 52)"

record stream_buffer =
  sb_format :: sample_format
  sb_encoding :: sample_encoding
  sb_chunks :: "pcm_chunk list"
  sb_current :: "pcm_chunk option"
  sb_buffer_ms :: int
  sb_hard_sync :: bool
  sb_mini :: double_buffer
  sb_short :: double_buffer
  sb_long :: double_buffer
  sb_median :: int
  sb_short_median :: int
  sb_played_frames :: u32
  sb_correct_after :: int
  sb_frame_delta :: int
  sb_read_buf :: "u8 list"
  sb_last_log_sec :: int

definition sb_with_encoding :: "sample_format \<Rightarrow> sample_encoding \<Rightarrow> stream_buffer" where
  "sb_with_encoding format encoding =
     \<lparr>sb_format = format, sb_encoding = encoding, sb_chunks = [], sb_current = None,
      sb_buffer_ms = 1000, sb_hard_sync = True, sb_mini = db_new 20, sb_short = db_new 100,
      sb_long = db_new 500, sb_median = 0, sb_short_median = 0, sb_played_frames = 0,
      sb_correct_after = 0, sb_frame_delta = 0, sb_read_buf = [], sb_last_log_sec = 0\<rparr>"

definition sb_new :: "sample_format \<Rightarrow> stream_buffer" where
  "sb_new format = sb_with_encoding format PcmInt"

definition set_buffer_ms :: "int \<Rightarrow> stream_buffer \<Rightarrow> stream_buffer" where
  "set_buffer_ms ms s = s\<lparr>sb_buffer_ms := ms\<rparr>"

definition add_chunk :: "pcm_chunk \<Rightarrow> stream_buffer \<Rightarrow> stream_buffer" where
  "add_chunk c s = s\<lparr>sb_chunks := sb_chunks s @ [c]\<rparr>"

definition chunk_count :: "stream_buffer \<Rightarrow> nat" where
  "chunk_count s = length (sb_chunks s)"

definition sb_clear :: "stream_buffer \<Rightarrow> stream_buffer" where
  "sb_clear s = s\<lparr>sb_chunks := [], sb_current := None, sb_hard_sync := True\<rparr>"

definition reset_buffers :: "stream_buffer \<Rightarrow> stream_buffer" where
  "reset_buffers s =
     s\<lparr>sb_long := db_clear (sb_long s), sb_mini := db_clear (sb_mini s),
       sb_short := db_clear (sb_short s)\<rparr>"

definition update_buffers :: "int \<Rightarrow> stream_buffer \<Rightarrow> stream_buffer" where
  "update_buffers age s =
     s\<lparr>sb_long := db_add age (sb_long s), sb_mini := db_add age (sb_mini s),
       sb_short := db_add age (sb_short s)\<rparr>"

definition nominal_rate :: "stream_buffer \<Rightarrow> f64" where
  "nominal_rate s = f64_of_int (uint (sf_rate (sb_format s)))"

definition set_real_sample_rate :: "f64 \<Rightarrow> stream_buffer \<Rightarrow> stream_buffer" where
  "set_real_sample_rate sample_rate s =
     (let nominal = nominal_rate s in
      if f64_less (f64_abs (f64_sub sample_rate nominal)) F64_EPSILON then s\<lparr>sb_correct_after := 0\<rparr>
      else
        let ratio = f64_div nominal sample_rate in
        s\<lparr>sb_correct_after :=
            f64_as_i32 (f64_round_int (f64_div ratio (f64_sub ratio (FNum 1))))\<rparr>)"

definition get_silence :: "stream_buffer \<Rightarrow> u8 list \<Rightarrow> nat \<Rightarrow> u8 list" where
  "get_silence s output frames =
     (let len = min (frames * unat (frame_size (sb_format s))) (length output) in
      replicate len 0 @ drop len output)"

definition read_next ::
  "stream_buffer \<Rightarrow> u8 list \<Rightarrow> nat \<Rightarrow> (stream_buffer \<times> u8 list \<times> int option) option" where
  "read_next s output frames =
     (case sb_current s of
        None \<Rightarrow> Some (s, output, None)
      | Some chunk \<Rightarrow>
          let fs = unat (frame_size (sb_format s)); rate = uint (sf_rate (sb_format s)) in
          if fs = 0 \<or> rate = 0 then None
          else
            let consumed = int (pc_read_pos chunk div fs);
                ts = wrap_i64 (start_usec chunk + wrap_i64 (consumed * 1000000) sdiv rate) in
            map_option
              (\<lambda>(c, cs, output). (s\<lparr>sb_current := Some c, sb_chunks := cs\<rparr>, output, Some ts))
              (read_loop fs frames chunk (sb_chunks s) output 0))"

text \<open>
  The copying loop of \<open>read_with_correction\<close>, from slice \<open>n\<close> at frame \<open>pos\<close>, for \<open>todo\<close>
  further slices.  Frames are repeated or dropped at the seams.
\<close>

fun copy_slices ::
  "bool \<Rightarrow> nat \<Rightarrow> nat \<Rightarrow> nat \<Rightarrow> u8 list \<Rightarrow> nat \<Rightarrow> nat \<Rightarrow> nat \<Rightarrow> u8 list \<Rightarrow> u8 list option" where
  "copy_slices stretch fs mx slice_size read_buf n pos 0 output = Some output"
| "copy_slices stretch fs mx slice_size read_buf n pos (Suc todo) output =
     (let size = (if todo = 0 then mx - pos else slice_size);
          src = (if stretch then pos - n else pos);
          dst = (if stretch then pos else pos - n) in
      if pos < n then None
      else
        (case slice (src * fs) (src * fs + size * fs) read_buf of
           None \<Rightarrow> None
         | Some bytes \<Rightarrow>
             (case write_at (dst * fs) bytes output of
                None \<Rightarrow> None
              | Some output \<Rightarrow>
                  copy_slices stretch fs mx slice_size read_buf (Suc n) (pos + size) todo output)))"

definition clamp_correction :: "nat \<Rightarrow> int \<Rightarrow> int" where
  "clamp_correction frames correction =
     max correction (wrap_i32 (wrap_i32 (- wrap_i32 (int frames)) + 1))"

definition read_with_correction ::
  "stream_buffer \<Rightarrow> u8 list \<Rightarrow> nat \<Rightarrow> int \<Rightarrow> (stream_buffer \<times> u8 list \<times> int option) option" where
  "read_with_correction s output frames correction =
     (if correction = 0 then read_next s output frames
      else
        let correction = clamp_correction frames correction;
            to_read = nat (wrap_i32 (wrap_i32 (int frames) + correction) mod 2 ^ 32);
            fs = unat (frame_size (sb_format s));
            len = to_read * fs;
            buf = take len (sb_read_buf s) @ replicate (len - length (sb_read_buf s)) 0;
            s = s\<lparr>sb_frame_delta := wrap_i32 (sb_frame_delta s - correction), sb_read_buf := []\<rparr> in
        (case read_next s buf to_read of
           None \<Rightarrow> None
         | Some (s, read_buf, ts) \<Rightarrow>
             let mx = (if correction < 0 then frames else to_read);
                 slices = min (nat \<bar>correction\<bar> + 1) mx in
             if slices = 0 then None
             else
               map_option (\<lambda>output. (s\<lparr>sb_read_buf := read_buf\<rparr>, output, ts))
                 (copy_slices (correction < 0) fs mx (mx div slices) read_buf 0 0 slices output)))"

text \<open>The age of a chunk: how late its first frame is.\<close>

definition chunk_age :: "stream_buffer \<Rightarrow> int \<Rightarrow> int \<Rightarrow> int \<Rightarrow> int" where
  "chunk_age s now dac start = wrap_i64 (now - start - sb_buffer_ms s * 1000 + dac)"

definition usec_frames :: "stream_buffer \<Rightarrow> int \<Rightarrow> nat" where
  "usec_frames s usec =
     f64_as_u32 (f64_div (f64_mul (nominal_rate s) (f64_of_int usec)) (FNum 1000000))"

text \<open>The search of the hard sync for the chunk to play: the head of the remaining queue.\<close>

fun skip_late :: "stream_buffer \<Rightarrow> int \<Rightarrow> int \<Rightarrow> pcm_chunk list \<Rightarrow> pcm_chunk option \<times> pcm_chunk list" where
  "skip_late s now dac [] = (None, [])"
| "skip_late s now dac (c # cs) =
     (let a = chunk_age s now dac (start_usec c) in
      if 0 < a \<and> a < duration_usec c then (Some (seek (usec_frames s a) c), cs)
      else if a \<le> 0 then (Some c, cs)
      else skip_late s now dac cs)"

text \<open>The second half of the hard sync, once a chunk is chosen.\<close>

definition hard_sync_start ::
  "stream_buffer \<Rightarrow> int \<Rightarrow> u8 list \<Rightarrow> nat \<Rightarrow> (stream_buffer \<times> u8 list \<times> bool) option" where
  "hard_sync_start s age output frames =
     (if 0 < age then Some (s, output, False)
      else
        let silent = min (usec_frames s (wrap_i64 (- age))) frames;
            off = silent * unat (frame_size (sb_format s));
            remaining = frames - silent in
        if length output < off then None
        else
          let output = replicate off 0 @ drop off output in
          (case (if 0 < remaining then read_next s (drop off output) remaining
                 else Some (s, drop off output, None)) of
             None \<Rightarrow> None
           | Some (s, tail, _) \<Rightarrow>
               let s = (if silent < frames then reset_buffers (s\<lparr>sb_hard_sync := False\<rparr>) else s) in
               Some (s, take off output @ tail, True)))"

definition hard_sync_chunk ::
  "stream_buffer \<Rightarrow> int \<Rightarrow> int \<Rightarrow> u8 list \<Rightarrow> nat \<Rightarrow> (stream_buffer \<times> u8 list \<times> bool) option" where
  "hard_sync_chunk s now dac output frames =
     (case sb_current s of
        None \<Rightarrow> Some (s, output, False)
      | Some chunk \<Rightarrow>
          let rate = uint (sf_rate (sb_format s)) in
          if rate = 0 then None
          else
            let req = wrap_i64 (int frames * 1000000) sdiv rate;
                age = chunk_age s now dac (start_usec chunk) in
            if age < - req then Some (s, get_silence s output frames, True)
            else
              let s = (if 0 < age then
                         (let (c, cs) = skip_late s now dac (sb_chunks s) in
                          s\<lparr>sb_current := c, sb_chunks := cs\<rparr>)
                       else s) in
              (case sb_current s of
                 None \<Rightarrow> Some (s, output, False)
               | Some chunk \<Rightarrow>
                   hard_sync_start s (chunk_age s now dac (start_usec chunk)) output frames))"

text \<open>How many frames the current rate adjustment adds or removes; \<open>i32\<close> division panics on overflow.\<close>

definition frames_correction :: "stream_buffer \<Rightarrow> nat \<Rightarrow> (stream_buffer \<times> int) option" where
  "frames_correction s frames =
     (if sb_correct_after s = 0 then Some (s, 0)
      else
        let played = sb_played_frames s + word_of_nat frames;
            period = nat \<bar>sb_correct_after s\<bar> in
        if period \<le> unat played then
          if sint played = - (2 ^ 31) \<and> sb_correct_after s = - 1 then None
          else Some (s\<lparr>sb_played_frames := word_of_nat (unat played mod period)\<rparr>,
                     sint played sdiv sb_correct_after s)
        else Some (s\<lparr>sb_played_frames := played\<rparr>, 0))"

definition abs_i64 :: "int \<Rightarrow> int" where
  "abs_i64 x = wrap_i64 \<bar>x\<bar>"

definition needs_hard_sync :: "stream_buffer \<Rightarrow> int \<Rightarrow> bool" where
  "needs_hard_sync s age \<longleftrightarrow>
     (db_full (sb_long s) \<and> HARD_SYNC_MEDIAN_USEC < abs_i64 (sb_median s)
        \<and> HARD_SYNC_MIN_AGE_USEC < abs_i64 age) \<or>
     (db_full (sb_short s) \<and> HARD_SYNC_SHORT_MEDIAN_USEC < abs_i64 (sb_short_median s)
        \<and> HARD_SYNC_MIN_AGE_USEC < abs_i64 age) \<or>
     (db_full (sb_mini s) \<and> HARD_SYNC_MINI_MEDIAN_USEC < abs_i64 (db_median_simple (sb_mini s))
        \<and> HARD_SYNC_MIN_AGE_USEC < abs_i64 age) \<or>
     HARD_SYNC_AGE_USEC < abs_i64 age"

definition correction_rate :: "int \<Rightarrow> f64" where
  "correction_rate median =
     f64_min (f64_mul (f64_div (f64_of_int median) (FNum 100)) RATE_CORRECTION_SCALE)
       MAX_RATE_CORRECTION"

definition soft_sync :: "int \<Rightarrow> stream_buffer \<Rightarrow> stream_buffer" where
  "soft_sync age s =
     (let mini = db_median_simple (sb_mini s) in
      if CORRECTION_BEGIN_USEC < sb_short_median s \<and> SOFT_SYNC_MIN_USEC < mini
         \<and> SOFT_SYNC_MIN_USEC < age then
        set_real_sample_rate
          (f64_mul (nominal_rate s) (f64_sub (FNum 1) (correction_rate (sb_short_median s)))) s
      else if sb_short_median s < - CORRECTION_BEGIN_USEC \<and> mini < - SOFT_SYNC_MIN_USEC
         \<and> age < - SOFT_SYNC_MIN_USEC then
        set_real_sample_rate
          (f64_mul (nominal_rate s)
            (f64_add (FNum 1) (correction_rate (wrap_i64 (- sb_short_median s))))) s
      else s)"

text \<open>What follows a read: the rate or the hard sync is adjusted, and the drift recorded.\<close>

definition after_read :: "int \<Rightarrow> int \<Rightarrow> stream_buffer \<Rightarrow> stream_buffer" where
  "after_read now age s =
     (let s = set_real_sample_rate (nominal_rate s) s;
          s = (if needs_hard_sync s age then s\<lparr>sb_hard_sync := True\<rparr>
               else if db_full (sb_short s) then soft_sync age s
               else s);
          s = update_buffers age s;
          now_sec = now sdiv 1000000 in
      if now_sec \<noteq> sb_last_log_sec s then
        s\<lparr>sb_last_log_sec := now_sec, sb_median := db_median_simple (sb_long s),
          sb_short_median := db_median_simple (sb_short s), sb_frame_delta := 0\<rparr>
      else s)"

definition get_player_chunk ::
  "stream_buffer \<Rightarrow> int \<Rightarrow> int \<Rightarrow> u8 list \<Rightarrow> nat \<Rightarrow> (stream_buffer \<times> u8 list \<times> bool) option" where
  "get_player_chunk s now dac output frames =
     (let s = (if (case sb_current s of None \<Rightarrow> True | Some c \<Rightarrow> is_end c) then
                 (case sb_chunks s of
                    [] \<Rightarrow> s\<lparr>sb_current := None\<rparr>
                  | c # cs \<Rightarrow> s\<lparr>sb_current := Some c, sb_chunks := cs\<rparr>)
               else s) in
      if sb_current s = None then Some (s, output, False)
      else if sb_hard_sync s then hard_sync_chunk s now dac output frames
      else
        (case frames_correction s frames of
           None \<Rightarrow> None
         | Some (s, correction) \<Rightarrow>
             (case read_with_correction s output frames correction of
                None \<Rightarrow> None
              | Some (s, output, None) \<Rightarrow> Some (s, output, False)
              | Some (s, output, Some start) \<Rightarrow>
                  let age = chunk_age s now dac start in
                  Some (after_read now age s, output, abs_i64 age < 500000))))"

definition get_player_chunk_or_silence ::
  "stream_buffer \<Rightarrow> int \<Rightarrow> int \<Rightarrow> u8 list \<Rightarrow> nat \<Rightarrow> (stream_buffer \<times> u8 list \<times> bool) option" where
  "get_player_chunk_or_silence s now dac output frames =
     (case get_player_chunk s now dac output frames of
        None \<Rightarrow> None
      | Some (s, output, True) \<Rightarrow> Some (s, output, True)
      | Some (s, output, False) \<Rightarrow> Some (s, get_silence s output frames, False))"

end
