(* ===== verification/StreamRead.thy ===== *)
theory StreamRead
  imports PcmStream
begin

text \<open>
  Reading from the synchronised stream: \<open>read_next\<close> refines taking bytes from a queue, and
  \<open>read_with_correction\<close> plays the read frames with single frames repeated or dropped.
\<close>

definition fsize :: "stream_buffer \<Rightarrow> nat" where
  "fsize s = unat (frame_size (sb_format s))"

definition stream_pending :: "stream_buffer \<Rightarrow> u8 list" where
  "stream_pending s =
     (case sb_current s of Some c \<Rightarrow> chunk_rest c | None \<Rightarrow> []) @ concat (List.map chunk_rest (sb_chunks s))"

definition chunks_ok :: "stream_buffer \<Rightarrow> bool" where
  "chunks_ok s \<longleftrightarrow>
     0 < fsize s \<and> sf_rate (sb_format s) \<noteq> 0 \<and>
     (\<forall>c\<in>set_option (sb_current s) \<union> set (sb_chunks s). chunk_ok (sb_format s) c)"

text \<open>What reading leaves alone: everything but the queue and the scratch buffer.\<close>

definition same_sync :: "stream_buffer \<Rightarrow> stream_buffer \<Rightarrow> bool" where
  "same_sync s t \<longleftrightarrow>
     (\<exists>cur cs. t = s\<lparr>sb_current := cur, sb_chunks := cs\<rparr>)"

lemma read_next_ok:
  assumes "chunks_ok s" "sb_current s = Some c" "frames * fsize s \<le> length out"
    and w: "w = min (frames * fsize s) (length (stream_pending s))"
  shows "\<exists>s' c' ts. read_next s out frames = Some (s', take w (stream_pending s) @ drop w out, Some ts) \<and>
    chunks_ok s' \<and> stream_pending s' = drop w (stream_pending s) \<and>
    same_sync s s' \<and> sb_current s' = Some c' \<and>
    ts = wrap_i64 (start_usec c + wrap_i64 (int (pc_read_pos c div fsize s) * 1000000)
           sdiv uint (sf_rate (sb_format s)))"
proof -
  have P: "stream_pending s = pending c (sb_chunks s)"
    by (simp add: stream_pending_def pending_def assms(2))
  have ok: "chunk_ok (sb_format s) c" "\<forall>x\<in>set (sb_chunks s). chunk_ok (sb_format s) x"
    and fs: "0 < fsize s" and rate: "sf_rate (sb_format s) \<noteq> 0"
    using assms(1,2) by (auto simp: chunks_ok_def)
  from read_loop_ok [OF ok _ fs assms(3), of 0 w]
  obtain c' cs' where rl: "read_loop (fsize s) frames c (sb_chunks s) out 0 =
      Some (c', cs', take w (stream_pending s) @ drop w out)"
    and ok': "chunk_ok (sb_format s) c'" "\<forall>x\<in>set cs'. chunk_ok (sb_format s) x"
    and pend: "pending c' cs' = drop w (stream_pending s)"
    using w by (auto simp: P fsize_def)
  let ?s = "s\<lparr>sb_current := Some c', sb_chunks := cs'\<rparr>"
  have "uint (sf_rate (sb_format s)) \<noteq> 0" using rate by (simp add: uint_0_iff)
  then have "read_next s out frames = Some (?s, take w (stream_pending s) @ drop w out,
      Some (wrap_i64 (start_usec c + wrap_i64 (int (pc_read_pos c div fsize s) * 1000000)
           sdiv uint (sf_rate (sb_format s)))))"
    using rl fs assms(2) by (simp add: read_next_def Let_def fsize_def [symmetric])
  moreover have "chunks_ok ?s" using ok' fs rate by (auto simp: chunks_ok_def fsize_def)
  moreover have "stream_pending ?s = drop w (stream_pending s)"
    using pend by (simp add: stream_pending_def pending_def)
  moreover have "same_sync s ?s" by (auto simp: same_sync_def)
  ultimately show ?thesis by (intro exI [of _ ?s]) auto
qed

lemma read_next_none: "sb_current s = None \<Longrightarrow> read_next s out frames = Some (s, out, None)"
  by (simp add: read_next_def)

text \<open>A chunk whose rest is shorter than a frame: the loop reads nothing and never gets to the end.\<close>

lemma read_frames_nothing:
  assumes "unat (frame_size (pc_format c)) = fs" "length (chunk_rest c) < fs"
    and "pc_read_pos c \<le> length (pc_data c)" "length (pc_data c) < 2 ^ 63"
  shows "read_frames c out n = Some (c, out, 0)"
proof -
  have "(2 ^ 64 + length (pc_data c) - pc_read_pos c) mod 2 ^ 64 = length (chunk_rest c)"
  proof -
    have "2 ^ 64 + length (pc_data c) - pc_read_pos c = 2 ^ 64 + length (chunk_rest c)"
      using assms(3) by (simp add: chunk_rest_def)
    moreover have "length (chunk_rest c) < 2 ^ 64" using assms(4) by (simp add: chunk_rest_def)
    ultimately show ?thesis by simp
  qed
  moreover have "length (chunk_rest c) div fs = 0" using assms(2) by simp
  ultimately show ?thesis
    using assms(1-3) by (simp add: read_frames_def Let_def slice_def write_at_def)
qed

lemma read_loop_stuck:
  assumes "read_loop fs frames c cs out read = Some y"
  shows "\<not> (read < frames \<and> unat (frame_size (pc_format c)) = fs \<and> length (chunk_rest c) < fs \<and>
    chunk_rest c \<noteq> [] \<and> length (pc_data c) < 2 ^ 63)"
proof (rule read_loop.raw_induct [OF _ assms, where P =
    "\<lambda>fs frames c cs out read y. \<not> (read < frames \<and> unat (frame_size (pc_format c)) = fs \<and>
      length (chunk_rest c) < fs \<and> chunk_rest c \<noteq> [] \<and> length (pc_data c) < 2 ^ 63)"])
  fix rl fs frames c cs out read y
  assume IH: "\<And>fs frames c cs out read y. rl fs frames c cs out read = Some y \<Longrightarrow>
      \<not> (read < frames \<and> unat (frame_size (pc_format c)) = fs \<and>
        length (chunk_rest c) < fs \<and> chunk_rest c \<noteq> [] \<and> length (pc_data c) < 2 ^ 63)"
    and step: "(if read < frames
       then if length out < read * fs then None
            else case read_frames c (drop (read * fs) out) (frames - read) of None \<Rightarrow> None
                 | Some r \<Rightarrow>
                     let chunk = fst r; out = take (read * fs) out @ fst (snd r); read = read + snd (snd r)
                     in if read < frames \<and> is_end chunk
                        then case cs of [] \<Rightarrow> Some (chunk, [], out)
                             | c # cs \<Rightarrow> rl fs frames c cs out read
                        else rl fs frames chunk cs out read
       else Some (c, cs, out)) = Some y"
  show "\<not> (read < frames \<and> unat (frame_size (pc_format c)) = fs \<and>
      length (chunk_rest c) < fs \<and> chunk_rest c \<noteq> [] \<and> length (pc_data c) < 2 ^ 63)"
  proof
    assume st: "read < frames \<and> unat (frame_size (pc_format c)) = fs \<and>
      length (chunk_rest c) < fs \<and> chunk_rest c \<noteq> [] \<and> length (pc_data c) < 2 ^ 63"
    then have pos: "pc_read_pos c \<le> length (pc_data c)" by (simp add: chunk_rest_def)
    have "read_frames c (drop (read * fs) out) (frames - read) = Some (c, drop (read * fs) out, 0)"
      using st pos by (intro read_frames_nothing [of c fs]) simp_all
    then have "rl fs frames c cs out read = Some y"
      using step st by (simp add: is_end_rest split: if_splits)
    from IH [OF this] st show False by blast
  qed
qed

text \<open>C39: once less than a frame of the current chunk is left, as with a chunk that is not a whole number of
  frames, a read that still wants frames never returns.\<close>

theorem read_next_hangs_on_partial_frame:
  assumes "sb_current s = Some c" "pc_format c = sb_format s" "length (pc_data c) < 2 ^ 63"
    and "chunk_rest c \<noteq> []" "length (chunk_rest c) < fsize s" "0 < frames"
  shows "read_next s out frames = None"
proof -
  have "read_loop (fsize s) frames c (sb_chunks s) out 0 = None"
    using read_loop_stuck [of "fsize s" frames c "sb_chunks s" out 0] assms
    by (cases "read_loop (fsize s) frames c (sb_chunks s) out 0") (auto simp: fsize_def)
  with assms(1) show ?thesis by (simp add: read_next_def Let_def fsize_def)
qed

subsection \<open>The copying loop\<close>

lemma write_at_nth:
  "write_at off src xs = Some ys \<Longrightarrow> j < length xs \<Longrightarrow>
   ys ! j = (if off \<le> j \<and> j < off + length src then src ! (j - off) else xs ! j)"
  by (auto simp: write_at_Some nth_append not_less)

lemma slice_nth: "slice lo hi xs = Some ys \<Longrightarrow> j < hi - lo \<Longrightarrow> ys ! j = xs ! (lo + j)"
  by (auto simp: slice_Some)

lemma slice_length: "slice lo hi xs = Some ys \<Longrightarrow> length ys = hi - lo"
  by (auto simp: slice_Some)

text \<open>One copy of \<open>len\<close> bytes.\<close>

lemma copy_step:
  assumes "src + len \<le> length buf" "dst + len \<le> length out"
  obtains bytes out' where "slice src (src + len) buf = Some bytes" "write_at dst bytes out = Some out'"
    "length out' = length out"
    "\<And>j. dst \<le> j \<Longrightarrow> j < dst + len \<Longrightarrow> out' ! j = buf ! (src + (j - dst))"
    "\<And>j. j < dst \<or> dst + len \<le> j \<Longrightarrow> j < length out \<Longrightarrow> out' ! j = out ! j"
proof -
  let ?b = "take len (drop src buf)"
  have b: "slice src (src + len) buf = Some ?b" using assms by (simp add: slice_Some)
  have lb: "length ?b = len" using assms by simp
  obtain out' where o: "write_at dst ?b out = Some out'" using assms lb by (simp add: write_at_def)
  show ?thesis
  proof (rule that [OF b o write_at_length [OF o]])
    show "out' ! j = buf ! (src + (j - dst))" if "dst \<le> j" "j < dst + len" for j
      using write_at_nth [OF o, of j] that assms lb by simp
    show "out' ! j = out ! j" if "j < dst \<or> dst + len \<le> j" "j < length out" for j
      using write_at_nth [OF o, of j] that lb by auto
  qed
qed

lemma copy_stretch:
  assumes "0 < sl" "n * sl + todo * sl \<le> mx" "0 < todo" "k + 1 = n + todo"
    and "(mx - k) * fs \<le> length buf" "k < mx" "mx * fs \<le> length out"
  shows "\<exists>out'. copy_slices True fs mx sl buf n (n * sl) todo out = Some out' \<and>
    length out' = length out \<and>
    (\<forall>j<length out. out' ! j =
       (if n * sl * fs \<le> j \<and> j < mx * fs then buf ! (j - fs * min (j div (fs * sl)) k) else out ! j))"
  using assms(2,3,4,7)
proof (induction todo arbitrary: n out)
  case 0
  then show ?case by simp
next
  case (Suc todo)
  define sz where "sz = (if todo = 0 then mx - n * sl else sl)"
  have pos: "n \<le> n * sl" using assms(1) by simp
  have len: "n * sl + sz \<le> mx" using Suc.prems(1) by (auto simp: sz_def)
  have nk: "n \<le> k" using Suc.prems(3) by simp
  have src: "(n * sl - n) * fs + sz * fs \<le> length buf"
  proof -
    have "n * sl - n + sz \<le> mx - k"
    proof (cases "todo = 0")
      case True
      with Suc.prems have "n = k" by simp
      with True pos len show ?thesis by (simp add: sz_def)
    next
      case False
      have "todo \<le> todo * sl" using assms(1) by simp
      moreover have "n * sl + (sl + todo * sl) \<le> mx" "k = n + todo" using Suc.prems(1,3) by simp_all
      moreover have "sz = sl" using False by (simp add: sz_def)
      ultimately show ?thesis using pos by linarith
    qed
    then have "(n * sl - n + sz) * fs \<le> (mx - k) * fs" by (rule mult_le_mono1)
    with assms(5) show ?thesis by (simp add: add_mult_distrib)
  qed
  have dst: "n * sl * fs + sz * fs \<le> length out"
  proof -
    have "(n * sl + sz) * fs \<le> mx * fs" using len by (rule mult_le_mono1)
    with Suc.prems(4) show ?thesis by (simp add: add_mult_distrib)
  qed
  obtain bytes out1 where c1: "slice ((n * sl - n) * fs) ((n * sl - n) * fs + sz * fs) buf = Some bytes"
    "write_at (n * sl * fs) bytes out = Some out1" "length out1 = length out"
    and in1: "\<And>j. n * sl * fs \<le> j \<Longrightarrow> j < n * sl * fs + sz * fs \<Longrightarrow>
      out1 ! j = buf ! ((n * sl - n) * fs + (j - n * sl * fs))"
    and out1: "\<And>j. j < n * sl * fs \<or> n * sl * fs + sz * fs \<le> j \<Longrightarrow> j < length out \<Longrightarrow> out1 ! j = out ! j"
    using copy_step [OF src dst] by blast
  have step: "copy_slices True fs mx sl buf n (n * sl) (Suc todo) out =
      copy_slices True fs mx sl buf (Suc n) (n * sl + sz) todo out1"
    using c1 assms(1) by (simp add: Let_def sz_def [symmetric] not_less)
  have here: "out1 ! j = buf ! (j - fs * n)"
    if "n * sl * fs \<le> j" "j < n * sl * fs + sz * fs" for j
  proof -
    have "(n * sl - n) * fs + (j - n * sl * fs) = j - fs * n"
    proof -
      have "n * fs \<le> n * sl * fs" using pos by (rule mult_le_mono1)
      moreover have "(n * sl - n) * fs = n * sl * fs - n * fs" by (rule diff_mult_distrib)
      moreover have "fs * n = n * fs" by (rule mult.commute)
      ultimately show ?thesis using that(1) by linarith
    qed
    with in1 [OF that] show ?thesis by simp
  qed
  show ?case
  proof (cases "todo = 0")
    case True
    then have kn: "k = n" using Suc.prems by simp
    have sz: "n * sl + sz = mx" using True len Suc.prems(1) by (simp add: sz_def)
    then have szb: "n * sl * fs + sz * fs = mx * fs" by (simp flip: add_mult_distrib)
    have q: "min (j div (fs * sl)) k = n" if "n * sl * fs \<le> j" "j < mx * fs" for j
    proof -
      from that have "0 < fs" by (cases fs) simp_all
      then have "n \<le> j div (fs * sl)" using that assms(1)
        by (simp add: less_eq_div_iff_mult_less_eq mult.commute mult.left_commute)
      then show ?thesis by (simp add: kn)
    qed
    have "copy_slices True fs mx sl buf n (n * sl) (Suc todo) out = Some out1"
      unfolding step using True by simp
    then show ?thesis using c1(3) here out1 q by (auto simp: szb not_less not_le)
  next
    case False
    then have sz: "sz = sl" by (simp add: sz_def)
    have s1: "n * sl + sz = Suc n * sl" by (simp add: sz)
    from Suc.IH [of "Suc n" out1] obtain out' where
      it: "copy_slices True fs mx sl buf (Suc n) (Suc n * sl) todo out1 = Some out'"
      and l: "length out' = length out1"
      and nth: "\<forall>j<length out1. out' ! j =
        (if Suc n * sl * fs \<le> j \<and> j < mx * fs then buf ! (j - fs * min (j div (fs * sl)) k) else out1 ! j)"
      using Suc.prems False c1(3) by (auto simp: add.commute add.left_commute)
    have b: "n * sl * fs + sz * fs = Suc n * sl * fs" by (simp add: sz add_mult_distrib)
    have q: "min (j div (fs * sl)) k = n" if "n * sl * fs \<le> j" "j < Suc n * sl * fs" for j
    proof -
      have "j div (fs * sl) = n"
        using that by (intro div_nat_eqI) (simp_all add: ac_simps)
      with nk show ?thesis by simp
    qed
    have mxb: "Suc n * sl * fs \<le> mx * fs" using len sz s1 by (intro mult_le_mono1) simp
    have "copy_slices True fs mx sl buf n (n * sl) (Suc todo) out = Some out'"
      using it by (simp only: step s1)
    moreover have "out' ! j =
       (if n * sl * fs \<le> j \<and> j < mx * fs then buf ! (j - fs * min (j div (fs * sl)) k) else out ! j)"
      if j: "j < length out" for j
    proof (cases "Suc n * sl * fs \<le> j")
      case True
      moreover have "n * sl * fs \<le> j" using True b by simp
      ultimately show ?thesis using nth j c1(3) out1 [of j] b by auto
    next
      case lt: False
      then have o': "out' ! j = out1 ! j" using nth j c1(3) by auto
      show ?thesis
      proof (cases "n * sl * fs \<le> j")
        case True
        from lt mxb have "j < mx * fs" by linarith
        with True lt show ?thesis using o' here [of j] q [of j] b by simp
      next
        case False
        then show ?thesis using o' out1 [of j] j by simp
      qed
    qed
    ultimately show ?thesis using l c1(3) by auto
  qed
qed

text \<open>Dropping: slice \<open>n\<close> is written over the last frame of slice \<open>n - 1\<close>.\<close>

lemma copy_shrink:
  assumes "0 < sl" "n * sl + todo * sl \<le> mx" "0 < todo" "k + 1 = n + todo"
    and "mx * fs \<le> length buf" "k < mx" "(mx - k) * fs \<le> length out"
  shows "\<exists>out'. copy_slices False fs mx sl buf n (n * sl) todo out = Some out' \<and>
    length out' = length out \<and>
    (\<forall>j<length out. out' ! j =
       (if n * (sl - 1) * fs \<le> j \<and> j < (mx - k) * fs
        then buf ! (j + fs * (if sl = 1 then k else min (j div (fs * (sl - 1))) k)) else out ! j))"
  using assms(2,3,4,7)
proof (induction todo arbitrary: n out)
  case 0
  then show ?case by simp
next
  case (Suc todo)
  define sz where "sz = (if todo = 0 then mx - n * sl else sl)"
  have pos: "n \<le> n * sl" using assms(1) by simp
  have nd: "n * sl - n = n * (sl - 1)" by (simp add: diff_mult_distrib2)
  have len: "n * sl + sz \<le> mx" using Suc.prems(1) by (auto simp: sz_def)
  have nk: "n \<le> k" using Suc.prems(3) by simp
  have src: "n * sl * fs + sz * fs \<le> length buf"
  proof -
    have "(n * sl + sz) * fs \<le> mx * fs" using len by (rule mult_le_mono1)
    with assms(5) show ?thesis by (simp add: add_mult_distrib)
  qed
  have fit: "n * (sl - 1) + sz \<le> mx - k"
  proof (cases "todo = 0")
    case True
    with Suc.prems have "n = k" by simp
    moreover have "sz = mx - n * sl" using True by (simp add: sz_def)
    ultimately show ?thesis using pos len nd by linarith
  next
    case False
    have "todo \<le> todo * sl" using assms(1) by simp
    moreover have "n * sl + (sl + todo * sl) \<le> mx" "k = n + todo" using Suc.prems(1,3) by simp_all
    moreover have "sz = sl" using False by (simp add: sz_def)
    ultimately show ?thesis using pos nd by linarith
  qed
  have dst: "n * (sl - 1) * fs + sz * fs \<le> length out"
  proof -
    have "(n * (sl - 1) + sz) * fs \<le> (mx - k) * fs" using fit by (rule mult_le_mono1)
    with Suc.prems(4) show ?thesis by (simp add: add_mult_distrib)
  qed
  obtain bytes out1 where c1: "slice (n * sl * fs) (n * sl * fs + sz * fs) buf = Some bytes"
    "write_at (n * (sl - 1) * fs) bytes out = Some out1" "length out1 = length out"
    and in1: "\<And>j. n * (sl - 1) * fs \<le> j \<Longrightarrow> j < n * (sl - 1) * fs + sz * fs \<Longrightarrow>
      out1 ! j = buf ! (n * sl * fs + (j - n * (sl - 1) * fs))"
    and out1: "\<And>j. j < n * (sl - 1) * fs \<or> n * (sl - 1) * fs + sz * fs \<le> j \<Longrightarrow>
      j < length out \<Longrightarrow> out1 ! j = out ! j"
    using copy_step [OF src dst] by blast
  have step: "copy_slices False fs mx sl buf n (n * sl) (Suc todo) out =
      copy_slices False fs mx sl buf (Suc n) (n * sl + sz) todo out1"
    using c1 assms(1) unfolding nd [symmetric] by (simp add: Let_def sz_def [symmetric] not_less)
  have here: "out1 ! j = buf ! (j + fs * n)"
    if "n * (sl - 1) * fs \<le> j" "j < n * (sl - 1) * fs + sz * fs" for j
  proof -
    have "n * sl * fs = n * (sl - 1) * fs + n * fs"
      unfolding nd [symmetric] using pos by (simp flip: add_mult_distrib)
    moreover have "fs * n = n * fs" by (rule mult.commute)
    ultimately have "n * sl * fs + (j - n * (sl - 1) * fs) = j + fs * n" using that(1) by linarith
    with in1 [OF that] show ?thesis by simp
  qed
  show ?case
  proof (cases "todo = 0")
    case True
    then have kn: "k = n" using Suc.prems by simp
    have "sz = mx - n * sl" using True by (simp add: sz_def)
    then have "n * (sl - 1) + sz = mx - k" using len pos nd unfolding kn by linarith
    then have szb: "n * (sl - 1) * fs + sz * fs = (mx - k) * fs" by (simp flip: add_mult_distrib)
    have q: "min (j div (fs * (sl - 1))) k = n" if "n * (sl - 1) * fs \<le> j" "j < (mx - k) * fs" "sl \<noteq> 1" for j
    proof -
      from that have "0 < fs" by (cases fs) simp_all
      then have "n \<le> j div (fs * (sl - 1))" using that assms(1)
        by (simp add: less_eq_div_iff_mult_less_eq mult.commute mult.left_commute)
      then show ?thesis by (simp add: kn)
    qed
    have "copy_slices False fs mx sl buf n (n * sl) (Suc todo) out = Some out1"
      unfolding step using True by simp
    moreover have "out1 ! j =
       (if n * (sl - 1) * fs \<le> j \<and> j < (mx - k) * fs
        then buf ! (j + fs * (if sl = 1 then k else min (j div (fs * (sl - 1))) k)) else out ! j)"
      if j: "j < length out" for j
    proof (cases "n * (sl - 1) * fs \<le> j \<and> j < (mx - k) * fs")
      case True
      then have "out1 ! j = buf ! (j + fs * n)" using here [of j] szb by linarith
      moreover have "(if sl = 1 then k else min (j div (fs * (sl - 1))) k) = n"
        using True q [of j] kn by simp
      ultimately show ?thesis using True by simp
    next
      case False
      then have "j < n * (sl - 1) * fs \<or> n * (sl - 1) * fs + sz * fs \<le> j" using szb by linarith
      then show ?thesis using out1 [of j] j by (simp only: if_not_P [OF False])
    qed
    ultimately show ?thesis using c1(3) by auto
  next
    case False
    then have sz: "sz = sl" by (simp add: sz_def)
    have s1: "n * sl + sz = Suc n * sl" by (simp add: sz)
    from Suc.IH [of "Suc n" out1] obtain out' where
      it: "copy_slices False fs mx sl buf (Suc n) (Suc n * sl) todo out1 = Some out'"
      and l: "length out' = length out1"
      and nth: "\<forall>j<length out1. out' ! j =
        (if Suc n * (sl - 1) * fs \<le> j \<and> j < (mx - k) * fs
         then buf ! (j + fs * (if sl = 1 then k else min (j div (fs * (sl - 1))) k)) else out1 ! j)"
      using Suc.prems False c1(3) by (auto simp: add.commute add.left_commute)
    have b: "Suc n * (sl - 1) * fs \<le> n * (sl - 1) * fs + sz * fs" by (simp add: sz add_mult_distrib)
    have q: "min (j div (fs * (sl - 1))) k = n" if "n * (sl - 1) * fs \<le> j" "j < Suc n * (sl - 1) * fs" for j
    proof -
      have "j div (fs * (sl - 1)) = n"
        using that by (intro div_nat_eqI) (simp_all add: ac_simps)
      with nk show ?thesis by simp
    qed
    have mxb: "n * (sl - 1) * fs + sz * fs \<le> (mx - k) * fs"
      using mult_le_mono1 [OF fit, of fs] by (simp add: add_mult_distrib)
    have "copy_slices False fs mx sl buf n (n * sl) (Suc todo) out = Some out'"
      using it by (simp only: step s1)
    moreover have "out' ! j =
       (if n * (sl - 1) * fs \<le> j \<and> j < (mx - k) * fs
        then buf ! (j + fs * (if sl = 1 then k else min (j div (fs * (sl - 1))) k)) else out ! j)"
      if j: "j < length out" for j
    proof (cases "Suc n * (sl - 1) * fs \<le> j \<and> j < (mx - k) * fs")
      case True
      have le: "n * (sl - 1) * fs \<le> Suc n * (sl - 1) * fs" by (intro mult_le_mono1) simp
      have here': "n * (sl - 1) * fs \<le> j \<and> j < (mx - k) * fs" using True le by linarith
      have "j < length out1" using j c1(3) by simp
      with nth have "out' ! j = (if Suc n * (sl - 1) * fs \<le> j \<and> j < (mx - k) * fs
         then buf ! (j + fs * (if sl = 1 then k else min (j div (fs * (sl - 1))) k)) else out1 ! j)"
        by blast
      then show ?thesis unfolding if_P [OF True] if_P [OF here'] .
    next
      case out': False
      then have o': "out' ! j = out1 ! j" using nth j c1(3) by auto
      show ?thesis
      proof (cases "n * (sl - 1) * fs \<le> j \<and> j < (mx - k) * fs")
        case True
        with out' have lt: "j < Suc n * (sl - 1) * fs" by linarith
        then have "sl \<noteq> 1" by auto
        moreover have "out1 ! j = buf ! (j + fs * n)" using here [of j] True lt b by linarith
        moreover have "min (j div (fs * (sl - 1))) k = n" using q [of j] True lt by blast
        ultimately show ?thesis using o' True by simp
      next
        case False
        then have "j < n * (sl - 1) * fs \<or> n * (sl - 1) * fs + sz * fs \<le> j" using mxb by linarith
        then show ?thesis using o' out1 [of j] j by (simp only: if_not_P [OF False])
      qed
    qed
    ultimately show ?thesis using l c1(3) by auto
  qed
qed

subsection \<open>Reading with a correction\<close>

text \<open>
  The byte of the read frames that byte \<open>j\<close> of the output shows: the \<open>c\<close> repeated or dropped
  frames are spread evenly, one at each seam of \<open>c + 1\<close> slices.
\<close>

definition played_byte :: "nat \<Rightarrow> nat \<Rightarrow> int \<Rightarrow> nat \<Rightarrow> nat" where
  "played_byte fs frames c j =
     (let k = nat \<bar>c\<bar> in
      if c < 0 then j - fs * min (j div (fs * (frames div (k + 1)))) k
      else
        let sl = (frames + k) div (k + 1) in
        j + fs * (if sl = 1 then k else min (j div (fs * (sl - 1))) k))"

lemma clamp_correction_eq:
  assumes "0 < frames" "frames \<le> 2 ^ 30"
  shows "clamp_correction frames c = max c (1 - int frames)"
  using assms by (simp add: clamp_correction_def in_i32_def)

lemma copy_all:
  assumes "0 < frames" "1 - int frames \<le> c" "to_read = nat (int frames + c)"
    and "to_read * fs \<le> length buf" "frames * fs \<le> length out"
    and mx: "mx = (if c < 0 then frames else to_read)" and sl: "slices = min (nat \<bar>c\<bar> + 1) mx"
  shows "slices \<noteq> 0 \<and> (\<exists>out'. copy_slices (c < 0) fs mx (mx div slices) buf 0 0 slices out = Some out' \<and>
    length out' = length out \<and>
    (\<forall>j<length out. out' ! j = (if j < frames * fs then buf ! played_byte fs frames c j else out ! j)))"
proof -
  define k where "k = nat \<bar>c\<bar>"
  have k: "k < mx" using assms(1,2,3) by (auto simp: mx k_def)
  have slices: "slices = k + 1" using k by (simp add: sl k_def)
  define q where "q = mx div slices"
  have q: "0 < q" "slices * q \<le> mx"
    unfolding q_def using k by (simp_all only: slices div_greater_zero_iff times_div_less_eq_dividend)
      simp_all
  have "\<exists>out'. copy_slices (c < 0) fs mx q buf 0 (0 * q) slices out = Some out' \<and>
    length out' = length out \<and>
    (\<forall>j<length out. out' ! j = (if j < frames * fs then buf ! played_byte fs frames c j else out ! j))"
  proof (cases "c < 0")
    case True
    have m: "mx - k = to_read" "mx = frames" using True assms(2,3) by (auto simp: mx k_def)
    have pb: "played_byte fs frames c j = j - fs * min (j div (fs * q)) k" for j
      using True by (simp add: played_byte_def Let_def k_def q_def slices m(2))
    show ?thesis
      using copy_stretch [of q 0 slices mx k fs buf out] q k slices True assms(4,5)
      unfolding pb m(1) by (simp add: m(2) del: copy_slices.simps)
  next
    case False
    have m: "mx - k = frames" "mx = frames + k" "to_read = mx" using False assms(3) by (auto simp: mx k_def)
    have pb: "played_byte fs frames c j = j + fs * (if q = 1 then k else min (j div (fs * (q - 1))) k)" for j
      using False by (simp add: played_byte_def Let_def k_def q_def slices m(2))
    show ?thesis
      using copy_shrink [of q 0 slices mx k fs buf out] q k slices False assms(4,5)
      unfolding pb m(1) m(3) by (simp del: copy_slices.simps)
  qed
  then show ?thesis using slices by (simp add: q_def)
qed

lemma read_with_correction_ok:
  assumes ok: "chunks_ok s" "sb_current s \<noteq> None"
    and fr: "0 < frames" "frames \<le> 2 ^ 30" "\<bar>correction\<bar> \<le> 2 ^ 21" "correction \<noteq> 0"
    and room: "frames * fsize s \<le> length out"
    and c: "c = max correction (1 - int frames)"
    and w: "w = min (nat (int frames + c) * fsize s) (length (stream_pending s))"
  shows "\<exists>s' out' ts buf. read_with_correction s out frames correction = Some (s', out', Some ts) \<and>
    length buf = nat (int frames + c) * fsize s \<and> take w buf = take w (stream_pending s) \<and>
    chunks_ok s' \<and> stream_pending s' = drop w (stream_pending s) \<and>
    (\<exists>b t. same_sync (s\<lparr>sb_frame_delta := wrap_i32 (sb_frame_delta s - c), sb_read_buf := b\<rparr>) t \<and>
       s' = t\<lparr>sb_read_buf := buf\<rparr>) \<and> sb_current s' \<noteq> None \<and>
    length out' = length out \<and>
    (\<forall>j<length out. out' ! j = (if j < frames * fsize s then buf ! played_byte (fsize s) frames c j else out ! j))"
proof -
  define to_read where "to_read = nat (int frames + c)"
  have tr: "int to_read = int frames + c" "0 < to_read" using c fr(1) by (auto simp: to_read_def)
  have small: "to_read < 2 ^ 31" using c fr(2,3) by (auto simp: to_read_def)
  have cc: "clamp_correction frames correction = c" using fr(1,2) by (simp add: clamp_correction_eq c)
  have f32: "wrap_i32 (int frames) = int frames" using fr(2) by (intro wrap_i32_id) (simp add: in_i32_def)
  have "wrap_i32 (int frames + c) = int to_read"
    unfolding tr(1) [symmetric] using small by (intro wrap_i32_id) (simp add: in_i32_def)
  then have num: "nat (wrap_i32 (wrap_i32 (int frames) + c) mod 2 ^ 32) = to_read"
    using small by (simp add: f32)
  define len where "len = to_read * fsize s"
  define buf0 where "buf0 = take len (sb_read_buf s) @ replicate (len - length (sb_read_buf s)) 0"
  have lb: "length buf0 = len" by (simp add: buf0_def)
  define s0 where "s0 = s\<lparr>sb_frame_delta := wrap_i32 (sb_frame_delta s - c), sb_read_buf := []\<rparr>"
  have s0: "chunks_ok s0" "sb_current s0 = sb_current s" "fsize s0 = fsize s"
    "stream_pending s0 = stream_pending s"
    using ok(1) by (simp_all add: s0_def chunks_ok_def fsize_def stream_pending_def)
  obtain ch where ch: "sb_current s = Some ch" using ok(2) by blast
  obtain t c' ts where rn: "read_next s0 buf0 to_read = Some (t, take w (stream_pending s) @ drop w buf0, Some ts)"
    and t: "chunks_ok t" "stream_pending t = drop w (stream_pending s)" "same_sync s0 t" "sb_current t = Some c'"
    using read_next_ok [OF s0(1), of ch to_read buf0 w] s0 ch lb w
    by (auto simp: len_def to_read_def [symmetric])
  define buf where "buf = take w (stream_pending s) @ drop w buf0"
  have wl: "w \<le> len" "w \<le> length (stream_pending s)" using w by (simp_all add: len_def to_read_def)
  have lbuf: "length buf = len" using wl lb by (simp add: buf_def)
  define mx where "mx = (if c < 0 then frames else to_read)"
  define slices where "slices = min (nat \<bar>c\<bar> + 1) mx"
  have copy: "slices \<noteq> 0 \<and> (\<exists>out'. copy_slices (c < 0) (fsize s) mx (mx div slices) buf 0 0 slices out = Some out' \<and>
    length out' = length out \<and>
    (\<forall>j<length out. out' ! j =
      (if j < frames * fsize s then buf ! played_byte (fsize s) frames c j else out ! j)))"
    by (rule copy_all [OF fr(1) _ to_read_def _ room mx_def slices_def]) (simp_all add: c lbuf len_def)
  then obtain out' where out': "copy_slices (c < 0) (fsize s) mx (mx div slices) buf 0 0 slices out = Some out'"
    "length out' = length out"
    "\<forall>j<length out. out' ! j =
      (if j < frames * fsize s then buf ! played_byte (fsize s) frames c j else out ! j)" by blast
  have "read_with_correction s out frames correction = Some (t\<lparr>sb_read_buf := buf\<rparr>, out', Some ts)"
    using fr(4) rn out'(1) copy
    unfolding read_with_correction_def cc num Let_def fsize_def [symmetric] len_def [symmetric]
      buf0_def [symmetric] s0_def [symmetric]
    by (simp add: buf_def [symmetric] mx_def [symmetric] slices_def [symmetric, simplified])
  moreover have "take w buf = take w (stream_pending s)" using wl by (simp add: buf_def)
  moreover have "chunks_ok (t\<lparr>sb_read_buf := buf\<rparr>)" "stream_pending (t\<lparr>sb_read_buf := buf\<rparr>) = drop w (stream_pending s)"
    using t(1,2) by (simp_all add: chunks_ok_def fsize_def stream_pending_def)
  ultimately show ?thesis using out'(2,3) t(3,4) lbuf
    unfolding s0_def len_def to_read_def
    by (intro exI [of _ "t\<lparr>sb_read_buf := buf\<rparr>"] exI [of _ out'] exI [of _ ts] exI [of _ buf]) auto
qed

lemma played_byte_bound:
  assumes "1 - int frames \<le> c" "j < frames * fs"
  shows "played_byte fs frames c j < nat (int frames + c) * fs"
proof (cases "c < 0")
  case False
  define k where "k = nat \<bar>c\<bar>"
  have "played_byte fs frames c j \<le> j + fs * k"
    using False by (simp add: played_byte_def Let_def k_def)
  moreover have "nat (int frames + c) = frames + k" using False by (simp add: k_def nat_add_distrib)
  moreover have "(frames + k) * fs = frames * fs + fs * k" by (simp add: algebra_simps)
  ultimately show ?thesis using assms(2) by simp
next
  case True
  define k where "k = nat \<bar>c\<bar>"
  define q where "q = frames div (k + 1)"
  define n where "n = j div (fs * q)"
  have pb: "played_byte fs frames c j = j - fs * min n k"
    using True by (simp add: played_byte_def Let_def k_def q_def n_def)
  have k: "k < frames" "nat (int frames + c) = frames - k" using True assms(1) by (auto simp: k_def)
  have fs: "0 < fs" using assms(2) by (cases fs) simp_all
  show ?thesis
  proof (cases "n < k")
    case False
    then have "played_byte fs frames c j = j - k * fs" by (simp add: pb mult.commute)
    moreover have "(frames - k) * fs = frames * fs - k * fs" by (rule diff_mult_distrib)
    moreover have "k * fs < frames * fs" using k fs by simp
    ultimately show ?thesis using assms(2) unfolding k(2) by linarith
  next
    case True
    have q: "0 < q" "(k + 1) * q \<le> frames"
      unfolding q_def using k(1) by (simp_all only: div_greater_zero_iff times_div_less_eq_dividend) simp_all
    have "j < fs * q * Suc n" unfolding n_def using fs q(1) dividend_less_times_div [of "fs * q" j] by simp
    then have "j < (n + 1) * q * fs" by (simp add: algebra_simps)
    moreover have "(n + 1) * q - n \<le> frames - k"
    proof -
      have "(k - n) \<le> (k - n) * q" using q(1) by simp
      moreover have "(k + 1) * q = (n + 1) * q + (k - n) * q" using True by (simp flip: add_mult_distrib)
      ultimately show ?thesis using q(2) True by linarith
    qed
    then have "((n + 1) * q - n) * fs \<le> (frames - k) * fs" by (rule mult_le_mono1)
    moreover have "((n + 1) * q - n) * fs = (n + 1) * q * fs - n * fs" by (rule diff_mult_distrib)
    moreover have "n * fs < (n + 1) * q * fs"
    proof -
      have "n * 1 < (n + 1) * q" using q(1) by (intro mult_less_le_imp_less) simp_all
      then show ?thesis using fs by simp
    qed
    moreover have "played_byte fs frames c j = j - n * fs" using True by (simp add: pb mult.commute)
    ultimately show ?thesis unfolding k(2) by linarith
  qed
qed

subsection \<open>Properties\<close>

text \<open>C3: on whole frames, reading refines taking from a first-in first-out queue of bytes: it
  returns, hands out the oldest pending bytes in order, across chunk borders, as many as asked for
  or as there are, leaves the rest pending, and writes nothing past them.\<close>

theorem read_next_refines_queue:
  assumes "chunks_ok s" "sb_current s \<noteq> None" "frames * fsize s \<le> length out"
    and "w = min (frames * fsize s) (length (stream_pending s))"
  shows "\<exists>s' ts. read_next s out frames = Some (s', take w (stream_pending s) @ drop w out, Some ts) \<and>
    chunks_ok s' \<and> stream_pending s' = drop w (stream_pending s)"
  using read_next_ok [OF assms(1) _ assms(3,4)] assms(2) by fastforce

text \<open>C20: a correction of \<open>c\<close> frames plays exactly \<open>frames\<close> frames out of \<open>frames + c\<close> pending ones:
  the repeated or dropped frames are single ones, spread evenly over the output, every other byte
  comes in order, and nothing past the output's frames is touched.\<close>

theorem correction_spreads_frames:
  assumes "chunks_ok s" "sb_current s \<noteq> None"
    and "0 < frames" "frames \<le> 2 ^ 30" "\<bar>correction\<bar> \<le> 2 ^ 21" "correction \<noteq> 0"
    and "frames * fsize s \<le> length out"
    and c: "c = max correction (1 - int frames)"
    and enough: "nat (int frames + c) * fsize s \<le> length (stream_pending s)"
  shows "\<exists>s' out' ts. read_with_correction s out frames correction = Some (s', out', Some ts) \<and>
    stream_pending s' = drop (nat (int frames + c) * fsize s) (stream_pending s) \<and>
    length out' = length out \<and>
    (\<forall>j<length out. out' ! j =
      (if j < frames * fsize s then stream_pending s ! played_byte (fsize s) frames c j else out ! j))"
proof -
  let ?w = "nat (int frames + c) * fsize s"
  obtain s' out' ts buf where rd: "read_with_correction s out frames correction = Some (s', out', Some ts)"
    and buf: "length buf = ?w" "take ?w buf = take ?w (stream_pending s)"
    and post: "stream_pending s' = drop ?w (stream_pending s)" "length out' = length out"
    and nth: "\<forall>j<length out. out' ! j =
      (if j < frames * fsize s then buf ! played_byte (fsize s) frames c j else out ! j)"
    using read_with_correction_ok [OF assms(1-8), of ?w] enough by (auto simp: min_def)
  have "buf ! i = stream_pending s ! i" if "i < ?w" for i
    using buf that by (metis nth_take)
  moreover have "played_byte (fsize s) frames c j < ?w" if "j < frames * fsize s" for j
    using c that by (intro played_byte_bound) simp_all
  ultimately show ?thesis using rd post nth by auto
qed

definition demo_format :: sample_format where
  "demo_format = sf_new 48000 16 1"

definition demo_pcm :: "u8 list \<Rightarrow> pcm_chunk" where
  "demo_pcm bs = pc_new tv_zero bs demo_format"

definition demo_stream :: stream_buffer where
  "demo_stream = (sb_new demo_format)\<lparr>sb_current := Some (demo_pcm [1, 2, 3, 4]),
     sb_chunks := [demo_pcm [5, 6, 7, 8, 9, 10]]\<rparr>"

lemma demo_fsize: "frame_size demo_format = 2"
  by (simp add: demo_format_def sf_new_def frame_size_def sample_size_def)

lemma demo_stream_ok: "chunks_ok demo_stream"
  by (simp add: chunks_ok_def demo_stream_def fsize_def chunk_ok_def demo_pcm_def pc_new_def
      pc_new_with_encoding_def chunk_rest_def sb_new_def sb_with_encoding_def demo_fsize)
    (simp add: demo_format_def sf_new_def)

lemma demo_stream_pending: "stream_pending demo_stream = [1, 2, 3, 4, 5, 6, 7, 8, 9, 10]"
  by (simp add: stream_pending_def demo_stream_def chunk_rest_def demo_pcm_def pc_new_def
      pc_new_with_encoding_def)

lemma demo_stream_fsize: "fsize demo_stream = 2"
  by (simp add: fsize_def demo_stream_def sb_new_def sb_with_encoding_def demo_fsize)

lemma demo_stream_current: "sb_current demo_stream = Some (demo_pcm [1, 2, 3, 4])"
  by (simp add: demo_stream_def)

lemma read_next_refines_queue_witness:
  "\<exists>s' ts. read_next demo_stream (replicate 8 0) 3 = Some (s', [1, 2, 3, 4, 5, 6, 0, 0], Some ts) \<and>
    chunks_ok s' \<and> stream_pending s' = [7, 8, 9, 10]"
  using read_next_refines_queue [OF demo_stream_ok, of 3 "replicate 8 0" 6]
  by (simp add: demo_stream_pending demo_stream_fsize demo_stream_current numeral_eq_Suc)

lemma correction_spreads_frames_witness:
  "\<exists>s' out' ts. read_with_correction demo_stream (replicate 8 0) 4 1 = Some (s', out', Some ts) \<and>
    stream_pending s' = [] \<and> out' ! 0 = 1 \<and> out' ! 7 = 10"
proof -
  have n5: "nat (int 4 + 1) = 5" by simp
  have "\<exists>s' out' ts. read_with_correction demo_stream (replicate 8 0) 4 1 = Some (s', out', Some ts) \<and>
    stream_pending s' = drop (nat (int 4 + 1) * fsize demo_stream) (stream_pending demo_stream) \<and>
    length out' = length (replicate 8 (0 :: u8)) \<and>
    (\<forall>j<length (replicate 8 (0 :: u8)). out' ! j =
      (if j < 4 * fsize demo_stream then stream_pending demo_stream ! played_byte (fsize demo_stream) 4 1 j
       else replicate 8 0 ! j))"
    by (rule correction_spreads_frames [OF demo_stream_ok])
      (simp_all add: demo_stream_pending demo_stream_fsize demo_stream_current)
  then obtain s' out' ts where rd: "read_with_correction demo_stream (replicate 8 0) 4 1 = Some (s', out', Some ts)"
    and p: "stream_pending s' = []"
    and nth: "\<forall>j<8. out' ! j = [1, 2, 3, 4, 5, 6, 7, 8, 9, 10] ! played_byte 2 4 1 j"
    unfolding demo_stream_pending demo_stream_fsize n5 by auto
  have "played_byte 2 4 1 0 = 0" "played_byte 2 4 1 7 = 9"
    by (simp_all add: played_byte_def Let_def numeral_2_eq_2 [symmetric])
  with nth have "out' ! 0 = 1" "out' ! 7 = 10" by simp_all
  with rd p show ?thesis by blast
qed

lemma read_next_hangs_on_partial_frame_witness:
  "read_next (demo_stream\<lparr>sb_current := Some (demo_pcm [1])\<rparr>) (replicate 8 0) 4 = None"
proof (rule read_next_hangs_on_partial_frame)
  show "sb_current (demo_stream\<lparr>sb_current := Some (demo_pcm [1])\<rparr>) = Some (demo_pcm [1])" by simp
qed (simp_all add: demo_pcm_def pc_new_def pc_new_with_encoding_def demo_stream_def sb_new_def
    sb_with_encoding_def chunk_rest_def fsize_def demo_fsize)

end
