(* ===== verification/StreamRate.thy ===== *)
theory StreamRate
  imports StreamRead
begin

text \<open>
  The rate adjustment of the synchronised stream: an interval analysis of the double arithmetic
  from the median drift to \<open>correct_after_x_frames\<close>.
\<close>

subsection \<open>The correction factor\<close>

lemma scale_bounds: obtains s where "RATE_CORRECTION_SCALE = FNum s" "499 / 10 ^ 7 \<le> s" "s \<le> 501 / 10 ^ 7"
  unfolding RATE_CORRECTION_SCALE_def
  by (rule f64_round_within [of "5 / 100000" "5 / 100000" "5 / 100000" "499 / 10 ^ 7" "501 / 10 ^ 7"]) simp_all

lemma max_bounds: obtains s where "MAX_RATE_CORRECTION = FNum s" "499 / 10 ^ 6 \<le> s" "s \<le> 501 / 10 ^ 6"
  unfolding MAX_RATE_CORRECTION_def
  by (rule f64_round_within [of "5 / 10000" "5 / 10000" "5 / 10000" "499 / 10 ^ 6" "501 / 10 ^ 6"]) simp_all

lemma correction_rate_bounds:
  assumes "100 < m" "m \<le> 2 ^ 63"
  obtains d where "correction_rate m = FNum d" "49 / 10 ^ 6 \<le> d" "d \<le> 501 / 10 ^ 6"
proof -
  have "of_int 101 \<le> (of_int m :: rat)" "(of_int m :: rat) \<le> of_int (2 ^ 63)"
    using assms by (simp_all only: of_int_le_iff)
  then have m: "101 \<le> (of_int m :: rat)" "(of_int m :: rat) \<le> 2 ^ 63" by simp_all
  obtain a where a: "f64_round (of_int m) = FNum a" "100 \<le> a" "a \<le> 10 ^ 19"
    by (rule f64_round_within [OF m, of 100 "10 ^ 19"]) simp_all
  have "1 \<le> a / 100" "a / 100 \<le> 10 ^ 17" using a(2,3) by simp_all
  then obtain b where b: "f64_round (a / 100) = FNum b" "99 / 100 \<le> b" "b \<le> 2 * 10 ^ 17"
    by (rule f64_round_within [of 1 _ "10 ^ 17" "99 / 100" "2 * 10 ^ 17"]) simp_all
  obtain s where s: "RATE_CORRECTION_SCALE = FNum s" "499 / 10 ^ 7 \<le> s" "s \<le> 501 / 10 ^ 7"
    by (rule scale_bounds)
  have "99 / 100 * (499 / 10 ^ 7) \<le> b * s" "b * s \<le> 2 * 10 ^ 17 * (501 / 10 ^ 7)"
    using b(2,3) s(2,3) by (intro mult_mono; simp)+
  then obtain p where p: "f64_round (b * s) = FNum p" "49 / 10 ^ 6 \<le> p" "p \<le> 10 ^ 14"
    by (rule f64_round_within [of "99 / 100 * (499 / 10 ^ 7)" _ "2 * 10 ^ 17 * (501 / 10 ^ 7)" "49 / 10 ^ 6" "10 ^ 14"])
      simp_all
  obtain t where t: "MAX_RATE_CORRECTION = FNum t" "499 / 10 ^ 6 \<le> t" "t \<le> 501 / 10 ^ 6"
    by (rule max_bounds)
  have "correction_rate m = FNum (if t < p then t else p)"
    by (simp add: correction_rate_def f64_of_int_def a(1) b(1) s(1) p(1) t(1))
  then show thesis using p(2) t(2,3) by (intro that [of "if t < p then t else p"]) auto
qed

subsection \<open>The corrected rate\<close>

lemma nominal_bounds:
  assumes "sf_rate (sb_format s) \<noteq> 0"
  obtains N where "nominal_rate s = FNum N" "1 \<le> N" "N \<le> 2 ^ 32" "N = of_int (uint (sf_rate (sb_format s)))"
proof -
  have "uint (sf_rate (sb_format s)) < 2 ^ 32" using uint_lt2p [of "sf_rate (sb_format s)"] by simp
  moreover have "0 < uint (sf_rate (sb_format s))"
    using assms by (metis uint_ge_0 le_less uint_0_iff)
  ultimately have "nominal_rate s = FNum (of_int (uint (sf_rate (sb_format s))))"
    "1 \<le> uint (sf_rate (sb_format s))" "uint (sf_rate (sb_format s)) \<le> 2 ^ 32"
    by (simp_all add: nominal_rate_def f64_of_int_exact)
  then have "of_int 1 \<le> (of_int (uint (sf_rate (sb_format s))) :: rat)"
    "(of_int (uint (sf_rate (sb_format s))) :: rat) \<le> of_int (2 ^ 32)"
    by (simp_all only: of_int_le_iff)
  then show thesis using \<open>nominal_rate s = _\<close>
    by (intro that [of "of_int (uint (sf_rate (sb_format s)))"]) simp_all
qed

lemma not_epsilon:
  assumes "1 / 10 ^ 5 \<le> \<bar>x\<bar>" "\<bar>x\<bar> < 2 ^ 80"
  shows "\<not> f64_less (f64_abs (f64_round x)) F64_EPSILON"
proof -
  have pos: "f64_round y = FNum r \<Longrightarrow> 1 / 10 ^ 6 \<le> r" if "1 / 10 ^ 5 \<le> y" "y < 2 ^ 80" for y r
    using f64_round_within [of "1 / 10 ^ 5" y "2 ^ 80" "1 / 10 ^ 6" "2 ^ 81"] that by fastforce
  have bound: "\<bar>x\<bar> < pow2 80" using assms(2) by (simp add: pow2_def)
  obtain r where r: "f64_round x = FNum r" using no_overflow [OF bound] by auto
  have "1 / 10 ^ 6 \<le> \<bar>r\<bar>"
  proof (cases "0 \<le> x")
    case True
    with r pos [of x r] assms show ?thesis by simp
  next
    case False
    then have "f64_round (- x) = FNum (- r)" by (simp add: f64_round_neg r)
    with False pos [of "- x" "- r"] assms show ?thesis by simp
  qed
  then have "\<not> \<bar>r\<bar> < 1 / 2 ^ 52" by simp
  then show ?thesis by (simp add: r F64_EPSILON_def)
qed

lemma round_away_between: "of_int a \<le> x \<Longrightarrow> x \<le> of_int b \<Longrightarrow> 0 \<le> a \<Longrightarrow> a \<le> round_away x \<and> round_away x \<le> b"
proof -
  assume x: "of_int a \<le> x" "x \<le> of_int b" "0 \<le> a"
  then have "0 \<le> x" by (meson of_int_0_le_iff order_trans)
  moreover have "a \<le> floor (x + 1 / 2)" using x(1) by (simp add: le_floor_iff)
  moreover have "floor (x + 1 / 2) \<le> b" using x(2) by (simp add: floor_le_iff)
  ultimately show ?thesis by (simp add: round_away_def)
qed

lemma round_away_neg: "round_away (- x) = - round_away x"
proof (cases "x = 0")
  case True
  have "floor (1 / 2 :: rat) = 0" by (rule floor_unique) simp_all
  with True show ?thesis by (simp add: round_away_def)
qed (auto simp: round_away_def)

lemma as_i32_between:
  "- (2 ^ 31) < a \<Longrightarrow> b < 2 ^ 31 \<Longrightarrow> a \<le> round_away x \<Longrightarrow> round_away x \<le> b \<Longrightarrow>
   f64_as_i32 (f64_round_int (FNum x)) = round_away x"
  by (simp add: f64_as_i32_def clamp_int_def trunc_rat_def del: of_int_minus flip: of_int_minus)

text \<open>A stream that is late, one that is early, and the overflow of the negated median.\<close>

lemma real_rate_late:
  assumes "sf_rate (sb_format s) \<noteq> 0" "49 / 10 ^ 6 \<le> d" "d \<le> 501 / 10 ^ 6"
  shows "1900 \<le> sb_correct_after (set_real_sample_rate (f64_mul (nominal_rate s) (f64_sub (FNum 1) (FNum d))) s)
    \<and> sb_correct_after (set_real_sample_rate (f64_mul (nominal_rate s) (f64_sub (FNum 1) (FNum d))) s) \<le> 23000"
proof -
  obtain N where N: "nominal_rate s = FNum N" "1 \<le> N" "N \<le> 2 ^ 32" using nominal_bounds [OF assms(1)] .
  have "999499 / 10 ^ 6 \<le> 1 - d" "1 - d \<le> 999951 / 10 ^ 6" using assms(2,3) by simp_all
  then obtain q where q: "f64_round (1 - d) = FNum q" "999498 / 10 ^ 6 \<le> q" "q \<le> 999952 / 10 ^ 6"
    by (rule f64_round_within [of "999499 / 10 ^ 6" _ "999951 / 10 ^ 6" "999498 / 10 ^ 6" "999952 / 10 ^ 6"]) simp_all
  have l: "N * (999498 / 10 ^ 6) \<le> N * q" and u: "N * q \<le> N * (999952 / 10 ^ 6)"
    using q(2,3) N(2) by (intro mult_left_mono; simp)+
  obtain r where r: "f64_round (N * q) = FNum r" "N * (999497 / 10 ^ 6) \<le> r" "r \<le> N * (999953 / 10 ^ 6)"
    by (rule f64_round_within [OF l u, of "N * (999497 / 10 ^ 6)" "N * (999953 / 10 ^ 6)"]) (use N in \<open>simp_all\<close>)
  have rpos: "0 < r" using r(2) N(2) by simp
  have "\<not> f64_less (f64_abs (f64_round (r - N))) F64_EPSILON"
    using r(2,3) N(2,3) by (intro not_epsilon) simp_all
  moreover have "1000046 / 10 ^ 6 \<le> N / r" "N / r \<le> 1000504 / 10 ^ 6"
    using r(2,3) N(2) rpos by (simp_all add: le_divide_eq divide_le_eq)
  then obtain t where t: "f64_round (N / r) = FNum t" "1000045 / 10 ^ 6 \<le> t" "t \<le> 1000505 / 10 ^ 6"
    by (rule f64_round_within [of "1000046 / 10 ^ 6" _ "1000504 / 10 ^ 6" "1000045 / 10 ^ 6" "1000505 / 10 ^ 6"]) simp_all
  have "45 / 10 ^ 6 \<le> t - 1" "t - 1 \<le> 505 / 10 ^ 6" using t(2,3) by simp_all
  then obtain v where v: "f64_round (t - 1) = FNum v" "44 / 10 ^ 6 \<le> v" "v \<le> 506 / 10 ^ 6"
    by (rule f64_round_within [of "45 / 10 ^ 6" _ "505 / 10 ^ 6" "44 / 10 ^ 6" "506 / 10 ^ 6"]) simp_all
  have "1970 \<le> t / v" "t / v \<le> 22900" using t(2,3) v(2,3) by (simp_all add: le_divide_eq divide_le_eq)
  then obtain z where z: "f64_round (t / v) = FNum z" "1900 \<le> z" "z \<le> 23000"
    by (rule f64_round_within [of 1970 _ 22900 1900 23000]) simp_all
  have ra: "1900 \<le> round_away z \<and> round_away z \<le> 23000"
    using z round_away_between [of 1900 z 23000] by simp
  have "v \<noteq> 0" using v(2) by auto
  then have "sb_correct_after (set_real_sample_rate (f64_mul (nominal_rate s) (f64_sub (FNum 1) (FNum d))) s) =
      f64_as_i32 (f64_round_int (FNum z))"
    using calculation N q r t v z rpos by (simp add: set_real_sample_rate_def Let_def f64_sub_def)
  moreover have "f64_as_i32 (f64_round_int (FNum z)) = round_away z"
    using ra by (intro as_i32_between [of 0 23000]) simp_all
  ultimately show ?thesis using ra by simp
qed

lemma real_rate_early:
  assumes "sf_rate (sb_format s) \<noteq> 0" "49 / 10 ^ 6 \<le> d" "d \<le> 501 / 10 ^ 6"
  shows "sb_correct_after (set_real_sample_rate (f64_mul (nominal_rate s) (f64_add (FNum 1) (FNum d))) s) \<le> - 1900
    \<and> - 23000 \<le> sb_correct_after (set_real_sample_rate (f64_mul (nominal_rate s) (f64_add (FNum 1) (FNum d))) s)"
proof -
  obtain N where N: "nominal_rate s = FNum N" "1 \<le> N" "N \<le> 2 ^ 32" using nominal_bounds [OF assms(1)] .
  have "1000049 / 10 ^ 6 \<le> 1 + d" "1 + d \<le> 1000501 / 10 ^ 6" using assms(2,3) by simp_all
  then obtain q where q: "f64_round (1 + d) = FNum q" "1000048 / 10 ^ 6 \<le> q" "q \<le> 1000502 / 10 ^ 6"
    by (rule f64_round_within [of "1000049 / 10 ^ 6" _ "1000501 / 10 ^ 6" "1000048 / 10 ^ 6" "1000502 / 10 ^ 6"]) simp_all
  have l: "N * (1000048 / 10 ^ 6) \<le> N * q" and u: "N * q \<le> N * (1000502 / 10 ^ 6)"
    using q(2,3) N(2) by (intro mult_left_mono; simp)+
  obtain r where r: "f64_round (N * q) = FNum r" "N * (1000047 / 10 ^ 6) \<le> r" "r \<le> N * (1000503 / 10 ^ 6)"
    by (rule f64_round_within [OF l u, of "N * (1000047 / 10 ^ 6)" "N * (1000503 / 10 ^ 6)"]) (use N in \<open>simp_all\<close>)
  have rpos: "0 < r" using r(2) N(2) by simp
  have eps: "\<not> f64_less (f64_abs (f64_round (r - N))) F64_EPSILON"
    using r(2,3) N(2,3) by (intro not_epsilon) simp_all
  have "999497 / 10 ^ 6 \<le> N / r" "N / r \<le> 999954 / 10 ^ 6"
    using r(2,3) N(2) rpos by (simp_all add: le_divide_eq divide_le_eq)
  then obtain t where t: "f64_round (N / r) = FNum t" "999496 / 10 ^ 6 \<le> t" "t \<le> 999955 / 10 ^ 6"
    by (rule f64_round_within [of "999497 / 10 ^ 6" _ "999954 / 10 ^ 6" "999496 / 10 ^ 6" "999955 / 10 ^ 6"]) simp_all
  have "45 / 10 ^ 6 \<le> 1 - t" "1 - t \<le> 505 / 10 ^ 6" using t(2,3) by simp_all
  then obtain v where v: "f64_round (1 - t) = FNum v" "44 / 10 ^ 6 \<le> v" "v \<le> 506 / 10 ^ 6"
    by (rule f64_round_within [of "45 / 10 ^ 6" _ "505 / 10 ^ 6" "44 / 10 ^ 6" "506 / 10 ^ 6"]) simp_all
  have v': "f64_round (t - 1) = FNum (- v)" using f64_round_neg [of "1 - t"] v(1) by simp
  have "1970 \<le> t / v" "t / v \<le> 22900" using t(2,3) v(2,3) by (simp_all add: le_divide_eq divide_le_eq)
  then obtain z where z: "f64_round (t / v) = FNum z" "1900 \<le> z" "z \<le> 23000"
    by (rule f64_round_within [of 1970 _ 22900 1900 23000]) simp_all
  have z': "f64_round (- (t / v)) = FNum (- z)" by (simp add: f64_round_neg z(1))
  have ra: "1900 \<le> round_away z \<and> round_away z \<le> 23000"
    using z round_away_between [of 1900 z 23000] by simp
  have "v \<noteq> 0" using v(2) by auto
  then have "sb_correct_after (set_real_sample_rate (f64_mul (nominal_rate s) (f64_add (FNum 1) (FNum d))) s) =
      f64_as_i32 (f64_round_int (FNum (- z)))"
    using eps N q r t v' z' rpos by (simp add: set_real_sample_rate_def Let_def f64_sub_def)
  moreover have "f64_as_i32 (f64_round_int (FNum (- z))) = - round_away z"
    using ra by (subst as_i32_between [of "- 23000" 0]) (simp_all add: round_away_neg)
  ultimately show ?thesis using ra by simp
qed

lemma correction_rate_overflow:
  obtains d where "correction_rate (- (2 ^ 63)) = FNum (- d)" "10 ^ 12 \<le> d" "d \<le> 10 ^ 14"
proof -
  obtain a where a: "f64_round (2 ^ 63) = FNum a" "9 * 10 ^ 18 \<le> a" "a \<le> 10 ^ 19"
    by (rule f64_round_within [of "2 ^ 63" "2 ^ 63" "2 ^ 63" "9 * 10 ^ 18" "10 ^ 19"]) simp_all
  then have a': "f64_round (of_int (- (2 ^ 63))) = FNum (- a)" using f64_round_neg [of "2 ^ 63"] by simp
  have "9 * 10 ^ 16 \<le> a / 100" "a / 100 \<le> 10 ^ 17" using a(2,3) by simp_all
  then obtain b where b: "f64_round (a / 100) = FNum b" "8 * 10 ^ 16 \<le> b" "b \<le> 2 * 10 ^ 17"
    by (rule f64_round_within [of "9 * 10 ^ 16" _ "10 ^ 17" "8 * 10 ^ 16" "2 * 10 ^ 17"]) simp_all
  have b': "f64_round (- a / 100) = FNum (- b)" using f64_round_neg [of "a / 100"] b(1) by simp
  obtain s where s: "RATE_CORRECTION_SCALE = FNum s" "499 / 10 ^ 7 \<le> s" "s \<le> 501 / 10 ^ 7"
    by (rule scale_bounds)
  have "8 * 10 ^ 16 * (499 / 10 ^ 7) \<le> b * s" "b * s \<le> 2 * 10 ^ 17 * (501 / 10 ^ 7)"
    using b(2,3) s(2,3) by (intro mult_mono; simp)+
  then obtain p where p: "f64_round (b * s) = FNum p" "10 ^ 12 \<le> p" "p \<le> 10 ^ 14"
    by (rule f64_round_within [of "8 * 10 ^ 16 * (499 / 10 ^ 7)" _ "2 * 10 ^ 17 * (501 / 10 ^ 7)" "10 ^ 12" "10 ^ 14"])
      simp_all
  have p': "f64_round (- b * s) = FNum (- p)" using f64_round_neg [of "b * s"] p(1) by simp
  obtain t where t: "MAX_RATE_CORRECTION = FNum t" "499 / 10 ^ 6 \<le> t" "t \<le> 501 / 10 ^ 6"
    by (rule max_bounds)
  have tp: "\<not> t < - p" using p(2) t(2) by simp
  have "correction_rate (- (2 ^ 63)) = FNum (- p)"
    unfolding correction_rate_def f64_of_int_def a' s(1) t(1) using b' p' tp by simp
  with p(2,3) show thesis by (intro that)
qed

lemma real_rate_overflow:
  assumes "sf_rate (sb_format s) \<noteq> 0" "10 ^ 12 \<le> d" "d \<le> 10 ^ 14"
  shows "sb_correct_after (set_real_sample_rate (f64_mul (nominal_rate s) (f64_add (FNum 1) (FNum (- d)))) s) = 0"
proof -
  obtain N where N: "nominal_rate s = FNum N" "1 \<le> N" "N \<le> 2 ^ 32" using nominal_bounds [OF assms(1)] .
  have "9 * 10 ^ 11 \<le> d - 1" "d - 1 \<le> 10 ^ 14" using assms(2,3) by simp_all
  then obtain q where q: "f64_round (d - 1) = FNum q" "8 * 10 ^ 11 \<le> q" "q \<le> 2 * 10 ^ 14"
    by (rule f64_round_within [of "9 * 10 ^ 11" _ "10 ^ 14" "8 * 10 ^ 11" "2 * 10 ^ 14"]) simp_all
  have q': "f64_round (1 - d) = FNum (- q)" using f64_round_neg [of "d - 1"] q(1) by simp
  have l: "N * (8 * 10 ^ 11) \<le> N * q" and u: "N * q \<le> N * (2 * 10 ^ 14)"
    using q(2,3) N(2) by (intro mult_left_mono; simp)+
  obtain r where r: "f64_round (N * q) = FNum r" "N * (7 * 10 ^ 11) \<le> r" "r \<le> N * (22 / 10 * 10 ^ 14)"
    by (rule f64_round_within [OF l u, of "N * (7 * 10 ^ 11)" "N * (22 / 10 * 10 ^ 14)"]) (use N in \<open>simp_all\<close>)
  have r': "f64_round (N * - q) = FNum (- r)" using f64_round_neg [of "N * q"] r(1) by simp
  have rpos: "0 < r" using r(2) N(2) by simp
  have eps: "\<not> f64_less (f64_abs (f64_round (- r - N))) F64_EPSILON"
    using r(2,3) N(2,3) by (intro not_epsilon) simp_all
  have "1 / 10 ^ 15 \<le> N / r" "N / r \<le> 1 / 10 ^ 11"
    using r(2,3) N(2) rpos by (simp_all add: le_divide_eq divide_le_eq)
  then obtain t where t: "f64_round (N / r) = FNum t" "1 / 10 ^ 16 \<le> t" "t \<le> 1 / 10 ^ 10"
    by (rule f64_round_within [of "1 / 10 ^ 15" _ "1 / 10 ^ 11" "1 / 10 ^ 16" "1 / 10 ^ 10"]) simp_all
  have t': "f64_round (- (N / r)) = FNum (- t)" by (simp add: f64_round_neg t(1))
  have "1 \<le> t + 1" "t + 1 \<le> 11 / 10" using t(2,3) by simp_all
  then obtain v where v: "f64_round (t + 1) = FNum v" "9 / 10 \<le> v" "v \<le> 12 / 10"
    by (rule f64_round_within [of 1 _ "11 / 10" "9 / 10" "12 / 10"]) simp_all
  have v': "f64_round (- t - 1) = FNum (- v)" using f64_round_neg [of "t + 1"] v(1) by simp
  have "1 / 10 ^ 17 \<le> t / v" "t / v \<le> 1 / 10 ^ 9" using t(2,3) v(2,3) by (simp_all add: le_divide_eq divide_le_eq)
  then obtain z where z: "f64_round (t / v) = FNum z" "0 \<le> z" "z \<le> 1 / 10 ^ 8"
    by (rule f64_round_within [of "1 / 10 ^ 17" _ "1 / 10 ^ 9" 0 "1 / 10 ^ 8"]) simp_all
  have ra: "round_away z = 0"
    unfolding round_away_def using z(2,3) by (simp add: floor_unique)
  have "v \<noteq> 0" using v(2) by auto
  then have "sb_correct_after (set_real_sample_rate (f64_mul (nominal_rate s) (f64_add (FNum 1) (FNum (- d)))) s) =
      f64_as_i32 (f64_round_int (FNum z))"
    using eps N q' r' t' v' z rpos by (simp add: set_real_sample_rate_def Let_def f64_sub_def)
  moreover have "f64_as_i32 (f64_round_int (FNum z)) = round_away z"
    using ra by (intro as_i32_between [of 0 0]) simp_all
  ultimately show ?thesis using ra by simp
qed

end
