(* ===== verification/StreamSync.thy ===== *)
theory StreamSync
  imports StreamRate
begin

text \<open>
  The synchronised stream as a whole: the state that its operations keep well formed, the return
  of every call, and what the hard sync plays.
\<close>

definition correct_after_ok :: "int \<Rightarrow> bool" where
  "correct_after_ok n \<longleftrightarrow> n = 0 \<or> 1900 \<le> \<bar>n\<bar> \<and> \<bar>n\<bar> \<le> 23000"

definition drift_ok :: "stream_buffer \<Rightarrow> bool" where
  "drift_ok s \<longleftrightarrow>
     correct_after_ok (sb_correct_after s) \<and> in_i64 (sb_short_median s) \<and>
     (\<forall>a\<in>set (db_buf (sb_short s)). in_i64 a)"

definition stream_ok :: "stream_buffer \<Rightarrow> bool" where
  "stream_ok s \<longleftrightarrow> chunks_ok s \<and> drift_ok s"

text \<open>\<open>chunks_ok\<close> and the pending bytes depend on the queue and the format only.\<close>

lemma chunks_ok_cong:
  "sb_current s = sb_current t \<Longrightarrow> sb_chunks s = sb_chunks t \<Longrightarrow> sb_format s = sb_format t \<Longrightarrow>
   chunks_ok s = chunks_ok t"
  by (simp add: chunks_ok_def fsize_def)

lemma set_real_sample_rate_frame [simp]:
  "sb_current (set_real_sample_rate r s) = sb_current s"
  "sb_chunks (set_real_sample_rate r s) = sb_chunks s"
  "sb_format (set_real_sample_rate r s) = sb_format s"
  "sb_short (set_real_sample_rate r s) = sb_short s"
  "sb_mini (set_real_sample_rate r s) = sb_mini s"
  "sb_long (set_real_sample_rate r s) = sb_long s"
  "sb_short_median (set_real_sample_rate r s) = sb_short_median s"
  by (simp_all add: set_real_sample_rate_def Let_def)

lemma soft_sync_frame [simp]:
  "sb_current (soft_sync age s) = sb_current s" "sb_chunks (soft_sync age s) = sb_chunks s"
  "sb_format (soft_sync age s) = sb_format s" "sb_short (soft_sync age s) = sb_short s"
  "sb_short_median (soft_sync age s) = sb_short_median s"
  by (simp_all add: soft_sync_def Let_def)

lemma update_buffers_frame [simp]:
  "sb_current (update_buffers age s) = sb_current s" "sb_chunks (update_buffers age s) = sb_chunks s"
  "sb_format (update_buffers age s) = sb_format s" "sb_short (update_buffers age s) = db_add age (sb_short s)"
  "sb_short_median (update_buffers age s) = sb_short_median s"
  "sb_correct_after (update_buffers age s) = sb_correct_after s"
  by (simp_all add: update_buffers_def)

lemma soft_sync_correct_after:
  assumes rate: "sf_rate (sb_format s) \<noteq> 0" and med: "in_i64 (sb_short_median s)"
    and "correct_after_ok (sb_correct_after s)"
  shows "correct_after_ok (sb_correct_after (soft_sync age s))"
proof -
  let ?m = "sb_short_median s"
  have mb: "- (2 ^ 63) \<le> ?m" "?m < 2 ^ 63" using med by (simp_all add: in_i64_def)
  consider (late) "CORRECTION_BEGIN_USEC < ?m \<and> SOFT_SYNC_MIN_USEC < db_median_simple (sb_mini s) \<and> SOFT_SYNC_MIN_USEC < age"
    | (early) "\<not> (CORRECTION_BEGIN_USEC < ?m \<and> SOFT_SYNC_MIN_USEC < db_median_simple (sb_mini s) \<and> SOFT_SYNC_MIN_USEC < age)"
        "?m < - CORRECTION_BEGIN_USEC \<and> db_median_simple (sb_mini s) < - SOFT_SYNC_MIN_USEC \<and> age < - SOFT_SYNC_MIN_USEC"
    | (none) "soft_sync age s = s"
    unfolding soft_sync_def Let_def by presburger
  then show ?thesis
  proof cases
    case late
    then have "100 < ?m" by (simp add: CORRECTION_BEGIN_USEC_def)
    then obtain d where d: "correction_rate ?m = FNum d" "49 / 10 ^ 6 \<le> d" "d \<le> 501 / 10 ^ 6"
      using correction_rate_bounds [of ?m] mb by auto
    have "soft_sync age s = set_real_sample_rate (f64_mul (nominal_rate s) (f64_sub (FNum 1) (FNum d))) s"
      using late by (simp add: soft_sync_def d(1))
    then show ?thesis using real_rate_late [OF rate d(2,3)] by (simp add: correct_after_ok_def)
  next
    case early
    then have sync: "soft_sync age s =
        set_real_sample_rate (f64_mul (nominal_rate s) (f64_add (FNum 1) (correction_rate (wrap_i64 (- ?m))))) s"
      unfolding soft_sync_def Let_def by (simp only: if_False if_True simp_thms)
    show ?thesis
    proof (cases "?m = - (2 ^ 63)")
      case True
      then have w: "wrap_i64 (- ?m) = - (2 ^ 63)" by (simp add: wrap_i64_def)
      obtain d where d: "correction_rate (- (2 ^ 63)) = FNum (- d)" "10 ^ 12 \<le> d" "d \<le> 10 ^ 14"
        by (rule correction_rate_overflow)
      show ?thesis unfolding sync w d(1) real_rate_overflow [OF rate d(2,3)] by (simp add: correct_after_ok_def)
    next
      case False
      then have w: "wrap_i64 (- ?m) = - ?m" using mb by (intro wrap_i64_id) (simp add: in_i64_def)
      have "100 < - ?m" using early(2) by (simp add: CORRECTION_BEGIN_USEC_def)
      then obtain d where d: "correction_rate (- ?m) = FNum d" "49 / 10 ^ 6 \<le> d" "d \<le> 501 / 10 ^ 6"
        using correction_rate_bounds [of "- ?m"] mb by auto
      show ?thesis unfolding sync w d(1) using real_rate_early [OF rate d(2,3)] by (simp add: correct_after_ok_def)
    qed
  next
    case none
    with assms(3) show ?thesis by simp
  qed
qed

lemma nominal_resets: "sf_rate (sb_format s) \<noteq> 0 \<Longrightarrow> sb_correct_after (set_real_sample_rate (nominal_rate s) s) = 0"
proof -
  assume "sf_rate (sb_format s) \<noteq> 0"
  then obtain N where "nominal_rate s = FNum N" by (rule nominal_bounds)
  then show ?thesis
    by (simp add: set_real_sample_rate_def Let_def f64_sub_def f64_round_def F64_EPSILON_def)
qed

lemma median_in_i64:
  assumes "\<forall>a\<in>set (db_buf b). in_i64 a"
  shows "in_i64 (db_median_simple b)"
proof (cases "db_buf b = []")
  case True
  then show ?thesis by (simp add: db_median_simple_def in_i64_def)
next
  case False
  with assms median_simple_in show ?thesis by blast
qed

lemma after_read_ok:
  assumes "stream_ok s" "in_i64 age"
  shows "stream_ok (after_read now age s)"
proof -
  have c: "chunks_ok s" "drift_ok s" using assms(1) by (simp_all add: stream_ok_def)
  have rate: "sf_rate (sb_format s) \<noteq> 0" using c(1) by (simp add: chunks_ok_def)
  define s1 where "s1 = set_real_sample_rate (nominal_rate s) s"
  have s1: "sb_correct_after s1 = 0" using nominal_resets [OF rate] by (simp add: s1_def)
  define s2 where "s2 = (if needs_hard_sync s1 age then s1\<lparr>sb_hard_sync := True\<rparr>
      else if db_full (sb_short s1) then soft_sync age s1 else s1)"
  have s2: "sb_current s2 = sb_current s" "sb_chunks s2 = sb_chunks s" "sb_format s2 = sb_format s"
    "sb_short s2 = sb_short s" "sb_short_median s2 = sb_short_median s"
    by (simp_all add: s2_def s1_def)
  have "correct_after_ok (sb_correct_after s2)"
    using soft_sync_correct_after [of s1 age] rate c(2) s1
    by (simp add: s2_def s1_def drift_ok_def correct_after_ok_def)
  then have s3: "drift_ok (update_buffers age s2)" "chunks_ok (update_buffers age s2)"
    using c assms(2) s2 db_add_set [of age "sb_short s"]
      chunks_ok_cong [of "update_buffers age s2" s] by (auto simp: drift_ok_def)
  have "in_i64 (db_median_simple (sb_short (update_buffers age s2)))"
    using s3(1) by (intro median_in_i64) (simp add: drift_ok_def)
  moreover have "after_read now age s =
      (if now sdiv 1000000 \<noteq> sb_last_log_sec (update_buffers age s2)
       then (update_buffers age s2)\<lparr>sb_last_log_sec := now sdiv 1000000,
          sb_median := db_median_simple (sb_long (update_buffers age s2)),
          sb_short_median := db_median_simple (sb_short (update_buffers age s2)), sb_frame_delta := 0\<rparr>
       else update_buffers age s2)"
    by (simp add: after_read_def Let_def s2_def s1_def)
  ultimately show ?thesis using s3
    by (simp add: stream_ok_def drift_ok_def chunks_ok_def fsize_def)
qed

lemma chunk_age_in_i64: "in_i64 (chunk_age s now dac start)"
  unfolding chunk_age_def by (rule wrap_i64_range)

lemma frames_correction_ok:
  assumes "correct_after_ok (sb_correct_after s)"
  obtains p c where "frames_correction s frames = Some (s\<lparr>sb_played_frames := p\<rparr>, c)" "\<bar>c\<bar> \<le> 2 ^ 21"
proof (cases "sb_correct_after s = 0")
  case True
  then have "frames_correction s frames = Some (s\<lparr>sb_played_frames := sb_played_frames s\<rparr>, 0)"
    by (simp add: frames_correction_def)
  then show thesis by (rule that) simp
next
  case False
  define n where "n = sb_correct_after s"
  define played where "played = sb_played_frames s + word_of_nat frames"
  have n: "1900 \<le> \<bar>n\<bar>" using assms False by (simp add: correct_after_ok_def n_def)
  have pb: "\<bar>sint played\<bar> \<le> 2 ^ 31" using sint_i32_bounds [of played] by simp
  have "\<bar>sint played sdiv n\<bar> = \<bar>sint played\<bar> div \<bar>n\<bar>"
    using n by (cases "sint played = 0"; cases "n = 0")
      (simp_all add: signed_divide_int_def sgn_mult abs_mult pos_imp_zdiv_nonneg_iff)
  also have "\<dots> \<le> \<bar>sint played\<bar> div 1900" using n by (intro zdiv_mono2) simp_all
  also have "\<dots> \<le> 2 ^ 31 div 1900" using pb by (rule zdiv_mono1) simp
  finally have q: "\<bar>sint played sdiv n\<bar> \<le> 2 ^ 21" by simp
  show thesis
  proof (cases "nat \<bar>n\<bar> \<le> unat played")
    case True
    then have "frames_correction s frames =
        Some (s\<lparr>sb_played_frames := word_of_nat (unat played mod nat \<bar>n\<bar>)\<rparr>, sint played sdiv n)"
      using False n by (auto simp: frames_correction_def Let_def n_def [symmetric] played_def [symmetric])
    then show thesis using q by (rule that)
  next
    case f: False
    then have "frames_correction s frames = Some (s\<lparr>sb_played_frames := played\<rparr>, 0)"
      using False by (auto simp: frames_correction_def Let_def n_def [symmetric] played_def [symmetric])
    then show thesis by (rule that) simp
  qed
qed

text \<open>The common contract of the two ways of reading.\<close>

lemma read_any_ok:
  assumes ok: "stream_ok s" "sb_current s \<noteq> None"
    and fr: "0 < frames" "frames \<le> 2 ^ 30" "\<bar>c\<bar> \<le> 2 ^ 21" and room: "frames * fsize s \<le> length out"
  obtains s' out' ts where "read_with_correction s out frames c = Some (s', out', Some ts)"
    "stream_ok s'" "length out' = length out" "fsize s' = fsize s"
proof (cases "c = 0")
  case True
  obtain ch where ch: "sb_current s = Some ch" using ok(2) by blast
  have c: "chunks_ok s" using ok(1) by (simp add: stream_ok_def)
  define w where "w = min (frames * fsize s) (length (stream_pending s))"
  obtain s' ts where rn: "read_next s out frames = Some (s', take w (stream_pending s) @ drop w out, Some ts)"
    and s': "chunks_ok s'" "same_sync s s'"
    using read_next_ok [OF c ch room w_def] by blast
  have "w \<le> length out" using room by (simp add: w_def)
  moreover have "drift_ok s'" "fsize s' = fsize s"
    using s'(2) ok(1) by (auto simp: same_sync_def stream_ok_def drift_ok_def fsize_def)
  ultimately show thesis using rn s' True
    by (intro that [of s' "take w (stream_pending s) @ drop w out" ts])
      (simp_all add: read_with_correction_def stream_ok_def w_def)
next
  case False
  have c: "chunks_ok s" using ok(1) by (simp add: stream_ok_def)
  obtain s' out' ts buf b t where rd: "read_with_correction s out frames c = Some (s', out', Some ts)"
    and s': "chunks_ok s'" "length out' = length out"
    "same_sync (s\<lparr>sb_frame_delta := wrap_i32 (sb_frame_delta s - max c (1 - int frames)), sb_read_buf := b\<rparr>) t"
    "s' = t\<lparr>sb_read_buf := buf\<rparr>"
    using read_with_correction_ok [OF c ok(2) fr False room refl refl] by blast
  have "drift_ok s'" "fsize s' = fsize s"
    using s'(3) ok(1) unfolding s'(4) by (auto simp: same_sync_def stream_ok_def drift_ok_def fsize_def)
  with rd s'(1,2) show thesis by (intro that [of s' out' ts]) (simp_all add: stream_ok_def)
qed

lemma read_tail_ok:
  assumes "chunks_ok s" "sb_current s \<noteq> None" "frames * fsize s \<le> length out"
  obtains s' out' ts where "read_next s out frames = Some (s', out', ts)" "chunks_ok s'"
    "length out' = length out" "same_sync s s'" "sb_current s' \<noteq> None"
proof -
  define w where "w = min (frames * fsize s) (length (stream_pending s))"
  obtain ch where ch: "sb_current s = Some ch" using assms(2) by blast
  obtain s' ts where "read_next s out frames = Some (s', take w (stream_pending s) @ drop w out, Some ts)"
    "chunks_ok s'" "same_sync s s'" "sb_current s' \<noteq> None"
    using read_next_ok [OF assms(1) ch assms(3) w_def] by blast
  moreover have "w \<le> length out" using assms(3) by (simp add: w_def)
  ultimately show thesis
    by (intro that [of s' "take w (stream_pending s) @ drop w out" "Some ts"]) (simp_all add: w_def)
qed

subsection \<open>The hard sync\<close>

lemma seek_ok: "chunk_ok f c \<Longrightarrow> chunk_ok f (seek n c)"
proof -
  assume c: "chunk_ok f c"
  let ?fs = "unat (frame_size f)"
  have fmt: "pc_format c = f" using c by (simp add: chunk_ok_def)
  show ?thesis
  proof (cases "n * ?fs \<le> length (chunk_rest c)")
    case True
    have "pc_read_pos c + n * ?fs \<le> length (pc_data c)"
      using True c by (auto simp: chunk_rest_def chunk_ok_def)
    then have "seek n c = c\<lparr>pc_read_pos := pc_read_pos c + n * ?fs\<rparr>" by (simp add: seek_def fmt)
    then show ?thesis using chunk_ok_advance [OF c refl True] by simp
  next
    case False
    then have "\<not> pc_read_pos c + n * ?fs \<le> length (pc_data c)"
      using c by (auto simp: chunk_rest_def chunk_ok_def)
    then have "seek n c = c\<lparr>pc_read_pos := length (pc_data c)\<rparr>" by (simp add: seek_def fmt)
    then show ?thesis using c by (simp add: chunk_ok_def chunk_rest_def)
  qed
qed

lemma skip_late_ok:
  "\<forall>x\<in>set cs. chunk_ok f x \<Longrightarrow> skip_late s now dac cs = (c, cs') \<Longrightarrow>
   \<forall>x\<in>set_option c \<union> set cs'. chunk_ok f x"
  by (induction cs) (auto simp: Let_def seek_ok split: if_splits)

lemma stream_ok_queue:
  assumes "stream_ok s" "\<forall>x\<in>set_option cur \<union> set cs. chunk_ok (sb_format s) x"
  shows "stream_ok (s\<lparr>sb_current := cur, sb_chunks := cs\<rparr>)"
  using assms by (simp add: stream_ok_def chunks_ok_def drift_ok_def fsize_def)

lemma hard_sync_start_ok:
  assumes ok: "stream_ok s" "sb_current s \<noteq> None" and room: "frames * fsize s \<le> length out"
  obtains s' out' b where "hard_sync_start s age out frames = Some (s', out', b)"
    "stream_ok s'" "length out' = length out"
proof (cases "0 < age")
  case True
  with ok show thesis by (intro that [of s out False]) (simp_all add: hard_sync_start_def)
next
  case False
  define silent where "silent = min (usec_frames s (wrap_i64 (- age))) frames"
  define off where "off = silent * fsize s"
  have le: "off + (frames - silent) * fsize s \<le> length out"
  proof -
    have "silent * fsize s + (frames - silent) * fsize s = frames * fsize s"
      unfolding silent_def by (simp flip: add_mult_distrib)
    then show ?thesis using room by (simp add: off_def)
  qed
  define out1 where "out1 = replicate off 0 @ drop off out"
  have l1: "length out1 = length out" "(frames - silent) * fsize s \<le> length (drop off out1)"
    using le by (simp_all add: out1_def)
  have c: "chunks_ok s" using ok(1) by (simp add: stream_ok_def)
  obtain t tail ts where tl: "(if 0 < frames - silent then read_next s (drop off out1) (frames - silent)
      else Some (s, drop off out1, None)) = Some (t, tail, ts)"
    "chunks_ok t" "length tail = length out - off" "same_sync s t"
  proof (cases "0 < frames - silent")
    case True
    obtain t tail ts where "read_next s (drop off out1) (frames - silent) = Some (t, tail, ts)" "chunks_ok t"
      "length tail = length (drop off out1)" "same_sync s t"
      using read_tail_ok [OF c ok(2) l1(2)] by metis
    with True l1(1) show thesis by (intro that [of t tail ts]) simp_all
  next
    case False
    have "same_sync s s" by (simp add: same_sync_def) (rule exI [of _ "sb_current s"], rule exI [of _ "sb_chunks s"], simp)
    with False c l1(1) show thesis by (intro that [of s "drop off out1" None]) simp_all
  qed
  have d: "drift_ok t" using tl(4) ok(1) by (auto simp: same_sync_def stream_ok_def drift_ok_def)
  define s' where "s' = (if silent < frames then reset_buffers (t\<lparr>sb_hard_sync := False\<rparr>) else t)"
  have "stream_ok s'" using d tl(2)
    by (auto simp: s'_def stream_ok_def drift_ok_def reset_buffers_def chunks_ok_def fsize_def)
  moreover have "hard_sync_start s age out frames = Some (s', take off out1 @ tail, True)"
    unfolding hard_sync_start_def Let_def fsize_def [symmetric] silent_def [symmetric] off_def [symmetric]
      out1_def [symmetric] tl(1)
    using False le by (simp add: s'_def)
  moreover have "length (take off out1 @ tail) = length out" using tl(3) le by (simp add: l1)
  ultimately show thesis by (intro that [of s' "take off out1 @ tail" True])
qed

lemma get_silence_length: "length (get_silence s out frames) = length out"
  by (simp add: get_silence_def Let_def)

lemma hard_sync_chunk_ok:
  assumes ok: "stream_ok s" "sb_current s \<noteq> None" and room: "frames * fsize s \<le> length out"
  obtains s' out' b where "hard_sync_chunk s now dac out frames = Some (s', out', b)"
    "stream_ok s'" "length out' = length out"
proof -
  obtain c where c: "sb_current s = Some c" using ok(2) by blast
  have rate: "uint (sf_rate (sb_format s)) \<noteq> 0"
    using ok(1) by (simp add: stream_ok_def chunks_ok_def uint_0_iff)
  let ?age = "chunk_age s now dac (start_usec c)"
  show thesis
  proof (cases "?age < - (wrap_i64 (int frames * 1000000) sdiv uint (sf_rate (sb_format s)))")
    case True
    then have "hard_sync_chunk s now dac out frames = Some (s, get_silence s out frames, True)"
      using c rate by (simp add: hard_sync_chunk_def)
    with ok(1) show thesis
      by (intro that [of s "get_silence s out frames" True]) (simp_all add: get_silence_length)
  next
    case False
    obtain d ds where sl: "skip_late s now dac (sb_chunks s) = (d, ds)" by fastforce
    define t where "t = (if 0 < ?age then s\<lparr>sb_current := d, sb_chunks := ds\<rparr> else s)"
    have "\<forall>x\<in>set_option d \<union> set ds. chunk_ok (sb_format s) x"
      using skip_late_ok [OF _ sl] ok(1) by (simp add: stream_ok_def chunks_ok_def)
    then have t: "stream_ok t" "fsize t = fsize s"
      using stream_ok_queue [OF ok(1)] ok(1) by (simp_all add: t_def fsize_def)
    have step: "hard_sync_chunk s now dac out frames =
      (case sb_current t of None \<Rightarrow> Some (t, out, False)
       | Some chunk \<Rightarrow> hard_sync_start t (chunk_age t now dac (start_usec chunk)) out frames)"
      using False c rate unfolding hard_sync_chunk_def Let_def t_def sl prod.case by simp
    show thesis
    proof (cases "sb_current t")
      case None
      with t step show thesis by (intro that [of t out False]) simp_all
    next
      case (Some chunk)
      obtain s' out' b where "hard_sync_start t (chunk_age t now dac (start_usec chunk)) out frames = Some (s', out', b)"
        "stream_ok s'" "length out' = length out"
        using hard_sync_start_ok [OF t(1) _ room [folded t(2)]] Some by blast
      with step Some show thesis by (intro that [of s' out' b]) simp_all
    qed
  qed
qed

text \<open>The step before: a finished chunk is replaced by the next one.\<close>

definition next_chunk :: "stream_buffer \<Rightarrow> stream_buffer" where
  "next_chunk s =
     (if (case sb_current s of None \<Rightarrow> True | Some c \<Rightarrow> is_end c) then
        (case sb_chunks s of
           [] \<Rightarrow> s\<lparr>sb_current := None\<rparr>
         | c # cs \<Rightarrow> s\<lparr>sb_current := Some c, sb_chunks := cs\<rparr>)
      else s)"

lemma get_player_chunk_alt:
  "get_player_chunk s now dac out frames =
     (if sb_current (next_chunk s) = None then Some (next_chunk s, out, False)
      else if sb_hard_sync (next_chunk s) then hard_sync_chunk (next_chunk s) now dac out frames
      else
        (case frames_correction (next_chunk s) frames of
           None \<Rightarrow> None
         | Some (s, correction) \<Rightarrow>
             (case read_with_correction s out frames correction of
                None \<Rightarrow> None
              | Some (s, out, None) \<Rightarrow> Some (s, out, False)
              | Some (s, out, Some start) \<Rightarrow>
                  Some (after_read now (chunk_age s now dac start) s, out,
                    abs_i64 (chunk_age s now dac start) < 500000))))"
  unfolding get_player_chunk_def Let_def next_chunk_def ..

lemma next_chunk_ok:
  assumes "stream_ok s"
  shows "stream_ok (next_chunk s)" "fsize (next_chunk s) = fsize s"
proof -
  have "stream_ok (s\<lparr>sb_current := cur, sb_chunks := cs\<rparr>)"
    if "\<forall>x\<in>set_option cur \<union> set cs. chunk_ok (sb_format s) x" for cur cs
    using stream_ok_queue [OF assms that] .
  from this [of None "[]"] this [of "Some (hd (sb_chunks s))" "tl (sb_chunks s)"] assms
  show "stream_ok (next_chunk s)"
    by (cases "sb_chunks s") (auto simp: next_chunk_def stream_ok_def chunks_ok_def drift_ok_def fsize_def
        split: option.splits)
  show "fsize (next_chunk s) = fsize s"
    by (cases "sb_chunks s") (simp_all add: next_chunk_def fsize_def)
qed

text \<open>On a well-formed stream every request for audio returns, whatever the clocks say: no slice
  out of range, no division fault, no endless loop.  The state stays well formed, in particular
  the rate adjustment stays between one frame in 1900 and one in 23000, and the output keeps its
  length.\<close>

lemma get_player_chunk_total:
  assumes "stream_ok s" "0 < frames" "frames \<le> 2 ^ 30" "frames * fsize s \<le> length out"
  shows "\<exists>s' out' played. get_player_chunk s now dac out frames = Some (s', out', played) \<and>
    stream_ok s' \<and> length out' = length out"
proof -
  define t where "t = next_chunk s"
  have t: "stream_ok t" "fsize t = fsize s" using next_chunk_ok [OF assms(1)] by (simp_all add: t_def)
  show ?thesis
  proof (cases "sb_current t = None \<or> sb_hard_sync t")
    case True
    then show ?thesis
      using hard_sync_chunk_ok [OF t(1) _ assms(4) [folded t(2)], of now dac] t(1)
      unfolding get_player_chunk_alt t_def [symmetric] by (cases "sb_current t = None") (auto, metis)
  next
    case False
    obtain p c where fc: "frames_correction t frames = Some (t\<lparr>sb_played_frames := p\<rparr>, c)" "\<bar>c\<bar> \<le> 2 ^ 21"
      using frames_correction_ok t(1) unfolding stream_ok_def drift_ok_def by blast
    let ?t = "t\<lparr>sb_played_frames := p\<rparr>"
    have t': "stream_ok ?t" "fsize ?t = fsize s" "sb_current ?t \<noteq> None"
      using t False by (simp_all add: stream_ok_def drift_ok_def chunks_ok_def fsize_def)
    obtain s' out' ts where rd: "read_with_correction ?t out frames c = Some (s', out', Some ts)"
      "stream_ok s'" "length out' = length out"
      using read_any_ok [OF t'(1,3) assms(2,3) fc(2)] assms(4) t'(2) by metis
    then have "get_player_chunk s now dac out frames =
        Some (after_read now (chunk_age s' now dac ts) s', out', abs_i64 (chunk_age s' now dac ts) < 500000)"
      using False fc by (auto simp: get_player_chunk_alt t_def [symmetric])
    with rd after_read_ok [OF rd(2) chunk_age_in_i64] show ?thesis by blast
  qed
qed

lemma demo_sync_ok: "stream_ok demo_stream"
  by (simp add: stream_ok_def demo_stream_ok)
    (simp add: drift_ok_def demo_stream_def sb_new_def sb_with_encoding_def correct_after_ok_def in_i64_def)

lemma get_player_chunk_total_witness:
  "\<exists>s' out' played. get_player_chunk demo_stream 7 0 (replicate 8 0) 4 = Some (s', out', played) \<and>
    stream_ok s' \<and> length out' = length (replicate 8 (0 :: u8))"
  by (rule get_player_chunk_total [OF demo_sync_ok]) (simp_all add: demo_stream_fsize)

subsection \<open>When the hard sync plays\<close>

lemma usec_frames_exact:
  assumes "sf_rate (sb_format s) \<noteq> 0" "0 \<le> a" "uint (sf_rate (sb_format s)) * a < 2 ^ 50"
  shows "usec_frames s a = nat (min (uint (sf_rate (sb_format s)) * a div 1000000) (2 ^ 32 - 1))"
proof -
  let ?r = "uint (sf_rate (sb_format s))"
  obtain N where N: "nominal_rate s = FNum N" "N = of_int ?r" using nominal_bounds [OF assms(1)] by metis
  have "0 \<noteq> ?r" "0 \<le> ?r" using assms(1) by (simp_all add: uint_0_iff)
  then have r: "1 \<le> ?r" by linarith
  have "1 * a \<le> ?r * a" using r assms(2) by (rule mult_right_mono)
  then have "f64_of_int a = FNum (of_int a)" using assms(2,3) by (intro f64_of_int_exact) simp
  moreover have "f64_round (of_int (?r * a)) = FNum (of_int (?r * a))"
  proof -
    have "0 \<le> ?r * a" using r assms(2) by simp
    then show ?thesis
      using f64_of_int_exact [of "?r * a"] assms(3) by (simp add: f64_of_int_def)
  qed
  moreover have "0 \<le> ?r * a" using r assms(2) by simp
  ultimately show ?thesis
    using f64_floor_div [of "?r * a" 1000000] assms(3) by (simp add: usec_frames_def N)
qed

lemma next_chunk_same: "sb_current s = Some c \<Longrightarrow> \<not> is_end c \<Longrightarrow> next_chunk s = s"
  by (simp add: next_chunk_def)

text \<open>A hard sync whose chunk starts \<open>- age\<close> microseconds from now, within the request, plays
  exactly the whole frames of silence that fit in that time, although it computes them in doubles,
  and then the pending audio: the first frame comes early by less than one frame.  It then leaves
  the hard sync.\<close>

lemma hard_sync_starts_on_time:
  assumes ok: "stream_ok s" "sb_current s = Some c" "\<not> is_end c" "sb_hard_sync s"
    and room: "frames \<le> 2 ^ 30" "frames * fsize s \<le> length out"
    and early: "a = - chunk_age s now dac (start_usec c)" "0 \<le> a"
      "uint (sf_rate (sb_format s)) * a < int frames * 1000000"
    and silent: "silent = nat (uint (sf_rate (sb_format s)) * a div 1000000)"
    and w: "w = min ((frames - silent) * fsize s) (length (stream_pending s))"
  shows "\<exists>s'. get_player_chunk s now dac out frames =
      Some (s', replicate (silent * fsize s) 0 @ take w (stream_pending s) @
        drop (silent * fsize s + w) out, True) \<and>
    \<not> sb_hard_sync s' \<and> stream_pending s' = drop w (stream_pending s)"
proof -
  let ?r = "uint (sf_rate (sb_format s))"
  have c: "chunks_ok s" using ok(1) by (simp add: stream_ok_def)
  have rate: "sf_rate (sb_format s) \<noteq> 0" using c by (simp add: chunks_ok_def)
  then have r0: "?r \<noteq> 0" "0 < ?r" by (simp_all add: uint_0_iff le_less [THEN iffD1, OF uint_ge_0] less_le)
  have f30: "int frames \<le> 2 ^ 30" using room(1) by simp
  then have small: "?r * a < 2 ^ 50" using early(3) by simp
  have lt: "silent < frames"
    using early(2,3) r0 by (simp add: silent nat_less_iff div_less_iff_less_mult pos_imp_zdiv_nonneg_iff)
  have uf: "usec_frames s a = silent"
  proof -
    have "int silent = ?r * a div 1000000"
      using early(2) r0 by (simp add: silent pos_imp_zdiv_nonneg_iff)
    moreover have "int silent \<le> 2 ^ 32 - 1" using lt f30 by simp
    ultimately show ?thesis using usec_frames_exact [OF rate early(2) small] by (simp add: min_def)
  qed
  have wf: "wrap_i64 (int frames * 1000000) = int frames * 1000000"
    using room(1) by (intro wrap_i64_id) (simp add: in_i64_def)
  have "int frames * 1000000 sdiv ?r = int frames * 1000000 div ?r"
    using r0 by (simp add: signed_divide_int_def sgn_if)
  moreover have "a \<le> int frames * 1000000 div ?r"
  proof -
    have "a * ?r div ?r \<le> int frames * 1000000 div ?r"
      using early(3) r0 by (intro zdiv_mono1) (simp_all add: mult.commute)
    then show ?thesis unfolding nonzero_mult_div_cancel_right [OF r0(1)] .
  qed
  ultimately have nreq: "\<not> chunk_age s now dac (start_usec c) < - (wrap_i64 (int frames * 1000000) sdiv ?r)"
    using early(1) wf by simp
  have age: "\<not> 0 < chunk_age s now dac (start_usec c)" using early(1,2) by simp
  have wa: "wrap_i64 (- chunk_age s now dac (start_usec c)) = a"
  proof -
    have "1 * a \<le> ?r * a" using r0 early(2) by (intro mult_right_mono) simp_all
    then show ?thesis using small early(1,2) by (intro trans [OF wrap_i64_id]) (simp_all add: in_i64_def)
  qed
  define off where "off = silent * fsize s"
  have le: "off + (frames - silent) * fsize s \<le> length out"
    using room(2) lt unfolding off_def by (simp flip: add_mult_distrib)
  have w_le: "w \<le> length out - off" using le by (simp add: w)
  define out1 where "out1 = replicate off 0 @ drop off out"
  have l1: "(frames - silent) * fsize s \<le> length (drop off out1)" using le by (simp add: out1_def)
  obtain s1 ts where rn: "read_next s (drop off out1) (frames - silent) =
      Some (s1, take w (stream_pending s) @ drop w (drop off out1), Some ts)"
    and s1: "stream_pending s1 = drop w (stream_pending s)"
    using read_next_ok [OF c ok(2) l1 w] by blast
  define s' where "s' = reset_buffers (s1\<lparr>sb_hard_sync := False\<rparr>)"
  have "hard_sync_start s (chunk_age s now dac (start_usec c)) out frames =
      Some (s', take off out1 @ take w (stream_pending s) @ drop w (drop off out1), True)"
    unfolding hard_sync_start_def Let_def wa uf fsize_def [symmetric] min_absorb1 [OF less_imp_le [OF lt]]
      off_def [symmetric] out1_def [symmetric] rn
    using age lt le by (simp add: s'_def)
  moreover have "take off out1 = replicate off 0" "drop w (drop off out1) = drop (off + w) out"
    by (simp_all add: out1_def add.commute)
  ultimately have "hard_sync_chunk s now dac out frames =
      Some (s', replicate off 0 @ take w (stream_pending s) @ drop (off + w) out, True)"
    using ok(2) r0 nreq age by (simp add: hard_sync_chunk_def Let_def)
  then have "get_player_chunk s now dac out frames =
      Some (s', replicate off 0 @ take w (stream_pending s) @ drop (off + w) out, True)"
    using ok by (simp add: get_player_chunk_alt next_chunk_same)
  moreover have "\<not> sb_hard_sync s'" "stream_pending s' = drop w (stream_pending s)"
    using s1 by (simp_all add: s'_def reset_buffers_def stream_pending_def)
  ultimately show ?thesis unfolding off_def by blast
qed

text \<open>The demonstration stream, half a millisecond before its first frame is due.\<close>

lemma demo_parts:
  "sb_hard_sync demo_stream" "\<not> is_end (demo_pcm [1, 2, 3, 4])"
  "uint (sf_rate (sb_format demo_stream)) = 48000"
  "chunk_age demo_stream now dac (start_usec (demo_pcm bs)) = wrap_i64 (now - 1000000 + dac)"
  by (simp_all add: demo_stream_def sb_new_def sb_with_encoding_def demo_pcm_def pc_new_def is_end_def
      pc_new_with_encoding_def demo_format_def sf_new_def chunk_age_def start_usec_def tv_zero_def to_usec_def)

lemma hard_sync_starts_on_time_witness:
  "\<exists>s'. get_player_chunk demo_stream 999950 0 (replicate 8 9) 4 =
      Some (s', [0, 0, 0, 0, 1, 2, 3, 4], True) \<and>
    \<not> sb_hard_sync s' \<and> stream_pending s' = [5, 6, 7, 8, 9, 10]"
proof -
  have age: "chunk_age demo_stream 999950 0 (start_usec (demo_pcm [1, 2, 3, 4])) = - 50"
    unfolding demo_parts(4) by (simp add: wrap_i64_def)
  have w: "(4 :: nat) = min ((4 - 2) * fsize demo_stream) (length (stream_pending demo_stream))"
    by (simp add: demo_stream_fsize demo_stream_pending)
  have silent: "2 = nat (uint (sf_rate (sb_format demo_stream)) * 50 div 1000000)"
    by (simp add: demo_parts(3))
  have "\<exists>s'. get_player_chunk demo_stream 999950 0 (replicate 8 9) 4 =
      Some (s', replicate (2 * fsize demo_stream) 0 @ take 4 (stream_pending demo_stream) @
        drop (2 * fsize demo_stream + 4) (replicate 8 9), True) \<and>
    \<not> sb_hard_sync s' \<and> stream_pending s' = drop 4 (stream_pending demo_stream)"
    by (rule hard_sync_starts_on_time [OF demo_sync_ok demo_stream_current demo_parts(2,1) _ _ _ _ _ silent w])
      (simp_all add: demo_parts(3) age demo_stream_fsize)
  moreover have "replicate 4 (0 :: u8) = [0, 0, 0, 0]" by (simp add: numeral_eq_Suc)
  ultimately show ?thesis by (simp add: demo_stream_fsize demo_stream_pending)
qed

lemma start_usec_seek [simp]: "start_usec (seek n c) = start_usec c"
  by (simp add: start_usec_def seek_def)

lemma skip_late_all_late:
  "\<forall>d\<in>set cs. 0 < chunk_age s now dac (start_usec d) \<Longrightarrow> skip_late s now dac cs = (cur, rest) \<Longrightarrow>
   \<forall>d\<in>set_option cur. 0 < chunk_age s now dac (start_usec d)"
  by (induction cs) (auto simp: Let_def split: if_splits)

lemma skip_late_length: "skip_late s now dac cs = (d, ds) \<Longrightarrow> length ds \<le> length cs - 1"
proof (induction cs)
  case (Cons c cs)
  then show ?case by (cases cs) (auto simp: Let_def split: if_splits)
qed simp

text \<open>A hard sync never plays from a chunk that has begun: while every chunk is late, even one that
  covers the present moment and into which it has just sought, a request gets nothing and the
  stream stays in hard sync; the chunk it sought into is dropped by the next request.\<close>

lemma hard_sync_never_plays_late_chunk:
  assumes cur: "sb_current s = Some c" "\<not> is_end c" "sb_hard_sync s" "sf_rate (sb_format s) \<noteq> 0"
    and age: "0 < chunk_age s now dac (start_usec c)"
    and late: "\<forall>d\<in>set (sb_chunks s). 0 < chunk_age s now dac (start_usec d)"
    and frames: "frames < 2 ^ 32"
  shows "\<exists>s'. get_player_chunk s now dac out frames = Some (s', out, False) \<and> sb_hard_sync s' \<and>
    length (sb_chunks s') \<le> length (sb_chunks s) - 1"
proof -
  let ?r = "uint (sf_rate (sb_format s))"
  have r0: "?r \<noteq> 0" "0 < ?r" using cur(4) by (simp_all add: uint_0_iff less_le)
  have "wrap_i64 (int frames * 1000000) = int frames * 1000000"
    using frames by (intro wrap_i64_id) (simp add: in_i64_def)
  then have "0 \<le> wrap_i64 (int frames * 1000000) sdiv ?r"
    using r0 by (simp add: signed_divide_int_def sgn_if pos_imp_zdiv_nonneg_iff)
  then have nreq: "\<not> chunk_age s now dac (start_usec c) < - (wrap_i64 (int frames * 1000000) sdiv ?r)"
    using age by linarith
  obtain d ds where sl: "skip_late s now dac (sb_chunks s) = (d, ds)" by fastforce
  have dlate: "\<forall>x\<in>set_option d. 0 < chunk_age s now dac (start_usec x)" by (rule skip_late_all_late [OF late sl])
  have len: "length ds \<le> length (sb_chunks s) - 1"
    using sl by (rule skip_late_length)
  define s' where "s' = s\<lparr>sb_current := d, sb_chunks := ds\<rparr>"
  have "chunk_age s' now dac start = chunk_age s now dac start" for start by (simp add: chunk_age_def s'_def)
  then have "hard_sync_chunk s now dac out frames = Some (s', out, False)"
    using cur(1) r0 nreq age dlate unfolding hard_sync_chunk_def Let_def sl prod.case s'_def [symmetric]
    by (cases d) (simp_all add: s'_def hard_sync_start_def)
  then have "get_player_chunk s now dac out frames = Some (s', out, False)"
    using cur by (simp add: get_player_chunk_alt next_chunk_same)
  then show ?thesis using cur(3) len by (simp add: s'_def)
qed

text \<open>At one second and 1050 microseconds, the second chunk, 62 microseconds long, has just begun.\<close>

lemma hard_sync_never_plays_late_chunk_witness:
  "\<exists>s'. get_player_chunk demo_stream 1000050 0 (replicate 8 9) 4 = Some (s', replicate 8 9, False) \<and>
    sb_hard_sync s' \<and> length (sb_chunks s') \<le> length (sb_chunks demo_stream) - 1"
proof -
  have age: "chunk_age demo_stream 1000050 0 (start_usec (demo_pcm bs)) = 50" for bs
    unfolding demo_parts(4) by (simp add: wrap_i64_def)
  have "sb_chunks demo_stream = [demo_pcm [5, 6, 7, 8, 9, 10]]" by (simp add: demo_stream_def)
  moreover have "sf_rate (sb_format demo_stream) \<noteq> 0"
    by (simp add: demo_stream_def sb_new_def sb_with_encoding_def demo_format_def sf_new_def)
  ultimately show ?thesis
    by (intro hard_sync_never_plays_late_chunk [OF demo_stream_current demo_parts(2,1)]) (simp_all add: age)
qed

end
