(* ===== verification/F32Lz4.thy ===== *)
theory F32Lz4
  imports PcmCodec Messages
begin

text \<open>
  The lossless float codec, plain and encrypted: the encoder (\<open>snapcast-server/src/encoder/f32lz4.rs\<close>,
  \<open>crypto.rs\<close>), the decoder (\<open>snapcast-client/src/decoder/f32lz4.rs\<close>, \<open>crypto.rs\<close>) and the constants
  they share (\<open>snapcast-proto/src/f32lz4.rs\<close>).  LZ4, HKDF-SHA256 and ChaCha20-Poly1305 are the fields
  of \<open>f32_libs\<close>; float samples are given by their bits.
\<close>

record f32_libs =
  lz4_compress :: "u8 list \<Rightarrow> u8 list"
  lz4_decompress :: "u8 list \<Rightarrow> string + u8 list"
  hkdf :: "u8 list \<Rightarrow> u8 list \<Rightarrow> u8 list \<Rightarrow> u8 list"  \<comment> \<open>salt, key material, info\<close>
  aead_seal :: "u8 list \<Rightarrow> u8 list \<Rightarrow> u8 list \<Rightarrow> u8 list option"  \<comment> \<open>key, nonce, plaintext\<close>
  aead_open :: "u8 list \<Rightarrow> u8 list \<Rightarrow> u8 list \<Rightarrow> u8 list option"

definition F32LZ4_MAGIC :: "u8 list" where "F32LZ4_MAGIC = as_bytes ''F32L''"
definition F32LZ4_HEADER_LEN :: nat where "F32LZ4_HEADER_LEN = 12"
definition F32LZ4_ENC_MARKER :: "u8 list" where "F32LZ4_ENC_MARKER = as_bytes ''ENC'' @ [0]"
definition F32LZ4_SALT_LEN :: nat where "F32LZ4_SALT_LEN = 16"
definition F32LZ4_ENC_HEADER_LEN :: nat where
  "F32LZ4_ENC_HEADER_LEN = F32LZ4_HEADER_LEN + length F32LZ4_ENC_MARKER + F32LZ4_SALT_LEN"
definition CRYPTO_NONCE_LEN :: nat where "CRYPTO_NONCE_LEN = 12"
definition CRYPTO_TAG_LEN :: nat where "CRYPTO_TAG_LEN = 16"
definition CRYPTO_HKDF_INFO :: "u8 list" where "CRYPTO_HKDF_INFO = as_bytes ''snapcast-f32lz4e''"

lemmas f32lz4_consts = F32LZ4_MAGIC_def F32LZ4_HEADER_LEN_def F32LZ4_ENC_MARKER_def F32LZ4_SALT_LEN_def
  F32LZ4_ENC_HEADER_LEN_def CRYPTO_NONCE_LEN_def CRYPTO_TAG_LEN_def

subsection \<open>Encryption of chunks\<close>

definition derive_key :: "f32_libs \<Rightarrow> u8 list \<Rightarrow> u8 list \<Rightarrow> u8 list" where
  "derive_key libs psk salt = hkdf libs salt psk CRYPTO_HKDF_INFO"

record encryptor =
  ek_key :: "u8 list"
  ek_counter :: nat

definition encryptor_new :: "f32_libs \<Rightarrow> string \<Rightarrow> u8 list \<Rightarrow> encryptor" where
  "encryptor_new libs psk salt = \<lparr>ek_key = derive_key libs (as_bytes psk) salt, ek_counter = 0\<rparr>"

definition nonce_of :: "nat \<Rightarrow> u8 list" where
  "nonce_of counter = le_enc 8 counter @ replicate (CRYPTO_NONCE_LEN - 8) 0"

definition encrypt :: "f32_libs \<Rightarrow> u8 list \<Rightarrow> encryptor \<Rightarrow> u8 list option \<times> encryptor" where
  "encrypt libs plaintext e =
     (let nonce = nonce_of (ek_counter e) in
      (map_option (\<lambda>c. nonce @ c) (aead_seal libs (ek_key e) nonce plaintext),
       e\<lparr>ek_counter := (ek_counter e + 1) mod 2 ^ 64\<rparr>))"

definition decrypt :: "f32_libs \<Rightarrow> u8 list \<Rightarrow> u8 list \<Rightarrow> u8 list option" where
  "decrypt libs key data =
     (if length data < CRYPTO_NONCE_LEN + CRYPTO_TAG_LEN then None
      else aead_open libs key (take CRYPTO_NONCE_LEN data) (drop CRYPTO_NONCE_LEN data))"

subsection \<open>Encoder\<close>

record f32lz4_encoder =
  le_format :: sample_format
  le_header :: "u8 list"
  le_encryptor :: "encryptor option"

definition f32lz4_new :: "sample_format \<Rightarrow> f32lz4_encoder" where
  "f32lz4_new format =
     \<lparr>le_format = format,
      le_header = F32LZ4_MAGIC @ le_enc 4 (unat (sf_rate format)) @ le_enc 2 (unat (sf_channels format)) @ le_enc 2 32,
      le_encryptor = None\<rparr>"

definition with_encryption :: "f32_libs \<Rightarrow> string \<Rightarrow> u8 list \<Rightarrow> f32lz4_encoder \<Rightarrow> f32lz4_encoder" where
  "with_encryption libs psk salt e =
     e\<lparr>le_encryptor := Some (encryptor_new libs psk salt),
       le_header := le_header e @ F32LZ4_ENC_MARKER @ salt\<rparr>"

definition f32_bytes :: "sample_format \<Rightarrow> u32 audio_data \<Rightarrow> u8 list" where
  "f32_bytes format input =
     (case input of
        F32 samples \<Rightarrow> concat (List.map (\<lambda>b. le_enc 4 (unat b)) samples)
      | Pcm pcm \<Rightarrow> concat (List.map (\<lambda>v. le_enc 4 (f32_to_bits v)) (pcm_to_f32 pcm (sf_bits format))))"

text \<open>The count of frames for the log divides by the channels: without channels the call panics (None).\<close>

definition f32lz4_encode ::
  "f32_libs \<Rightarrow> u32 audio_data \<Rightarrow> f32lz4_encoder \<Rightarrow> ((string + u8 list) \<times> f32lz4_encoder) option" where
  "f32lz4_encode libs input e =
     (if sf_channels (le_format e) = 0 then None
      else
        let compressed = lz4_compress libs (f32_bytes (le_format e) input) in
        case le_encryptor e of
          None \<Rightarrow> Some (Inr compressed, e)
        | Some k \<Rightarrow>
            let (r, k) = encrypt libs compressed k in
            Some (case r of None \<Rightarrow> Inl ''encryption failed: aead::Error'' | Some data \<Rightarrow> Inr data,
                  e\<lparr>le_encryptor := Some k\<rparr>))"

subsection \<open>Decoder\<close>

record f32lz4_decoder =
  ld_format :: sample_format
  ld_key :: "u8 list option"
  ld_psk :: "string option"

definition f32lz4_create :: "string option \<Rightarrow> f32lz4_decoder" where
  "f32lz4_create psk = \<lparr>ld_format = sf_default, ld_key = None, ld_psk = psk\<rparr>"

definition f32lz4_set_header ::
  "f32_libs \<Rightarrow> u8 list \<Rightarrow> f32lz4_decoder \<Rightarrow> (string + sample_format) \<times> f32lz4_decoder" where
  "f32lz4_set_header libs payload d =
     (if length payload < F32LZ4_HEADER_LEN then (Inl ''F32LZ4 header too small'', d)
      else if take (length F32LZ4_MAGIC) payload \<noteq> F32LZ4_MAGIC then (Inl ''not an F32LZ4 header'', d)
      else
        let f = sf_new (word_of_nat (le_dec (range_at 4 4 payload)))
                  (word_of_nat (le_dec (range_at 10 2 payload))) (word_of_nat (le_dec (range_at 8 2 payload)));
            d = d\<lparr>ld_format := f\<rparr> in
        if F32LZ4_ENC_HEADER_LEN \<le> length payload \<and>
           range_at F32LZ4_HEADER_LEN (length F32LZ4_ENC_MARKER) payload = F32LZ4_ENC_MARKER then
          let salt = range_at (F32LZ4_HEADER_LEN + length F32LZ4_ENC_MARKER) F32LZ4_SALT_LEN payload in
          case ld_psk d of
            Some psk \<Rightarrow> (Inr f, d\<lparr>ld_key := Some (derive_key libs (as_bytes psk) salt)\<rparr>)
          | None \<Rightarrow> (Inl ''Server requires encryption but no encryption_psk configured'', d)
        else (Inr f, d))"

text \<open>The flag and the buffer after the call; a chunk that cannot be decoded is dropped, not an error.\<close>

definition f32lz4_decode :: "f32_libs \<Rightarrow> f32lz4_decoder \<Rightarrow> u8 list \<Rightarrow> bool \<times> u8 list" where
  "f32lz4_decode libs d data =
     (if data = [] then (False, data)
      else
        let plain = (case ld_key d of None \<Rightarrow> Some data | Some k \<Rightarrow> decrypt libs k data) in
        case plain of
          None \<Rightarrow> (False, data)
        | Some data \<Rightarrow>
            (case lz4_decompress libs data of Inr out \<Rightarrow> (True, out) | Inl _ \<Rightarrow> (False, data)))"

subsection \<open>From the encoder to the decoder\<close>

text \<open>What the libraries document: decompression and opening undo compression and sealing, a
  compressed block is never empty (its size comes first) and a sealed text is longer by the tag.\<close>

definition libs_ok :: "f32_libs \<Rightarrow> bool" where
  "libs_ok libs \<longleftrightarrow>
     (\<forall>x. lz4_decompress libs (lz4_compress libs x) = Inr x \<and> lz4_compress libs x \<noteq> []) \<and>
     (\<forall>k n x. \<exists>c. aead_seal libs k n x = Some c \<and> aead_open libs k n c = Some x \<and>
        length c = length x + CRYPTO_TAG_LEN)"

fun encode_all ::
  "f32_libs \<Rightarrow> u32 audio_data list \<Rightarrow> f32lz4_encoder \<Rightarrow> (u8 list list \<times> f32lz4_encoder) option" where
  "encode_all libs [] e = Some ([], e)"
| "encode_all libs (i # is) e =
     (case f32lz4_encode libs i e of
        Some (Inr data, e) \<Rightarrow> map_option (\<lambda>(ds, e). (data # ds, e)) (encode_all libs is e)
      | _ \<Rightarrow> None)"

definition f32lz4_stream_encoder :: "f32_libs \<Rightarrow> string option \<Rightarrow> u8 list \<Rightarrow> sample_format \<Rightarrow> f32lz4_encoder" where
  "f32lz4_stream_encoder libs psk salt format =
     (case psk of
        None \<Rightarrow> f32lz4_new format
      | Some p \<Rightarrow> with_encryption libs p salt (f32lz4_new format))"

lemma length_nonce [simp]: "length (nonce_of n) = CRYPTO_NONCE_LEN"
  by (simp add: nonce_of_def CRYPTO_NONCE_LEN_def)

lemma nonce_inj: "nonce_of i = nonce_of j \<Longrightarrow> i < 2 ^ 64 \<Longrightarrow> j < 2 ^ 64 \<Longrightarrow> i = j"
proof -
  assume n: "nonce_of i = nonce_of j" "i < 2 ^ 64" "j < 2 ^ 64"
  then have "le_dec (le_enc 8 i) = le_dec (le_enc 8 j)" by (simp add: nonce_of_def)
  with n(2,3) show "i = j" by (simp add: le_dec_le_enc)
qed

lemma plain_decode:
  "libs_ok libs \<Longrightarrow> ld_key d = None \<Longrightarrow> f32lz4_decode libs d (lz4_compress libs x) = (True, x)"
  by (simp add: libs_ok_def f32lz4_decode_def)

lemma sealed_decode:
  assumes "libs_ok libs" "ld_key d = Some (ek_key k)" "encrypt libs (lz4_compress libs x) k = (Some data, k')"
  shows "f32lz4_decode libs d data = (True, x) \<and> take CRYPTO_NONCE_LEN data = nonce_of (ek_counter k)"
proof -
  obtain c where c: "aead_seal libs (ek_key k) (nonce_of (ek_counter k)) (lz4_compress libs x) = Some c"
    "aead_open libs (ek_key k) (nonce_of (ek_counter k)) c = Some (lz4_compress libs x)"
    "length c = length (lz4_compress libs x) + CRYPTO_TAG_LEN"
    using assms(1) unfolding libs_ok_def by blast
  have data: "data = nonce_of (ek_counter k) @ c" using assms(3) c(1) by (simp add: encrypt_def Let_def)
  have "decrypt libs (ek_key k) data = Some (lz4_compress libs x)"
    using c by (simp add: decrypt_def data)
  moreover have "data \<noteq> []" using c(3) by (auto simp: data CRYPTO_TAG_LEN_def)
  ultimately show ?thesis using assms(1,2) by (simp add: f32lz4_decode_def libs_ok_def data)
qed

lemma sealed_all:
  assumes "libs_ok libs" "ld_key d = Some (ek_key k)" "le_encryptor e = Some k"
    and "sf_channels (le_format e) \<noteq> 0" "ek_counter k + length ins \<le> 2 ^ 64"
  shows "\<exists>chunks e'. encode_all libs ins e = Some (chunks, e') \<and>
    List.map (f32lz4_decode libs d) chunks = List.map (\<lambda>i. (True, f32_bytes (le_format e) i)) ins \<and>
    List.map (take CRYPTO_NONCE_LEN) chunks = List.map nonce_of [ek_counter k..<ek_counter k + length ins]"
  using assms(2-)
proof (induction ins arbitrary: e k)
  case (Cons i ins)
  obtain c where c: "aead_seal libs (ek_key k) (nonce_of (ek_counter k)) (lz4_compress libs (f32_bytes (le_format e) i)) = Some c"
    using assms(1) unfolding libs_ok_def by blast
  let ?k = "k\<lparr>ek_counter := (ek_counter k + 1) mod 2 ^ 64\<rparr>" and ?e = "\<lambda>k. e\<lparr>le_encryptor := Some k\<rparr>"
  obtain data where enc: "encrypt libs (lz4_compress libs (f32_bytes (le_format e) i)) k = (Some data, ?k)"
    using c by (simp add: encrypt_def Let_def)
  have step: "f32lz4_encode libs i e = Some (Inr data, ?e ?k)"
    using Cons.prems(2,3) by (simp add: f32lz4_encode_def Let_def enc)
  note dec = sealed_decode [OF assms(1) Cons.prems(1) enc]
  show ?case
  proof (cases ins)
    case Nil
    with step dec show ?thesis by simp
  next
    case (Cons j js)
    then have ctr: "ek_counter ?k = ek_counter k + 1" using Cons.prems(4) by simp
    have "\<exists>chunks e'. encode_all libs ins (?e ?k) = Some (chunks, e') \<and>
      List.map (f32lz4_decode libs d) chunks = List.map (\<lambda>i. (True, f32_bytes (le_format (?e ?k)) i)) ins \<and>
      List.map (take CRYPTO_NONCE_LEN) chunks = List.map nonce_of [ek_counter ?k..<ek_counter ?k + length ins]"
      by (rule Cons.IH) (use Cons.prems ctr in simp_all)
    then show ?thesis using step dec ctr by (auto simp: upt_conv_Cons simp del: upt_Suc)
  qed
qed simp

lemma plain_all:
  assumes "libs_ok libs" "ld_key d = None" "le_encryptor e = None" "sf_channels (le_format e) \<noteq> 0"
  shows "\<exists>chunks. encode_all libs ins e = Some (chunks, e) \<and>
    List.map (f32lz4_decode libs d) chunks = List.map (\<lambda>i. (True, f32_bytes (le_format e) i)) ins"
  using assms(2-)
  by (induction ins) (auto simp: f32lz4_encode_def Let_def plain_decode [OF assms(1)])

lemma header_accepted:
  assumes "length salt = F32LZ4_SALT_LEN" "psk \<noteq> None \<longrightarrow> cpsk = psk"
  shows "\<exists>d. f32lz4_set_header libs (le_header (f32lz4_stream_encoder libs psk salt f)) (f32lz4_create cpsk) =
      (Inr (sf_new (sf_rate f) 32 (sf_channels f)), d) \<and>
    ld_key d = map_option (\<lambda>p. derive_key libs (as_bytes p) salt) psk"
proof (cases psk)
  case None
  then show ?thesis
    by (simp add: f32lz4_stream_encoder_def f32lz4_new_def f32lz4_set_header_def f32lz4_consts range_at_skip
        range_at_hit le_dec_le_enc Let_def f32lz4_create_def)
next
  case (Some p)
  then show ?thesis using assms
    by (simp add: f32lz4_stream_encoder_def f32lz4_new_def with_encryption_def f32lz4_set_header_def f32lz4_consts
        range_at_skip range_at_hit le_dec_le_enc Let_def f32lz4_create_def)
qed

text \<open>C16: a client that has the server's key (or any key, when the stream is not encrypted) accepts the codec
  header, and decodes every chunk, in order, to the bytes of the very samples that were encoded, when the
  libraries do what they document; and on an encrypted stream no nonce is used twice.\<close>

theorem f32lz4_lossless:
  assumes "libs_ok libs" "sf_channels f \<noteq> 0" "length salt = F32LZ4_SALT_LEN" "length ins \<le> 2 ^ 64"
    and "psk \<noteq> None \<longrightarrow> cpsk = psk"
  shows "\<exists>chunks e' d.
    encode_all libs ins (f32lz4_stream_encoder libs psk salt f) = Some (chunks, e') \<and>
    f32lz4_set_header libs (le_header (f32lz4_stream_encoder libs psk salt f)) (f32lz4_create cpsk) =
      (Inr (sf_new (sf_rate f) 32 (sf_channels f)), d) \<and>
    List.map (f32lz4_decode libs d) chunks = List.map (\<lambda>i. (True, f32_bytes f i)) ins \<and>
    (psk \<noteq> None \<longrightarrow> distinct (List.map (take CRYPTO_NONCE_LEN) chunks))"
proof -
  let ?e = "f32lz4_stream_encoder libs psk salt f"
  obtain d where d: "f32lz4_set_header libs (le_header ?e) (f32lz4_create cpsk) =
      (Inr (sf_new (sf_rate f) 32 (sf_channels f)), d)"
    "ld_key d = map_option (\<lambda>p. derive_key libs (as_bytes p) salt) psk"
    using header_accepted [OF assms(3,5)] by blast
  have fmt: "le_format ?e = f"
    by (simp add: f32lz4_stream_encoder_def f32lz4_new_def with_encryption_def split: option.split)
  show ?thesis
  proof (cases psk)
    case None
    then have "le_encryptor ?e = None" by (simp add: f32lz4_stream_encoder_def f32lz4_new_def)
    with plain_all [OF assms(1) _ this, of d ins] d None fmt assms(2) show ?thesis by auto
  next
    case (Some p)
    let ?k = "encryptor_new libs p salt"
    have "le_encryptor ?e = Some ?k" using Some by (simp add: f32lz4_stream_encoder_def with_encryption_def)
    moreover have "ld_key d = Some (ek_key ?k)" "ek_counter ?k = 0" using d(2) Some by (simp_all add: encryptor_new_def)
    ultimately obtain chunks e' where c: "encode_all libs ins ?e = Some (chunks, e')"
      "List.map (f32lz4_decode libs d) chunks = List.map (\<lambda>i. (True, f32_bytes f i)) ins"
      "List.map (take CRYPTO_NONCE_LEN) chunks = List.map nonce_of [0..<length ins]"
      using sealed_all [OF assms(1), of d ?k ?e ins] fmt assms(2,4) by auto
    have "inj_on nonce_of (set [0..<length ins])" using assms(4) by (auto intro!: inj_onI nonce_inj)
    then have "distinct (List.map nonce_of [0..<length ins])" by (simp add: distinct_map)
    with c d(1) show ?thesis by auto
  qed
qed

text \<open>Libraries for demonstrations: a size byte in front, and a key byte added to a zero tag.\<close>

definition demo_libs :: f32_libs where
  "demo_libs = \<lparr>lz4_compress = (\<lambda>x. 7 # x),
     lz4_decompress = (\<lambda>x. case x of [] \<Rightarrow> Inl ''empty'' | b # y \<Rightarrow> Inr y),
     hkdf = (\<lambda>salt key info. salt @ key @ info),
     aead_seal = (\<lambda>k n x. Some (x @ replicate CRYPTO_TAG_LEN 0)),
     aead_open = (\<lambda>k n c. Some (take (length c - CRYPTO_TAG_LEN) c))\<rparr>"

lemma demo_libs_ok: "libs_ok demo_libs"
  by (simp add: libs_ok_def demo_libs_def)

lemma f32lz4_lossless_witness:
  "\<exists>chunks e' d.
    encode_all demo_libs [F32 [1, 2], Pcm [0, 0]] (f32lz4_stream_encoder demo_libs (Some ''key'') (replicate 16 5)
      (sf_new 48000 16 1)) = Some (chunks, e') \<and>
    List.map (f32lz4_decode demo_libs d) chunks =
      List.map (\<lambda>i. (True, f32_bytes (sf_new 48000 16 1) i)) [F32 [1, 2], Pcm [0, 0]]"
  using f32lz4_lossless [OF demo_libs_ok, of "sf_new 48000 16 1" "replicate 16 5" "[F32 [1, 2], Pcm [0, 0]]"
      "Some ''key''" "Some ''key''"]
  by (auto simp: sf_new_def F32LZ4_SALT_LEN_def)

end
