(* ===== verification/Decoders.thy ===== *)
theory Decoders
  imports F32Lz4
begin

text \<open>
  The decoders of \<open>snapcast-client/src/decoder\<close>: the headers of FLAC, Ogg/Vorbis and Opus streams and
  the decoder that is kept for a stream.  The codec libraries are the fields of \<open>codec_libs\<close>: symphonia
  for FLAC and Vorbis (a decoder is made from parameters, and decodes a packet to interleaved float
  samples, given by their bits) and opus-decoder (which writes 16-bit samples into a buffer and says how
  many frames).  A call that panics is None.
\<close>

record codec_params =
  cp_codec :: string
  cp_rate :: u32
  cp_bits :: "u32 option"
  cp_channels :: u32
  cp_extra :: "u8 list"

record 'd codec_libs =
  channels_from_bits :: "u32 \<Rightarrow> u32 option"
  channels_front_left :: u32
  sym_make :: "codec_params \<Rightarrow> string + 'd"
  sym_decode :: "'d \<Rightarrow> nat \<Rightarrow> u8 list \<Rightarrow> 'd \<times> (string + u32 list)"
  opus_make :: "u32 \<Rightarrow> nat \<Rightarrow> string + 'd"
  opus_decode :: "'d \<Rightarrow> u8 list \<Rightarrow> int list \<Rightarrow> 'd \<times> int list \<times> (string + nat)"
  float_libs :: f32_libs

subsection \<open>Headers\<close>

text \<open>The mask of the first channels; the shift counts modulo 64.\<close>

definition channel_mask :: "'d codec_libs \<Rightarrow> nat \<Rightarrow> u32" where
  "channel_mask libs channels =
     (case channels_from_bits libs (word_of_int (2 ^ (channels mod 64) - 1)) of
        Some c \<Rightarrow> c | None \<Rightarrow> channels_front_left libs)"

definition parse_streaminfo :: "'d codec_libs \<Rightarrow> u8 list \<Rightarrow> string + sample_format \<times> codec_params" where
  "parse_streaminfo libs payload =
     (if length payload < 42 then
        Inl (''FLAC header too small ('' @ show_nat (length payload) @ '' bytes, need >= 42)'')
      else if take 4 payload \<noteq> as_bytes ''fLaC'' then Inl ''not a FLAC header (missing fLaC magic)''
      else
        let b = (\<lambda>i. unat (payload ! (8 + i)));
            sample_rate = b 10 * 2 ^ 12 + b 11 * 2 ^ 4 + b 12 div 2 ^ 4;
            channels = (b 12 div 2) mod 8 + 1;
            bits = (b 12 mod 2) * 2 ^ 4 + b 13 div 2 ^ 4 + 1 in
        Inr (sf_new (word_of_nat sample_rate) (word_of_nat bits) (word_of_nat channels),
          \<lparr>cp_codec = ''flac'', cp_rate = word_of_nat sample_rate, cp_bits = Some (word_of_nat bits),
           cp_channels = channel_mask libs channels, cp_extra = range_at 8 34 payload\<rparr>))"

definition parse_vorbis_header :: "u8 list \<Rightarrow> string + sample_format \<times> u8 list" where
  "parse_vorbis_header payload =
     (if length payload < 28 \<or> take 4 payload \<noteq> as_bytes ''OggS'' then Inl ''not an Ogg bitstream''
      else
        let header_size = 27 + unat (payload ! 26); remaining = drop header_size payload in
        if length payload < header_size then Inl ''Ogg page header truncated''
        else if length remaining < 16 then Inl ''Vorbis identification header too small''
        else if remaining ! 0 \<noteq> 1 \<or> range_at 1 6 remaining \<noteq> as_bytes ''vorbis'' then
          Inl ''not a Vorbis identification header''
        else
          let channels = ucast (remaining ! 11) :: u16;
              rate = word_of_nat (le_dec (range_at 12 4 remaining)) :: u32 in
          if rate = 0 \<or> channels = 0 then
            Inl (''invalid Vorbis header: rate='' @ show_nat (unat rate) @ '', channels='' @ show_nat (unat channels))
          else Inr (sf_new rate 32 channels, payload))"

definition OPUS_ID :: nat where
  "OPUS_ID = 0x4F505553"

definition MAX_FRAME_SIZE :: nat where
  "MAX_FRAME_SIZE = 2880"

definition hex_digit :: "nat \<Rightarrow> char" where
  "hex_digit d = (if d < 10 then char_of (48 + d) else char_of (55 + d))"

definition show_hex8 :: "nat \<Rightarrow> string" where
  "show_hex8 n = List.map (\<lambda>i. hex_digit (n div 16 ^ i mod 16)) [7, 6, 5, 4, 3, 2, 1, 0]"

definition parse_opus_header :: "u8 list \<Rightarrow> string + sample_format" where
  "parse_opus_header payload =
     (if 19 \<le> length payload \<and> take 8 payload = as_bytes ''OpusHead'' then
        let channels = ucast (payload ! 9) :: u16;
            rate = word_of_nat (le_dec (range_at 12 4 payload)) :: u32 in
        if channels = 0 \<or> rate = 0 then
          Inl (''invalid OpusHead: rate='' @ show_nat (unat rate) @ '', channels='' @ show_nat (unat channels))
        else Inr (sf_new rate 16 channels)
      else if length payload < 12 then
        Inl (''Opus header too small ('' @ show_nat (length payload) @ '' bytes, need >= 12)'')
      else
        let i = le_dec (take 4 payload) in
        if i \<noteq> OPUS_ID then
          Inl (''not an Opus header (expected 0x'' @ show_hex8 OPUS_ID @ '', got 0x'' @ show_hex8 i @ '')'')
        else Inr (sf_new (word_of_nat (le_dec (range_at 4 4 payload)))
               (word_of_nat (le_dec (range_at 8 2 payload))) (word_of_nat (le_dec (range_at 10 2 payload)))))"

text \<open>The server's Opus header, for the channel counts that its encoder accepts (\<open>encoder/opus.rs\<close>).\<close>

definition opus_rate_ok :: "sample_format \<Rightarrow> bool" where
  "opus_rate_ok f \<longleftrightarrow> sf_rate f \<in> {8000, 12000, 16000, 24000, 48000}"

definition opus_header :: "sample_format \<Rightarrow> string + u8 list" where
  "opus_header f =
     (if \<not> opus_rate_ok f then Inl (''Opus does not support sample rate '' @ show_nat (unat (sf_rate f)))
      else if sf_channels f \<notin> {1, 2} then
        Inl (''Opus does not support '' @ show_nat (unat (sf_channels f)) @ '' channels'')
      else Inr (as_bytes ''OpusHead'' @ [1, ucast (sf_channels f)] @ le_enc 2 0 @ le_enc 4 (unat (sf_rate f))
             @ le_enc 2 0 @ [0]))"

subsection \<open>Decoders\<close>

datatype 'd decoder =
    PcmDecoder
  | FlacDecoder 'd sample_format nat
  | VorbisDecoder 'd sample_format nat
  | OpusDecoder 'd sample_format "int list"
  | F32Lz4Decoder f32lz4_decoder

definition flac_create :: "'d codec_libs \<Rightarrow> u8 list \<Rightarrow> string + 'd decoder" where
  "flac_create libs payload =
     (case parse_streaminfo libs payload of
        Inl e \<Rightarrow> Inl e
      | Inr (sf, params) \<Rightarrow>
          (case sym_make libs params of
             Inl e \<Rightarrow> Inl (''failed to create FLAC decoder: '' @ e)
           | Inr d \<Rightarrow> Inr (FlacDecoder d (sf_new (sf_rate sf) 32 (sf_channels sf)) 0)))"

definition vorbis_create :: "'d codec_libs \<Rightarrow> u8 list \<Rightarrow> string + 'd decoder" where
  "vorbis_create libs payload =
     (case parse_vorbis_header payload of
        Inl e \<Rightarrow> Inl e
      | Inr (sf, extra) \<Rightarrow>
          (case sym_make libs \<lparr>cp_codec = ''vorbis'', cp_rate = sf_rate sf, cp_bits = None,
                  cp_channels = channel_mask libs (unat (sf_channels sf)), cp_extra = extra\<rparr> of
             Inl e \<Rightarrow> Inl (''failed to create Vorbis decoder: '' @ e)
           | Inr d \<Rightarrow> Inr (VorbisDecoder d sf 0)))"

definition opus_create :: "'d codec_libs \<Rightarrow> u8 list \<Rightarrow> string + 'd decoder" where
  "opus_create libs payload =
     (case parse_opus_header payload of
        Inl e \<Rightarrow> Inl e
      | Inr sf \<Rightarrow>
          (case opus_make libs (sf_rate sf) (unat (sf_channels sf)) of
             Inl e \<Rightarrow> Inl (''failed to create Opus decoder: '' @ e)
           | Inr d \<Rightarrow> Inr (OpusDecoder d sf (replicate (MAX_FRAME_SIZE * unat (sf_channels sf)) 0))))"

text \<open>The decoder that the controller makes for a codec header.\<close>

definition create_decoder :: "'d codec_libs \<Rightarrow> string option \<Rightarrow> codec_header \<Rightarrow> string + 'd decoder" where
  "create_decoder libs psk header =
     (let codec = ch_codec header; payload = ch_payload header in
      if codec = ''pcm'' then Inr PcmDecoder
      else if codec = ''flac'' then flac_create libs payload
      else if codec = ''ogg'' then vorbis_create libs payload
      else if codec = ''opus'' then opus_create libs payload
      else if codec = ''f32lz4'' then Inr (F32Lz4Decoder (f32lz4_create psk))
      else Inl (''unsupported codec: '' @ codec))"

text \<open>\<open>set_header\<close>: FLAC, Vorbis and Opus are made anew.\<close>

definition made_format :: "string + 'd decoder \<Rightarrow> string + sample_format \<times> 'd decoder" where
  "made_format r =
     (case r of
        Inl e \<Rightarrow> Inl e
      | Inr (FlacDecoder d sf i) \<Rightarrow> Inr (sf, FlacDecoder d sf i)
      | Inr (VorbisDecoder d sf i) \<Rightarrow> Inr (sf, VorbisDecoder d sf i)
      | Inr (OpusDecoder d sf buf) \<Rightarrow> Inr (sf, OpusDecoder d sf buf)
      | Inr d \<Rightarrow> Inr (sf_default, d))"

definition set_header :: "'d codec_libs \<Rightarrow> u8 list \<Rightarrow> 'd decoder \<Rightarrow> string + sample_format \<times> 'd decoder" where
  "set_header libs payload dec =
     (case dec of
        PcmDecoder \<Rightarrow> map_sum id (\<lambda>sf. (sf, PcmDecoder)) (parse_riff_header payload)
      | FlacDecoder _ _ _ \<Rightarrow> made_format (flac_create libs payload)
      | VorbisDecoder _ _ _ \<Rightarrow> made_format (vorbis_create libs payload)
      | OpusDecoder _ _ _ \<Rightarrow> made_format (opus_create libs payload)
      | F32Lz4Decoder f \<Rightarrow>
          (let (r, f) = f32lz4_set_header (float_libs libs) payload f in
           map_sum id (\<lambda>sf. (sf, F32Lz4Decoder f)) r))"

definition float_chunk :: "string + u32 list \<Rightarrow> u8 list \<Rightarrow> bool \<times> u8 list" where
  "float_chunk r data =
     (case r of Inl _ \<Rightarrow> (False, data) | Inr samples \<Rightarrow> (True, concat (List.map (\<lambda>b. le_enc 4 (unat b)) samples)))"

definition decode_chunk ::
  "'d codec_libs \<Rightarrow> 'd decoder \<Rightarrow> u8 list \<Rightarrow> ('d decoder \<times> bool \<times> u8 list) option" where
  "decode_chunk libs dec data =
     (case dec of
        PcmDecoder \<Rightarrow> Some (dec, True, data)
      | FlacDecoder d sf i \<Rightarrow>
          if data = [] then Some (dec, False, data)
          else let (d, r) = sym_decode libs d i data in
               Some (FlacDecoder d sf ((i + 1) mod 2 ^ 64), float_chunk r data)
      | VorbisDecoder d sf i \<Rightarrow>
          if data = [] then Some (dec, False, data)
          else let (d, r) = sym_decode libs d i data in
               Some (VorbisDecoder d sf ((i + 1) mod 2 ^ 64), float_chunk r data)
      | OpusDecoder d sf buf \<Rightarrow>
          if data = [] then Some (dec, False, data)
          else
            let (d, buf, r) = opus_decode libs d data buf in
            (case r of
               Inl _ \<Rightarrow> Some (OpusDecoder d sf buf, False, data)
             | Inr n \<Rightarrow>
                 let total = n * unat (sf_channels sf) in
                 if length buf < total then None
                 else Some (OpusDecoder d sf buf, True, concat (List.map (le_of_int 2) (take total buf))))
      | F32Lz4Decoder f \<Rightarrow> Some (dec, f32lz4_decode (float_libs libs) f data))"

definition output_encoding :: "'d decoder \<Rightarrow> sample_encoding" where
  "output_encoding dec =
     (case dec of
        PcmDecoder \<Rightarrow> PcmInt
      | OpusDecoder _ _ _ \<Rightarrow> PcmInt
      | _ \<Rightarrow> Float32)"

end
