(* ===== verification/ClientConn.thy ===== *)
theory ClientConn
  imports Frames Strings
begin

text \<open>
  The client's TCP connection, \<open>snapcast-client/src/connection/mod.rs\<close>.  The peer is the list of bytes
  that arrive before the stream ends and the list of bytes written so far; the time of the monotonic
  clock at a read or write is an argument.  A message for a caller of \<open>send_request\<close> goes to that
  caller's channel, \<open>tc_delivered\<close>; the other end is gone once the request has timed out.
\<close>

datatype client_error =
    NotConnected
  | ConnectFailed string
  | UnsupportedScheme string
  | ReceiveFailed frame_error
  | RequestTimedOut
  | NoHost
  | HelloRejected string u32
  | CodecFailed string

record tcp_connection =
  tc_connected :: bool
  tc_host :: string
  tc_port :: u16
  tc_pending :: "u16 set"
  tc_next_id :: u16
  tc_in :: "u8 list"
  tc_out :: "u8 list"
  tc_delivered :: "(u16 \<times> typed_message) list"

definition conn_new :: "string \<Rightarrow> u16 \<Rightarrow> tcp_connection" where
  "conn_new host port =
     \<lparr>tc_connected = False, tc_host = host, tc_port = port, tc_pending = {}, tc_next_id = 1,
      tc_in = [], tc_out = [], tc_delivered = []\<rparr>"

text \<open>The connection of a scheme; only plain TCP is supported for audio.\<close>

definition snap_connection :: "string \<Rightarrow> string \<Rightarrow> u16 \<Rightarrow> client_error + tcp_connection" where
  "snap_connection scheme host port =
     (if scheme = ''tcp'' then Inr (conn_new host port)
      else if scheme = ''ws'' \<or> scheme = ''wss'' then
        Inl (UnsupportedScheme ''websocket audio transport is not supported yet; use tcp:// for Snapcast audio'')
      else Inl (UnsupportedScheme (''unsupported scheme: '' @ scheme)))"

text \<open>\<open>connect\<close>, with what the peer will send; None when the network refuses.\<close>

definition conn_connect :: "u8 list option \<Rightarrow> tcp_connection \<Rightarrow> client_error + tcp_connection" where
  "conn_connect peer c =
     (case peer of
        None \<Rightarrow> Inl (ConnectFailed (''connecting to '' @ tc_host c @ '':'' @ show_nat (unat (tc_port c))))
      | Some bytes \<Rightarrow>
          Inr (c\<lparr>tc_connected := True, tc_in := bytes, tc_out := [], tc_pending := {}, tc_next_id := 1\<rparr>))"

definition conn_disconnect :: "tcp_connection \<Rightarrow> tcp_connection" where
  "conn_disconnect c = c\<lparr>tc_connected := False, tc_pending := {}\<rparr>"

definition steady_time_of_day :: "int \<Rightarrow> timeval" where
  "steady_time_of_day usec =
     \<lparr>tv_sec = word_of_int (usec sdiv 1000000), tv_usec = word_of_int (usec smod 1000000)\<rparr>"

definition request_base :: "int \<Rightarrow> message_type \<Rightarrow> u16 \<Rightarrow> base_message" where
  "request_base now t i =
     \<lparr>bm_msg_type = t, bm_id = i, bm_refers_to = 0, bm_sent = steady_time_of_day now,
      bm_received = tv_zero, bm_size = 0\<rparr>"

definition write_frame ::
  "(json \<Rightarrow> string) \<Rightarrow> base_message \<Rightarrow> payload \<Rightarrow> tcp_connection \<Rightarrow> tcp_connection" where
  "write_frame print base p c = c\<lparr>tc_out := tc_out c @ fst (serialize print base p)\<rparr>"

definition conn_send ::
  "(json \<Rightarrow> string) \<Rightarrow> int \<Rightarrow> message_type \<Rightarrow> payload \<Rightarrow> tcp_connection \<Rightarrow> client_error + tcp_connection" where
  "conn_send print now t p c =
     (if \<not> tc_connected c then Inl NotConnected
      else Inr (write_frame print (request_base now t 0) p c))"

text \<open>
  \<open>send_request\<close>: the caller waits on its channel with the connection borrowed, so nothing can be
  received meanwhile and the wait ends with the timeout; the entry stays.
\<close>

definition send_request ::
  "(json \<Rightarrow> string) \<Rightarrow> int \<Rightarrow> message_type \<Rightarrow> payload \<Rightarrow> tcp_connection \<Rightarrow>
   (client_error + typed_message) \<times> tcp_connection" where
  "send_request print now t p c =
     (let i = tc_next_id c;
          c = c\<lparr>tc_next_id := i + 1, tc_pending := insert i (tc_pending c)\<rparr> in
      if \<not> tc_connected c then (Inl NotConnected, c)
      else (Inl RequestTimedOut, write_frame print (request_base now t i) p c))"

lemma read_frame_shorter: "read_frame custom parse now bs = Inr (m, rest) \<Longrightarrow> length rest < length bs"
  by (auto simp: read_frame_def Let_def read_exact_Inr HEADER_SIZE_def split: sum.splits prod.splits option.splits)

text \<open>\<open>recv\<close>: responses to pending requests are handed over and the next frame is read.\<close>

function conn_recv ::
  "(string \<Rightarrow> json option) \<Rightarrow> int \<Rightarrow> tcp_connection \<Rightarrow> (client_error + typed_message) \<times> tcp_connection" where
  "conn_recv parse now c =
     (if \<not> tc_connected c then (Inl NotConnected, c)
      else
        (case read_frame True parse (steady_time_of_day now) (tc_in c) of
           Inl e \<Rightarrow> (Inl (ReceiveFailed e), c)
         | Inr (m, rest) \<Rightarrow>
             let c = c\<lparr>tc_in := rest\<rparr>; i = bm_refers_to (msg_base m) in
             if i \<noteq> 0 \<and> i \<in> tc_pending c then
               conn_recv parse now
                 (c\<lparr>tc_pending := tc_pending c - {i}, tc_delivered := tc_delivered c @ [(i, m)]\<rparr>)
             else (Inr m, c)))"
  by pat_completeness auto
termination
  by (relation "measure (\<lambda>(parse, now, c). length (tc_in c))") (auto dest!: read_frame_shorter)

declare conn_recv.simps [simp del]

lemma conn_recv_shorter: "conn_recv parse now c = (Inr m, c') \<Longrightarrow> length (tc_in c') < length (tc_in c)"
proof (induction parse now c rule: conn_recv.induct)
  case (1 parse now c)
  from 1(2) obtain m' rest where r: "read_frame True parse (steady_time_of_day now) (tc_in c) = Inr (m', rest)"
    by (auto simp: conn_recv.simps [of parse now c] split: if_splits sum.splits)
  with 1 read_frame_shorter [OF r] show ?case
    by (fastforce simp: conn_recv.simps [of parse now c] Let_def split: if_splits)
qed

text \<open>Without pending requests a receive is one frame.\<close>

lemma conn_recv_frame:
  "tc_connected c \<Longrightarrow> tc_pending c = {} \<Longrightarrow>
   conn_recv parse now c =
     (case read_frame True parse (steady_time_of_day now) (tc_in c) of
        Inl e \<Rightarrow> (Inl (ReceiveFailed e), c)
      | Inr (m, rest) \<Rightarrow> (Inr m, c\<lparr>tc_in := rest\<rparr>))"
  by (simp add: conn_recv.simps [of parse now c] split: sum.split prod.split)

end
