(* ===== verification/TimeProvider.thy ===== *)
theory TimeProvider
  imports DoubleBuffer F64 Timeval
begin

text \<open>
  \<open>TimeProvider\<close> of \<open>snapcast-client/src/time_provider.rs\<close>.  The double arithmetic of
  \<open>set_diff\<close> is the one of theory \<open>F64\<close>; the reading of the monotonic clock that
  \<open>set_diff_ms\<close> takes is its argument \<open>now\<close>, in nanoseconds (\<open>duration_since\<close> saturates at
  zero, as subtraction on \<open>nat\<close> does).
\<close>

record time_provider =
  tp_diffs :: double_buffer
  tp_diff_usec :: int
  tp_last_sync :: "nat option"

definition tp_new :: time_provider where
  "tp_new = \<lparr>tp_diffs = db_new 200, tp_diff_usec = 0, tp_last_sync = None\<rparr>"

definition diff_ms :: "timeval \<Rightarrow> timeval \<Rightarrow> f64" where
  "diff_ms c2s s2c =
     (let half = (\<lambda>w. f64_div (f64_of_int (sint w)) (FNum 2)) in
      f64_add
        (f64_mul (f64_sub (half (tv_sec c2s)) (half (tv_sec s2c))) (FNum 1000))
        (f64_div (f64_sub (half (tv_usec c2s)) (half (tv_usec s2c))) (FNum 1000)))"

definition set_diff_ms :: "nat \<Rightarrow> f64 \<Rightarrow> time_provider \<Rightarrow> time_provider" where
  "set_diff_ms now ms tp =
     (let usec = f64_as_i64 (f64_mul ms (FNum 1000));
          stale = (case tp_last_sync tp of
                     Some prev \<Rightarrow> 60 * 10 ^ 9 < now - prev \<and> \<not> db_is_empty (tp_diffs tp)
                   | None \<Rightarrow> False);
          tp = (if stale then tp\<lparr>tp_diff_usec := usec, tp_diffs := db_clear (tp_diffs tp)\<rparr> else tp);
          diffs = db_add usec (tp_diffs tp) in
      tp\<lparr>tp_last_sync := Some now, tp_diffs := diffs, tp_diff_usec := db_median_simple diffs\<rparr>)"

definition set_diff :: "nat \<Rightarrow> timeval \<Rightarrow> timeval \<Rightarrow> time_provider \<Rightarrow> time_provider" where
  "set_diff now c2s s2c = set_diff_ms now (diff_ms c2s s2c)"

subsection \<open>The rounding error of one exchange\<close>

lemma half_exact: "f64_div (f64_of_int (sint (w :: i32))) (FNum 2) = FNum (of_int (sint w) / 2)"
proof -
  have "f64_of_int (sint w) = FNum (of_int (sint w))"
    using sint_i32_bounds [of w] by (intro f64_of_int_exact) simp
  moreover have "f64_round (of_int (sint w) / 2) = FNum (of_int (sint w) / 2)"
    using sint_i32_bounds [of w] by (intro f64_round_exact [of _ 1 "sint w"]) (simp_all add: pow2_def)
  ultimately show ?thesis by simp
qed

lemma half_diff_exact:
  "f64_sub (f64_div (f64_of_int (sint (a :: i32))) (FNum 2)) (f64_div (f64_of_int (sint b)) (FNum 2)) =
   FNum (of_int (sint a - sint (b :: i32)) / 2)"
proof -
  have "f64_round (of_int (sint a - sint b) / 2) = FNum (of_int (sint a - sint b) / 2)"
    using sint_i32_bounds [of a] sint_i32_bounds [of b]
    by (intro f64_round_exact [of _ 1 "sint a - sint b"]) (simp_all add: pow2_def)
  then show ?thesis by (simp add: half_exact f64_sub_def diff_divide_distrib)
qed

lemma sint_diff_bound: "\<bar>sint (a :: i32) - sint (b :: i32)\<bar> < 2 ^ 32"
  using sint_i32_bounds [of a] sint_i32_bounds [of b] by simp

lemma of_int_abs_less: "\<bar>n\<bar> < k \<Longrightarrow> \<bar>of_int n :: rat\<bar> < of_int k"
  by (metis of_int_abs of_int_less_iff)

lemma pow2_nums:
  "pow2 22 = 4194304" "pow2 23 = 8388608" "pow2 42 = 4398046511104" "pow2 51 = 2251799813685248"
  "pow2 (- 3) = 1 / 8" "pow2 (- 12) = 1 / 4096" "pow2 (- 32) = 1 / 4294967296"
  by (simp_all add: pow2_def)

lemmas bounds_simps = pow2_nums abs_less_iff abs_le_iff

lemma diff_ms_error:
  "\<exists>r. diff_ms c2s s2c = FNum r \<and>
     \<bar>r - of_int (to_usec c2s - to_usec s2c) / 2000\<bar> \<le> 3 / 10000"
proof -
  define ds du where "ds = sint (tv_sec c2s) - sint (tv_sec s2c)"
    and "du = sint (tv_usec c2s) - sint (tv_usec s2c)"
  have bs: "\<bar>ds\<bar> < 2 ^ 32" and bu: "\<bar>du\<bar> < 2 ^ 32"
    unfolding ds_def du_def by (rule sint_diff_bound)+
  have s: "f64_round (of_int ds / 2 * 1000) = FNum (of_int ds * 500)"
    using bs f64_round_exact [of "of_int ds * 500" 0 "ds * 500"]
    by (simp add: pow2_def abs_mult mult.commute)
  have "\<bar>of_int du / 2 / 1000 :: rat\<bar> < pow2 22"
    using of_int_abs_less [OF bu] by (simp add: pow2_def abs_divide)
  from f64_round_bounded [OF this]
  obtain r1 where r1: "f64_round (of_int du / 2 / 1000) = FNum r1"
    and e1: "\<bar>r1 - of_int du / 2 / 1000\<bar> \<le> pow2 (- 32)" by auto
  have b1: "\<bar>r1\<bar> < pow2 23"
    using e1 \<open>\<bar>of_int du / 2 / 1000 :: rat\<bar> < pow2 22\<close>
    unfolding bounds_simps by linarith
  have "\<bar>of_int ds * 500 + r1\<bar> < pow2 42"
    using of_int_abs_less [OF bs] b1 unfolding bounds_simps by simp
  from f64_round_bounded [OF this]
  obtain r where r: "f64_round (of_int ds * 500 + r1) = FNum r"
    and e: "\<bar>r - (of_int ds * 500 + r1)\<bar> \<le> pow2 (- 12)" by auto
  have "diff_ms c2s s2c = FNum r"
    using s r1 r by (simp add: diff_ms_def Let_def half_diff_exact ds_def [symmetric] du_def [symmetric])
  moreover have "of_int (to_usec c2s - to_usec s2c) / 2000 = (of_int ds * 500 + of_int du / 2 / 1000 :: rat)"
    by (simp add: to_usec_def ds_def du_def field_simps)
  moreover have "\<bar>r - (of_int ds * 500 + of_int du / 2 / 1000)\<bar> \<le> 3 / 10000"
    using e e1 unfolding bounds_simps by linarith
  ultimately show ?thesis by metis
qed

lemma trunc_rat_bounds: "of_int (trunc_rat x) - 1 < x \<and> x < of_int (trunc_rat x) + 1"
proof -
  have "of_int (floor x) \<le> x" "x < of_int (floor x) + 1"
    "of_int (floor (- x)) \<le> - x" "- x < of_int (floor (- x)) + 1"
    using floor_correct [of x] floor_correct [of "- x"] by simp_all
  then show ?thesis unfolding trunc_rat_def by (simp add: of_int_minus) linarith
qed

lemma exchange_error:
  "\<bar>of_int (f64_as_i64 (f64_mul (diff_ms c2s s2c) (FNum 1000))) -
    (of_int (to_usec c2s - to_usec s2c) / 2 :: rat)\<bar> < 3 / 2"
proof -
  define t where "t = (of_int (to_usec c2s - to_usec s2c) / 2 :: rat)"
  obtain r where r: "diff_ms c2s s2c = FNum r"
    and e: "\<bar>r - of_int (to_usec c2s - to_usec s2c) / 2000\<bar> \<le> 3 / 10000"
    using diff_ms_error by blast
  have e': "\<bar>r * 1000 - t\<bar> \<le> 3 / 10" using e unfolding t_def by (simp add: abs_le_iff field_simps)
  have "\<bar>to_usec c2s - to_usec s2c\<bar> < 4294967296 * 1000000 + 4294967296"
    unfolding to_usec_def
    using sint_diff_bound [of "tv_sec c2s" "tv_sec s2c"] sint_diff_bound [of "tv_usec c2s" "tv_usec s2c"]
    by simp
  from of_int_abs_less [OF this] have tb: "\<bar>t\<bar> < 2147483648 * 1000001"
    unfolding t_def by simp
  have "\<bar>r * 1000\<bar> < pow2 51"
    using tb e' unfolding bounds_simps by simp
  from f64_round_bounded [OF this]
  obtain q where q: "f64_round (r * 1000) = FNum q" and eq: "\<bar>q - r * 1000\<bar> \<le> pow2 (- 3)" by auto
  have qt: "\<bar>q - t\<bar> < 1 / 2" using eq e' unfolding bounds_simps by linarith
  have tr: "\<bar>of_int (trunc_rat q) - t\<bar> < 3 / 2" using qt trunc_rat_bounds [of q] by linarith
  have "\<bar>of_int (trunc_rat q) :: rat\<bar> < of_int (2 ^ 62)" using tr tb unfolding bounds_simps by simp
  then have "\<bar>trunc_rat q\<bar> < 2 ^ 62" by (metis of_int_abs of_int_less_iff)
  then have "f64_as_i64 (FNum q) = trunc_rat q" unfolding f64_as_i64_def abs_less_iff
    by (auto simp: clamp_int_def)
  with r q tr show ?thesis by (simp add: t_def)
qed

subsection \<open>The estimate\<close>

definition tp_within :: "int \<Rightarrow> int \<Rightarrow> time_provider \<Rightarrow> bool" where
  "tp_within lo hi tp \<longleftrightarrow> (\<forall>d\<in>set (db_buf (tp_diffs tp)). lo \<le> d \<and> d \<le> hi)"

lemma set_diff_ms_diffs:
  "set (db_buf (tp_diffs (set_diff_ms now ms tp))) \<subseteq>
     insert (f64_as_i64 (f64_mul ms (FNum 1000))) (set (db_buf (tp_diffs tp)))"
  unfolding set_diff_ms_def Let_def
  using db_add_set [of "f64_as_i64 (f64_mul ms (FNum 1000))" "tp_diffs tp"]
    db_add_set [of "f64_as_i64 (f64_mul ms (FNum 1000))" "db_clear (tp_diffs tp)"]
  by (auto split: option.splits if_splits)

lemma set_diff_ms_median:
  "tp_diff_usec (set_diff_ms now ms tp) = db_median_simple (tp_diffs (set_diff_ms now ms tp))
   \<and> db_buf (tp_diffs (set_diff_ms now ms tp)) \<noteq> []"
  by (simp add: set_diff_ms_def Let_def)

lemma set_diff_ms_in:
  "tp_diff_usec (set_diff_ms now ms tp) \<in> set (db_buf (tp_diffs (set_diff_ms now ms tp)))"
  using set_diff_ms_median [of now ms tp] median_simple_in by simp

lemma exchange_between:
  assumes "2 * lo \<le> to_usec c2s - to_usec s2c" "to_usec c2s - to_usec s2c \<le> 2 * hi"
  shows "lo - 1 \<le> f64_as_i64 (f64_mul (diff_ms c2s s2c) (FNum 1000)) \<and>
    f64_as_i64 (f64_mul (diff_ms c2s s2c) (FNum 1000)) \<le> hi + 1"
proof -
  define u where "u = f64_as_i64 (f64_mul (diff_ms c2s s2c) (FNum 1000))"
  define x where "x = (of_int (to_usec c2s - to_usec s2c) :: rat)"
  have e: "\<bar>of_int u - x / 2\<bar> < 3 / 2"
    unfolding u_def x_def by (rule exchange_error)
  have "of_int (2 * lo) \<le> x" and "x \<le> of_int (2 * hi)" unfolding x_def
    using assms by (simp_all only: of_int_le_iff)
  then have lh: "2 * of_int lo \<le> x" "x \<le> 2 * of_int hi" by simp_all
  have "of_int lo - 2 < (of_int u :: rat)" "of_int u < (of_int hi + 2 :: rat)"
    using e lh unfolding bounds_simps by linarith+
  then have "of_int (lo - 2) < (of_int u :: rat)" "of_int u < (of_int (hi + 2) :: rat)" by simp_all
  then have "lo - 2 < u" "u < hi + 2" by (simp_all only: of_int_less_iff)
  then show ?thesis by (simp add: u_def [symmetric])
qed

lemma fold_within:
  assumes "\<forall>(now, c2s, s2c)\<in>set xs.
      2 * lo \<le> to_usec c2s - to_usec s2c \<and> to_usec c2s - to_usec s2c \<le> 2 * hi"
    and "tp_within (lo - 1) (hi + 1) tp"
  shows "tp_within (lo - 1) (hi + 1) (fold (\<lambda>(now, c2s, s2c). set_diff now c2s s2c) xs tp)"
  using assms
proof (induction xs arbitrary: tp)
  case Nil
  then show ?case by simp
next
  case (Cons x xs)
  obtain now c2s s2c where x: "x = (now, c2s, s2c)" by (cases x) auto
  have "tp_within (lo - 1) (hi + 1) (set_diff now c2s s2c tp)"
    using Cons.prems exchange_between [of lo c2s s2c hi] set_diff_ms_diffs [of now "diff_ms c2s s2c" tp]
    unfolding tp_within_def set_diff_def x by auto
  with Cons.prems Cons.IH [of "set_diff now c2s s2c tp"] show ?case by (simp add: x)
qed

text \<open>C29: whatever the timing of the exchanges, the estimated clock difference is within one
  microsecond of the range of the true half differences of the exchanges it was computed from,
  the double arithmetic, its roundings and the truncation included.\<close>

theorem estimate_within:
  assumes "xs \<noteq> []"
    and "\<forall>(now, c2s, s2c)\<in>set xs.
      2 * lo \<le> to_usec c2s - to_usec s2c \<and> to_usec c2s - to_usec s2c \<le> 2 * hi"
  shows "tp_diff_usec (fold (\<lambda>(now, c2s, s2c). set_diff now c2s s2c) xs tp_new) \<in> {lo - 1..hi + 1}"
proof -
  obtain ys x where xs: "xs = ys @ [x]" using assms(1) by (cases xs rule: rev_cases) auto
  obtain now c2s s2c where x: "x = (now, c2s, s2c)" by (cases x) auto
  let ?tp = "fold (\<lambda>(now, c2s, s2c). set_diff now c2s s2c) ys tp_new"
  have "tp_within (lo - 1) (hi + 1) (fold (\<lambda>(now, c2s, s2c). set_diff now c2s s2c) xs tp_new)"
    by (rule fold_within [OF assms(2)]) (simp add: tp_within_def tp_new_def)
  then have "tp_within (lo - 1) (hi + 1) (set_diff now c2s s2c ?tp)" by (simp add: xs x)
  moreover have "tp_diff_usec (set_diff now c2s s2c ?tp) \<in>
      set (db_buf (tp_diffs (set_diff now c2s s2c ?tp)))"
    unfolding set_diff_def by (rule set_diff_ms_in)
  ultimately show ?thesis by (simp add: xs x tp_within_def)
qed

lemma estimate_within_witness:
  "tp_diff_usec (fold (\<lambda>(now, c2s, s2c). set_diff now c2s s2c)
     [(0, \<lparr>tv_sec = 3, tv_usec = 250\<rparr>, \<lparr>tv_sec = 1, tv_usec = 50\<rparr>),
      (70000000000, \<lparr>tv_sec = 3, tv_usec = 240\<rparr>, \<lparr>tv_sec = 1, tv_usec = 60\<rparr>)] tp_new) \<in> {1000089..1000101}"
  using estimate_within [of "[(0, \<lparr>tv_sec = 3, tv_usec = 250\<rparr>, \<lparr>tv_sec = 1, tv_usec = 50\<rparr>),
      (70000000000, \<lparr>tv_sec = 3, tv_usec = 240\<rparr>, \<lparr>tv_sec = 1, tv_usec = 60\<rparr>)]" 1000090 1000100]
  by (simp add: to_usec_def)

end
