(* ===== verification/Controller.thy ===== *)
theory Controller
  imports Decoders ClientConn PcmStream TimeProvider
begin

text \<open>
  The client's controller, \<open>snapcast-client/src/controller.rs\<close>: the handshake, the arms of the receive
  loop, and the reconnection around them.  The stream buffer and the time provider that it shares with
  the player are fields of its state.  What reaches it from outside is a value: the peer's bytes (they end
  when the peer closes or falls silent for longer than a receive may wait), the clock, and the inputs that
  the \<open>select!\<close> of the loop picks.  A call that panics is None.
\<close>

record client_conf =
  cs_scheme :: string
  cs_host :: string
  cs_port :: u16
  cs_auth :: "auth option"
  cs_instance :: u32
  cs_host_id :: string
  cs_latency :: i32
  cs_client_name :: string
  cs_psk :: "string option"

definition client_conf_default :: client_conf where
  "client_conf_default =
     \<lparr>cs_scheme = ''tcp'', cs_host = [], cs_port = 1704, cs_auth = None, cs_instance = 1, cs_host_id = [],
      cs_latency = 0, cs_client_name = ''Snapclient'', cs_psk = None\<rparr>"

record client_frame =
  cf_samples :: "f32 list"
  cf_rate :: u32
  cf_channels :: u16
  cf_timestamp :: int

datatype client_event =
    Connected string u16
  | Disconnected client_error
  | StreamStarted string sample_format
  | SettingsEvent i32 i32 u16 bool
  | VolumeChanged u16 bool
  | TimeSyncComplete f64
  | CustomEvent u16 "u8 list"

datatype client_command = SetVolume u16 bool | SendCustom u16 "u8 list" | StopClient

definition CLIENT_EVENT_CHANNEL_SIZE :: nat where "CLIENT_EVENT_CHANNEL_SIZE = 256"
definition CLIENT_AUDIO_CHANNEL_SIZE :: nat where "CLIENT_AUDIO_CHANNEL_SIZE = 256"
definition MAX_RECONNECT_DELAY_SECS :: nat where "MAX_RECONNECT_DELAY_SECS = 30"
definition INITIAL_QUICK_SYNCS :: nat where "INITIAL_QUICK_SYNCS = 50"

record 'd controller =
  cl_settings :: client_conf
  cl_conn :: tcp_connection
  cl_time :: time_provider
  cl_stream :: stream_buffer
  cl_decoder :: "'d decoder option"
  cl_format :: sample_format
  cl_encoding :: sample_encoding
  cl_server_settings :: "server_settings option"
  cl_events :: "client_event list"
  cl_audio :: "client_frame list"

text \<open>The host and the libraries.\<close>

record 'd client_env =
  ce_libs :: "'d codec_libs"
  ce_print :: "json \<Rightarrow> string"
  ce_parse :: "string \<Rightarrow> json option"
  ce_hostname :: string
  ce_mac :: string
  ce_version :: string
  ce_os :: string
  ce_arch :: string

definition controller_new :: "client_conf \<Rightarrow> client_error + 'd controller" where
  "controller_new settings =
     (case snap_connection (cs_scheme settings) (cs_host settings) (cs_port settings) of
        Inl e \<Rightarrow> Inl e
      | Inr conn \<Rightarrow> Inr
          \<lparr>cl_settings = settings, cl_conn = conn, cl_time = tp_new, cl_stream = sb_new sf_default,
           cl_decoder = None, cl_format = sf_default, cl_encoding = PcmInt, cl_server_settings = None,
           cl_events = [], cl_audio = []\<rparr>)"

definition emit :: "client_event \<Rightarrow> 'd controller \<Rightarrow> 'd controller" where
  "emit e c =
     (if length (cl_events c) < CLIENT_EVENT_CHANNEL_SIZE then c\<lparr>cl_events := cl_events c @ [e]\<rparr> else c)"

definition send_audio :: "client_frame \<Rightarrow> 'd controller \<Rightarrow> 'd controller" where
  "send_audio f c =
     (if length (cl_audio c) < CLIENT_AUDIO_CHANNEL_SIZE then c\<lparr>cl_audio := cl_audio c @ [f]\<rparr> else c)"

text \<open>A send of the controller; its error.\<close>

definition send :: "'d client_env \<Rightarrow> int \<Rightarrow> message_type \<Rightarrow> payload \<Rightarrow> 'd controller \<Rightarrow>
    client_error option \<times> 'd controller" where
  "send env now t p c =
     (case conn_send (ce_print env) now t p (cl_conn c) of
        Inl e \<Rightarrow> (Some e, c)
      | Inr conn \<Rightarrow> (None, c\<lparr>cl_conn := conn\<rparr>))"

subsection \<open>Messages\<close>

definition playout_ms :: "client_conf \<Rightarrow> server_settings \<Rightarrow> int" where
  "playout_ms settings ss = max 0 (sint (ss_buffer_ms ss - ss_latency ss - cs_latency settings))"

definition apply_server_settings :: "server_settings \<Rightarrow> 'd controller \<Rightarrow> 'd controller" where
  "apply_server_settings ss c =
     c\<lparr>cl_stream := set_buffer_ms (playout_ms (cl_settings c) ss) (cl_stream c)\<rparr>"

definition init_audio_pipeline ::
  "'d client_env \<Rightarrow> codec_header \<Rightarrow> 'd controller \<Rightarrow> client_error option \<times> 'd controller" where
  "init_audio_pipeline env header c =
     (case create_decoder (ce_libs env) (cs_psk (cl_settings c)) header of
        Inl e \<Rightarrow> (Some (CodecFailed e), c)
      | Inr dec \<Rightarrow>
          (case set_header (ce_libs env) (ch_payload header) dec of
             Inl e \<Rightarrow> (Some (CodecFailed e), c)
           | Inr (format, dec) \<Rightarrow>
               let c = c\<lparr>cl_format := format, cl_encoding := output_encoding dec\<rparr>;
                   c = emit (StreamStarted (ch_codec header) format) c;
                   s = sb_with_encoding format (output_encoding dec);
                   s = (case cl_server_settings c of
                          None \<Rightarrow> s | Some ss \<Rightarrow> set_buffer_ms (playout_ms (cl_settings c) ss) s) in
               (None, c\<lparr>cl_stream := s, cl_decoder := Some dec\<rparr>)))"

definition settings_event :: "server_settings \<Rightarrow> client_event" where
  "settings_event ss = SettingsEvent (ss_buffer_ms ss) (ss_latency ss) (ss_volume ss) (ss_muted ss)"

text \<open>A decoded chunk goes to the shared stream and, as floats, to the audio channel.\<close>

definition deliver_chunk :: "timeval \<Rightarrow> u8 list \<Rightarrow> 'd controller \<Rightarrow> 'd controller" where
  "deliver_chunk timestamp data c =
     (let c = c\<lparr>cl_stream := add_chunk
                (pc_new_with_encoding timestamp data (cl_format c) (cl_encoding c)) (cl_stream c)\<rparr>;
          samples = samples_to_f32 data (cl_format c) (cl_encoding c) in
      if samples = [] then c
      else send_audio \<lparr>cf_samples = samples, cf_rate = sf_rate (cl_format c),
             cf_channels = sf_channels (cl_format c), cf_timestamp = to_usec timestamp\<rparr> c)"

definition handle_wire_chunk ::
  "'d client_env \<Rightarrow> wire_chunk \<Rightarrow> 'd controller \<Rightarrow> 'd controller option" where
  "handle_wire_chunk env wc c =
     (case cl_decoder c of
        None \<Rightarrow> Some c
      | Some dec \<Rightarrow>
          map_option (\<lambda>(dec, ok, data).
              let c = c\<lparr>cl_decoder := Some dec\<rparr> in
              if ok then deliver_chunk (wc_timestamp wc) data c else c)
            (decode_chunk (ce_libs env) dec (wc_payload wc)))"

definition handle_message ::
  "'d client_env \<Rightarrow> nat \<Rightarrow> typed_message \<Rightarrow> 'd controller \<Rightarrow>
   (client_error option \<times> 'd controller) option" where
  "handle_message env now msg c =
     (case msg_payload msg of
        PWireChunk wc \<Rightarrow> map_option (Pair None) (handle_wire_chunk env wc c)
      | PServerSettings ss \<Rightarrow>
          (let c = emit (VolumeChanged (ss_volume ss) (ss_muted ss)) (emit (settings_event ss) c);
               c = apply_server_settings ss c in
           Some (None, c\<lparr>cl_server_settings := Some ss\<rparr>))
      | PCodecHeader ch \<Rightarrow> Some (init_audio_pipeline env ch c)
      | PTime t \<Rightarrow>
          (let s2c = tv_sub (bm_received (msg_base msg)) (bm_sent (msg_base msg)) in
           Some (None, c\<lparr>cl_time := set_diff now (tm_latency t) s2c (cl_time c)\<rparr>))
      | PCustom payload \<Rightarrow>
          (case bm_msg_type (msg_base msg) of
             MCustom i \<Rightarrow> Some (None, emit (CustomEvent i payload) c)
           | _ \<Rightarrow> Some (None, c))
      | _ \<Rightarrow> Some (None, c))"

subsection \<open>Handshake\<close>

definition client_hello :: "'d client_env \<Rightarrow> client_conf \<Rightarrow> hello" where
  "client_hello env settings =
     \<lparr>h_mac = ce_mac env, h_host_name = ce_hostname env, h_version = ce_version env,
      h_client_name = cs_client_name settings, h_os = ce_os env, h_arch = ce_arch env,
      h_instance = cs_instance settings,
      h_id = (if cs_host_id settings = [] then ce_mac env else cs_host_id settings),
      h_protocol_version = 2, h_auth = cs_auth settings\<rparr>"

text \<open>The wait for the server's settings; the clock reading of each receive is a parameter.\<close>

function await_settings :: "'d client_env \<Rightarrow> int \<Rightarrow> 'd controller \<Rightarrow> client_error option \<times> 'd controller" where
  "await_settings env now c =
     (case conn_recv (ce_parse env) now (cl_conn c) of
        (Inl e, conn) \<Rightarrow> (Some e, c\<lparr>cl_conn := conn\<rparr>)
      | (Inr msg, conn) \<Rightarrow>
          let c' = c\<lparr>cl_conn := conn\<rparr> in
          (case msg_payload msg of
             PServerSettings ss \<Rightarrow> (None, (emit (settings_event ss) c')\<lparr>cl_server_settings := Some ss\<rparr>)
           | PCodecHeader ch \<Rightarrow>
               (case init_audio_pipeline env ch c' of
                  (Some e, c'') \<Rightarrow> (Some e, c'')
                | (None, c'') \<Rightarrow> await_settings env now (c''\<lparr>cl_conn := conn\<rparr>))
           | PError e \<Rightarrow> (Some (HelloRejected (em_error e) (em_code e)), c')
           | _ \<Rightarrow> await_settings env now c'))"
  by pat_completeness auto
termination
  by (relation "measure (\<lambda>(env, now, c). length (tc_in (cl_conn c)))")
    (auto dest!: conn_recv_shorter [OF sym] conn_recv_shorter)

declare await_settings.simps [simp del]

definition send_hello :: "'d client_env \<Rightarrow> int \<Rightarrow> 'd controller \<Rightarrow> client_error option \<times> 'd controller" where
  "send_hello env now c =
     (case send env now MHello (PHello (client_hello env (cl_settings c))) c of
        (Some e, c) \<Rightarrow> (Some e, c)
      | (None, c) \<Rightarrow> await_settings env now c)"

subsection \<open>Receive loop\<close>

datatype client_input = InMessage nat int | InCommand "client_command option" | QuickTick | SyncTick

datatype loop_result = Going | Stopped | Failed client_error

definition request_time :: "'d client_env \<Rightarrow> int \<Rightarrow> 'd controller \<Rightarrow> 'd controller" where
  "request_time env now c = snd (send env now MTime (PTime time_new) c)"

definition on_error :: "client_error option \<times> 'd controller \<Rightarrow> loop_result \<times> 'd controller" where
  "on_error r = (case r of (Some e, c) \<Rightarrow> (Failed e, c) | (None, c) \<Rightarrow> (Going, c))"

definition on_command :: "'d client_env \<Rightarrow> int \<Rightarrow> client_command option \<Rightarrow> 'd controller \<Rightarrow> loop_result \<times> 'd controller" where
  "on_command env now cmd c =
     (case cmd of
        None \<Rightarrow> (Stopped, c)
      | Some StopClient \<Rightarrow> (Stopped, c)
      | Some (SetVolume volume muted) \<Rightarrow>
          on_error (send env now MClientInfo (PClientInfo \<lparr>ci_volume = volume, ci_muted = muted\<rparr>) c)
      | Some (SendCustom i payload) \<Rightarrow> on_error (send env now (MCustom i) (PCustom payload) c))"

text \<open>The arm that the loop takes, with the quick syncs that remain; a disabled arm is not taken.\<close>

definition loop_step ::
  "'d client_env \<Rightarrow> int \<Rightarrow> client_input \<Rightarrow> nat \<Rightarrow> 'd controller \<Rightarrow> (loop_result \<times> nat \<times> 'd controller) option" where
  "loop_step env now inp quick c =
     (case inp of
        InMessage ns usec \<Rightarrow>
          (case conn_recv (ce_parse env) usec (cl_conn c) of
             (Inl e, conn) \<Rightarrow> Some (Failed e, quick, c\<lparr>cl_conn := conn\<rparr>)
           | (Inr msg, conn) \<Rightarrow>
               map_option (\<lambda>r. (fst (on_error r), quick, snd (on_error r)))
                 (handle_message env ns msg (c\<lparr>cl_conn := conn\<rparr>)))
      | InCommand cmd \<Rightarrow> (let (r, c) = on_command env now cmd c in Some (r, quick, c))
      | QuickTick \<Rightarrow>
          if quick = 0 then Some (Going, quick, c)
          else
            let quick = quick - 1; c = request_time env now c;
                diff = f64_div (f64_of_int (tp_diff_usec (cl_time c))) (FNum 1000) in
            Some (Going, quick, if quick = 0 then emit (TimeSyncComplete diff) c else c)
      | SyncTick \<Rightarrow>
          if quick = 0 then Some (Going, quick, request_time env now c) else Some (Going, quick, c))"

fun run_inputs ::
  "'d client_env \<Rightarrow> int \<Rightarrow> client_input list \<Rightarrow> nat \<Rightarrow> 'd controller \<Rightarrow> (loop_result \<times> 'd controller) option" where
  "run_inputs env now [] quick c = Some (Going, c)"
| "run_inputs env now (i # is) quick c =
     (case loop_step env now i quick c of
        None \<Rightarrow> None
      | Some (Going, quick, c) \<Rightarrow> run_inputs env now is quick c
      | Some (r, quick, c) \<Rightarrow> Some (r, c))"

definition receive_loop ::
  "'d client_env \<Rightarrow> int \<Rightarrow> client_input list \<Rightarrow> 'd controller \<Rightarrow> (loop_result \<times> 'd controller) option" where
  "receive_loop env now ins c = run_inputs env now ins INITIAL_QUICK_SYNCS (request_time env now c)"

subsection \<open>Sessions\<close>

text \<open>What one connection attempt meets: the peer's bytes, if it is there, and the loop's inputs.\<close>

record script =
  sp_now :: int
  sp_peer :: "u8 list option"
  sp_inputs :: "client_input list"

definition client_session ::
  "'d client_env \<Rightarrow> script \<Rightarrow> 'd controller \<Rightarrow> (loop_result \<times> 'd controller) option" where
  "client_session env sp c =
     (if cs_host (cl_settings c) = [] then Some (Failed NoHost, c)
      else case conn_connect (sp_peer sp) (cl_conn c) of
        Inl e \<Rightarrow> Some (Failed e, c)
      | Inr conn \<Rightarrow>
          let c = emit (Connected (cs_host (cl_settings c)) (cs_port (cl_settings c))) (c\<lparr>cl_conn := conn\<rparr>) in
          (case send_hello env (sp_now sp) c of
             (Some e, c) \<Rightarrow> Some (Failed e, c)
           | (None, c) \<Rightarrow> receive_loop env (sp_now sp) (sp_inputs sp) c))"

definition cleanup :: "'d controller \<Rightarrow> 'd controller" where
  "cleanup c = c\<lparr>cl_decoder := None, cl_conn := conn_disconnect (cl_conn c)\<rparr>"

definition reconnect_delay :: "nat \<Rightarrow> nat" where
  "reconnect_delay attempts = min attempts MAX_RECONNECT_DELAY_SECS"

text \<open>The run over as many connection attempts as are given: whether it returned, and the delays slept.\<close>

fun run_client ::
  "'d client_env \<Rightarrow> script list \<Rightarrow> nat \<Rightarrow> 'd controller \<Rightarrow> (bool \<times> nat list \<times> 'd controller) option" where
  "run_client env [] attempts c = Some (False, [], c)"
| "run_client env (sp # sps) attempts c =
     (case client_session env sp c of
        None \<Rightarrow> None
      | Some (Failed e, c) \<Rightarrow>
          let attempts = min (attempts + 1) (2 ^ 32 - 1); c = cleanup (emit (Disconnected e) c) in
          map_option (\<lambda>(stopped, delays, c). (stopped, reconnect_delay attempts # delays, c))
            (run_client env sps attempts c)
      | Some (Stopped, c) \<Rightarrow> Some (True, [], cleanup c)
      | Some (Going, c) \<Rightarrow> Some (False, [], c))"

end
