(* ===== verification/Player.thy ===== *)
theory Player
  imports Resampler StreamSync Controller
begin

text \<open>
  The player of the client program: \<open>snapclient-rs/src/player/mod.rs\<close> and \<open>mixer.rs\<close>.  The audio device is
  what it reports of itself: its supported configurations and its default one; opening its stream is taken to
  succeed, a failure being tried again by \<open>play_audio\<close>.  The callback that the
  device makes is a function of the clock readings, the volume and the stream; None is a callback that
  panics or does not return.
\<close>

subsection \<open>Volume\<close>

record volume_state =
  vs_percent :: u8
  vs_muted :: bool

definition volume_state_new :: volume_state where
  "volume_state_new = \<lparr>vs_percent = 100, vs_muted = False\<rparr>"

definition gain :: "volume_state \<Rightarrow> f32" where
  "gain v = (if vs_muted v then FNum 0 else f32_div (f32_of_int (uint (vs_percent v))) (FNum 100))"

datatype mixer = SoftwareMixer | HardwareMixer string | NoMixer

text \<open>The mixer that a mode names; \<open>detect\<close> is the ALSA control that the system offers.\<close>

definition mixer_from_str :: "string option \<Rightarrow> string \<Rightarrow> mixer" where
  "mixer_from_str detect raw =
     (let (mode, param) = (case split_once CHR '':'' raw of None \<Rightarrow> (raw, []) | Some p \<Rightarrow> p) in
      if mode = ''software'' \<or> mode = [] then SoftwareMixer
      else if mode = ''hardware'' then
        HardwareMixer (if param = [] then (case detect of None \<Rightarrow> ''Master'' | Some c \<Rightarrow> c) else param)
      else if mode = ''none'' then NoMixer
      else SoftwareMixer)"

text \<open>The control to use when none is named: the first of the usual names that the system knows, else the
  first with a volume.\<close>

definition detect_alsa_control :: "(string \<Rightarrow> bool) \<Rightarrow> string option \<Rightarrow> string option" where
  "detect_alsa_control known first_with_volume =
     (case find known [''Master'', ''Digital'', ''PCM'', ''Speaker''] of
        Some c \<Rightarrow> Some c
      | None \<Rightarrow> first_with_volume)"

text \<open>The level and the switch of a control whose range is from \<open>lo\<close> to \<open>hi\<close>.\<close>

definition set_alsa_volume_inner :: "int \<Rightarrow> int \<Rightarrow> u8 \<Rightarrow> int \<times> bool" where
  "set_alsa_volume_inner lo hi percent =
     (let x = f64_div (f64_of_int (uint percent)) (FNum 100);
          curved = f64_mul (f64_mul x x) x in
      (wrap_i64 (lo + f64_as_i64 (f64_mul (f64_of_int (wrap_i64 (hi - lo))) curved)), percent \<noteq> 0))"

text \<open>A volume from the server: to the software volume, or to the ALSA control (the calls made to it).\<close>

definition mixer_set_volume ::
  "mixer \<Rightarrow> u8 \<Rightarrow> bool \<Rightarrow> volume_state \<times> (string \<times> u8) list \<Rightarrow> volume_state \<times> (string \<times> u8) list" where
  "mixer_set_volume m percent muted s =
     (case m of
        SoftwareMixer \<Rightarrow> (\<lparr>vs_percent = percent, vs_muted = muted\<rparr>, snd s)
      | HardwareMixer control \<Rightarrow> (fst s, snd s @ [(control, if muted then 0 else percent)])
      | NoMixer \<Rightarrow> s)"

text \<open>The task that takes the client's events.\<close>

definition on_client_event ::
  "mixer \<Rightarrow> client_event \<Rightarrow> volume_state \<times> (string \<times> u8) list \<Rightarrow> volume_state \<times> (string \<times> u8) list" where
  "on_client_event m e s =
     (case e of
        SettingsEvent _ _ vol muted \<Rightarrow> mixer_set_volume m (ucast vol) muted s
      | VolumeChanged vol muted \<Rightarrow> mixer_set_volume m (ucast vol) muted s
      | _ \<Rightarrow> s)"

definition apply_volume :: "volume_state \<Rightarrow> f32 list \<Rightarrow> f32 list" where
  "apply_volume v data =
     (if f64_less (gain v) (FNum 1) then List.map (\<lambda>x. f32_mul x (gain v)) data else data)"

subsection \<open>The device\<close>

record device_config =
  dc_channels :: u16
  dc_min_rate :: u32
  dc_max_rate :: u32

record audio_device =
  ad_supported :: "string + device_config list"
  ad_default :: "string + u32 \<times> u16"

text \<open>Rate and channels to open the device with, and whether the default was taken.\<close>

definition select_config :: "audio_device option \<Rightarrow> sample_format \<Rightarrow> string + (u32 \<times> u16) \<times> bool" where
  "select_config dev f =
     (case dev of
        None \<Rightarrow> Inl ''no output device''
      | Some d \<Rightarrow>
          (case ad_supported d of
             Inl e \<Rightarrow> Inl e
           | Inr cs \<Rightarrow>
               (case find (\<lambda>c. dc_channels c = sf_channels f \<and> dc_min_rate c \<le> sf_rate f \<and> sf_rate f \<le> dc_max_rate c) cs of
                  Some c \<Rightarrow> Inr ((sf_rate f, dc_channels c), False)
                | None \<Rightarrow> map_sum id (\<lambda>rc. (rc, True)) (ad_default d))))"

record 'r player =
  pl_rate :: u32
  pl_channels :: u16
  pl_format :: sample_format
  pl_encoding :: sample_encoding
  pl_resampler :: "'r resampler option"
  pl_buf :: "u8 list"

definition player_start ::
  "'r rubato \<Rightarrow> audio_device option \<Rightarrow> sample_format \<Rightarrow> sample_encoding \<Rightarrow> string + 'r player" where
  "player_start rub dev f encoding =
     (case select_config dev f of
        Inl e \<Rightarrow> Inl e
      | Inr ((rate, channels), resample) \<Rightarrow>
          (case (if resample then resampler_new rub f (sf_new rate 16 channels) encoding (unat (sf_rate f) div 50)
                 else Inr None) of
             Inl e \<Rightarrow> Inl e
           | Inr r \<Rightarrow> Inr \<lparr>pl_rate = rate, pl_channels = channels, pl_format = f, pl_encoding = encoding,
                          pl_resampler = r, pl_buf = []\<rparr>))"

subsection \<open>The callback\<close>

text \<open>\<open>Vec::resize\<close> with zeros.\<close>

definition resize_buf :: "nat \<Rightarrow> u8 list \<Rightarrow> u8 list" where
  "resize_buf n xs = take n xs @ replicate (n - length xs) 0"

text \<open>The samples fill the output from its start; what they do not reach is silence.\<close>

definition write_samples_to_output ::
  "f32 list \<Rightarrow> u8 list \<Rightarrow> sample_format \<Rightarrow> sample_encoding \<Rightarrow> f32 list" where
  "write_samples_to_output output samples f encoding =
     (let n = length output;
          xs = (case encoding of
                  Float32 \<Rightarrow> List.map (\<lambda>c. f32_of_bits (le_dec c)) (take n (chunks_of 4 samples))
                | PcmInt \<Rightarrow>
                    if sf_bits f = 16 then
                      List.map (\<lambda>c. f32_div (f32_of_int (int_of_le c)) (f32_of_int (2 ^ 15 - 1))) (take n (chunks_of 2 samples))
                    else if sf_bits f = 24 then
                      List.map (\<lambda>c. f32_div (f32_of_int (int_of_le c)) PCM_24BIT_MAX) (take n (chunks_of 4 samples))
                    else if sf_bits f = 32 then
                      List.map (\<lambda>c. f32_div (f32_of_int (int_of_le c)) (f32_of_int (2 ^ 31 - 1))) (take n (chunks_of 4 samples))
                    else []) in
      xs @ replicate (n - length xs) (FNum 0))"

definition f64_ceil :: "f64 \<Rightarrow> f64" where
  "f64_ceil x = (case x of FNum r \<Rightarrow> FNum (of_int (ceiling r)) | _ \<Rightarrow> x)"

text \<open>The frames to take from the stream for \<open>n\<close> frames of the device.\<close>

definition input_frames :: "u32 \<Rightarrow> u32 \<Rightarrow> nat \<Rightarrow> nat" where
  "input_frames rate device_rate n =
     nat (f64_as_int 0 (2 ^ 64 - 1) (f64_ceil
       (f64_div (f64_mul (f64_of_int (int n)) (f64_of_int (uint rate))) (f64_of_int (uint device_rate)))))"

definition silence :: "f32 list \<Rightarrow> f32 list" where
  "silence data = replicate (length data) (FNum 0)"

definition player_callback ::
  "'r rubato \<Rightarrow> int \<Rightarrow> int \<Rightarrow> int \<Rightarrow> volume_state \<Rightarrow> f32 list \<Rightarrow> 'r player \<Rightarrow> stream_buffer \<Rightarrow>
   (f32 list \<times> 'r player \<times> stream_buffer) option" where
  "player_callback rub now diff delay vol data p s =
     (if pl_channels p = 0 \<or> pl_rate p = 0 then None
      else
        let n = length data div unat (pl_channels p);
            dac = wrap_i64 (delay + wrap_i64 (int n * 1000000) sdiv uint (pl_rate p));
            server_now = wrap_i64 (now + diff);
            f = sb_format s; fs = unat (frame_size f) in
        if sf_rate f \<noteq> sf_rate (pl_format p) \<or> sf_channels f \<noteq> sf_channels (pl_format p) \<or>
           sb_encoding s \<noteq> pl_encoding p then Some (silence data, p, s)
        else if fs = 0 then Some (silence data, p, s)
        else
          case pl_resampler p of
            None \<Rightarrow>
              map_option (\<lambda>(s', buf, _).
                  (apply_volume vol (write_samples_to_output data buf f (sb_encoding s)), p\<lparr>pl_buf := buf\<rparr>, s'))
                (get_player_chunk_or_silence s server_now dac (resize_buf (n * fs) (pl_buf p)) (n mod 2 ^ 32))
          | Some r \<Rightarrow>
              let m = input_frames (sf_rate (pl_format p)) (pl_rate p) n in
              (case get_player_chunk_or_silence s server_now dac (resize_buf (m * fs) (pl_buf p)) (m mod 2 ^ 32) of
                 None \<Rightarrow> None
               | Some (s', buf, _) \<Rightarrow>
                   (case resampler_process rub buf r of
                      None \<Rightarrow> None
                    | Some (Inl e, buf, r) \<Rightarrow> Some (silence data, p\<lparr>pl_buf := buf, pl_resampler := Some r\<rparr>, s')
                    | Some (Inr _, buf, r) \<Rightarrow>
                        Some (apply_volume vol
                                (write_samples_to_output data buf (sf_new (pl_rate p) 32 (pl_channels p)) Float32),
                              p\<lparr>pl_buf := buf, pl_resampler := Some r\<rparr>, s'))))"

text \<open>The player is restarted when the stream's format is no longer the one it was opened for.\<close>

definition format_changed :: "'r player \<Rightarrow> stream_buffer \<Rightarrow> bool" where
  "format_changed p s \<longleftrightarrow>
     sf_rate (sb_format s) \<noteq> sf_rate (pl_format p) \<or> sf_channels (sb_format s) \<noteq> sf_channels (pl_format p) \<or>
     sb_encoding s \<noteq> pl_encoding p"

text \<open>The player waits until the stream has a format.\<close>

definition format_known :: "stream_buffer \<Rightarrow> bool" where
  "format_known s \<longleftrightarrow> 0 < sf_rate (sb_format s) \<and> 0 < sf_channels (sb_format s)"

subsection \<open>Lengths and silence\<close>

lemma length_write [simp]: "length (write_samples_to_output out samples f encoding) = length out"
  by (simp add: write_samples_to_output_def Let_def split: sample_encoding.split)

lemma length_volume [simp]: "length (apply_volume v data) = length data"
  by (simp add: apply_volume_def)

lemma length_resize [simp]: "length (resize_buf n xs) = n"
  by (simp add: resize_buf_def)

lemma length_get_silence [simp]: "length (get_silence s out n) = length out"
  by (simp add: get_silence_def Let_def)

text \<open>The output is the conversion that the controller makes for the audio channel, cut or padded to the buffer.\<close>

lemma write_samples_eq:
  "write_samples_to_output out samples f encoding =
     (let xs = take (length out) (samples_to_f32 samples f encoding) in xs @ replicate (length out - length xs) (FNum 0))"
  by (simp add: write_samples_to_output_def samples_to_f32_def scale_samples_def Let_def take_map
      split: sample_encoding.split)

lemma f32_round_finite:
  assumes "\<bar>x\<bar> < 2 ^ k" "k \<le> 126"
  shows "\<exists>r. f32_round x = FNum r \<and> \<bar>r\<bar> < 2 ^ Suc k"
proof (cases "x = 0")
  case False
  define q where "q = quantum32 x"
  have "exponent \<bar>x\<bar> < int k" using False assms(1) by (intro exponent_less) (simp_all add: pow2_nat)
  then have "q \<le> pow2 (int k)" unfolding q_def quantum32_def by (intro pow2_mono) simp
  then have q: "0 < q" "q \<le> 2 ^ k" by (simp_all add: q_def pow2_nat)
  have "\<bar>of_int (round_even (x / q)) - x / q\<bar> * q \<le> 1 / 2 * q"
    using q(1) by (intro mult_right_mono round_even_error) simp
  also have "\<bar>of_int (round_even (x / q)) - x / q\<bar> * q = \<bar>(of_int (round_even (x / q)) - x / q) * q\<bar>"
    using q(1) by (simp add: abs_mult)
  finally have "\<bar>of_int (round_even (x / q)) * q - x\<bar> \<le> q" using q(1) by (simp add: left_diff_distrib)
  then have r: "\<bar>of_int (round_even (x / q)) * q\<bar> < 2 ^ Suc k" using assms(1) q by simp
  also have "(2 :: rat) ^ Suc k \<le> 2 ^ 128" using assms(2) by (intro power_increasing) simp_all
  finally show ?thesis using False r by (simp add: f32_round_def Let_def q_def pow2_nat)
qed (simp add: f32_round_def)

text \<open>Muting a finite sample gives zero; the samples of whole numbers are finite.\<close>

definition finite_sample :: "f32 \<Rightarrow> bool" where
  "finite_sample x \<longleftrightarrow> (\<exists>r. x = FNum r)"

lemma finite_sample_num [simp]: "finite_sample (FNum r)"
  by (simp add: finite_sample_def)

lemma f32_mul_zero: "finite_sample x \<Longrightarrow> f32_mul x (FNum 0) = FNum 0"
  by (auto simp: finite_sample_def f32_round_def)

lemma int_of_le_bound:
  assumes "length c \<le> 4"
  shows "\<bar>int_of_le c\<bar> < 2 ^ 32"
proof -
  have "(256 :: int) ^ length c \<le> 256 ^ 4" using assms by (intro power_increasing) simp_all
  moreover have "int (le_dec c) < 256 ^ length c" using le_dec_bound [of c] by (simp flip: of_nat_less_iff)
  ultimately show ?thesis by (simp add: int_of_le_def Let_def)
qed

lemma finite_scaled:
  assumes "\<bar>a\<bar> < 2 ^ 32" "1 \<le> d"
  shows "finite_sample (f32_div (f32_of_int a) (FNum d))"
proof -
  have "\<bar>of_int a :: rat\<bar> < of_int (2 ^ 32)" using assms(1) by (simp only: of_int_abs [symmetric] of_int_less_iff)
  then obtain r where r: "f32_of_int a = FNum r" "\<bar>r\<bar> < 2 ^ 33"
    using f32_round_finite [of "of_int a" 32] by (auto simp: f32_of_int_def)
  have "\<bar>r / d\<bar> \<le> \<bar>r\<bar> / 1" unfolding abs_divide using assms(2) by (intro divide_left_mono) simp_all
  then have "\<bar>r / d\<bar> < 2 ^ 33" using r(2) by simp
  then show ?thesis using f32_round_finite [of "r / d" 33] assms(2) by (auto simp: r(1) finite_sample_def)
qed

lemma finite_chunks:
  "k \<le> 4 \<Longrightarrow> 1 \<le> d \<Longrightarrow> c \<in> set (chunks_of k xs) \<Longrightarrow> finite_sample (f32_div (f32_of_int (int_of_le c)) (FNum d))"
  by (rule finite_scaled [OF int_of_le_bound]) (auto simp: length_in_chunks_of)

lemma get_player_chunk_or_silence_ok:
  assumes "stream_ok s" "0 < frames" "frames \<le> 2 ^ 30" "frames * fsize s \<le> length out"
  obtains s' out' played where "get_player_chunk_or_silence s now dac out frames = Some (s', out', played)"
    "stream_ok s'" "length out' = length out"
proof -
  obtain s' out' played where g: "get_player_chunk s now dac out frames = Some (s', out', played)"
    "stream_ok s'" "length out' = length out"
    using get_player_chunk_total [OF assms] by blast
  show thesis
    by (rule that [of s' "if played then out' else get_silence s' out' frames" played])
      (simp_all add: get_player_chunk_or_silence_def g split: bool.split)
qed

lemma muted_silent:
  assumes "vs_muted v" "\<forall>x\<in>set xs. finite_sample x"
  shows "apply_volume v xs = silence xs"
  using assms by (simp add: apply_volume_def gain_def silence_def f32_mul_zero map_replicate_const cong: map_cong)

lemma f32_max: "f32_of_int 32767 = FNum 32767" "f32_of_int 2147483647 = FNum 2147483648"
proof -
  have "f32_round 2147483647 = FNum 2147483648"
    by (rule f32_round_hits_eq [of 30 _ _ "2 ^ 24"]) (simp_all add: pow2_def)
  then show "f32_of_int 2147483647 = FNum 2147483648" by (simp add: f32_of_int_def)
qed (simp add: f32_of_int_exact)

lemma written_finite: "\<forall>x\<in>set (write_samples_to_output out samples f PcmInt). finite_sample x"
  using finite_chunks [of 2] finite_chunks [of 4]
  by (auto simp: write_samples_to_output_def Let_def f32_max PCM_24BIT_MAX_def dest!: in_set_takeD)

text \<open>The frames to take for a device buffer: at least one, and no more than a request may have.\<close>

lemma f64_of_nat_exact: "n < 2 ^ 53 \<Longrightarrow> f64_of_int (int n) = FNum (of_nat n)"
  using f64_of_int_exact [of "int n"] by simp

lemma input_frames_bounds:
  assumes "0 < n" "n \<le> 2 ^ 16" "0 < unat rate" "unat rate \<le> 2 ^ 20" "1000 \<le> unat device_rate"
  shows "0 < input_frames rate device_rate n \<and> input_frames rate device_rate n \<le> 2 ^ 30"
proof -
  define r d where "r = unat rate" and "d = unat device_rate"
  have u: "uint rate = int r" "uint device_rate = int d" by (simp_all add: r_def d_def)
  have "d < 2 ^ 32" using unsigned_less [of device_rate] by (simp add: d_def)
  then have b: "n < 2 ^ 53" "r < 2 ^ 53" "d < 2 ^ 53" "1000 \<le> d" "d < 2 ^ 32" "0 < r"
    using assms by (simp_all add: r_def d_def)
  have "n * r \<le> 2 ^ 16 * 2 ^ 20" using assms(2,4) by (intro mult_mono) (simp_all add: r_def)
  then have nr: "n * r \<le> 2 ^ 36" "1 \<le> n * r" using assms(1) b(6) by (simp_all add: Suc_le_eq)
  then have prod: "f64_round (of_nat n * of_nat r) = FNum (of_nat (n * r))"
    using f64_of_nat_exact [of "n * r"] by (simp add: f64_of_int_def)
  define x where "x = (of_nat (n * r) :: rat) / of_nat d"
  have nr': "1 \<le> (of_nat (n * r) :: rat)" "(of_nat (n * r) :: rat) \<le> 2 ^ 36"
    using of_nat_mono [OF nr(1), where 'a = rat] of_nat_mono [OF nr(2), where 'a = rat] by simp_all
  have d': "(1000 :: rat) \<le> of_nat d" "(of_nat d :: rat) \<le> 2 ^ 32"
    using of_nat_mono [OF b(4), where 'a = rat] of_nat_mono [OF less_imp_le [OF b(5)], where 'a = rat] by simp_all
  have lo: "1 / 2 ^ 32 \<le> x" unfolding x_def using nr' d' by (intro frac_le) simp_all
  have hi: "x \<le> 2 ^ 36 / 1000" unfolding x_def using nr' d' by (intro frac_le) simp_all
  obtain y where y: "f64_round x = FNum y" "1 / 2 ^ 33 \<le> y" "y \<le> 2 ^ 30"
    by (rule f64_round_within [OF lo hi, of "1 / 2 ^ 33" "2 ^ 30"]) simp_all
  have "0 < y" using y(2) by (rule less_le_trans [rotated]) simp
  then have c: "1 \<le> \<lceil>y\<rceil>" "\<lceil>y\<rceil> \<le> 2 ^ 30" using y(3) by (simp_all add: ceiling_le_iff)
  have "d \<noteq> 0" using b(4) by simp
  then have "input_frames rate device_rate n = nat \<lceil>y\<rceil>"
    using c prod y(1) b(1-3)
    by (simp add: input_frames_def u f64_of_nat_exact x_def f64_ceil_def clamp_int_def trunc_rat_def)
  then show ?thesis using c by (simp add: nat_le_iff)
qed

text \<open>What the converter must keep to: it gives as many samples for every channel, and at least one channel.\<close>

definition rubato_ok :: "'r rubato \<Rightarrow> bool" where
  "rubato_ok rub \<longleftrightarrow>
     (\<forall>st chans st' out. rub_process rub st chans = (st', Inr out) \<longrightarrow> out \<noteq> [] \<and> (\<exists>k. \<forall>x\<in>set out. length x = k))"

lemma resampler_process_returns:
  assumes "rubato_ok rub"
  shows "resampler_process rub buf r \<noteq> None"
proof (cases "rub_process rub (rs_state r) (split_channels (rs_in r) (rs_encoding r) (rs_channels r) buf)")
  case (Pair st res)
  have "join_channels out \<noteq> None" if o: "res = Inr out" for out
  proof -
    obtain k where "out \<noteq> []" "\<forall>x\<in>set out. length x = k"
      using assms Pair o unfolding rubato_ok_def by blast
    then show ?thesis by (cases out) (auto simp: join_channels_def)
  qed
  with Pair show ?thesis by (cases res) (auto simp: resampler_process_def)
qed

definition player_ready :: "'r player \<Rightarrow> bool" where
  "player_ready p \<longleftrightarrow> pl_channels p \<noteq> 0 \<and> 1000 \<le> unat (pl_rate p) \<and> unat (sf_rate (pl_format p)) \<le> 2 ^ 20"

definition device_buffer_ok :: "'r player \<Rightarrow> f32 list \<Rightarrow> bool" where
  "device_buffer_ok p data \<longleftrightarrow> (let n = length data div unat (pl_channels p) in 0 < n \<and> n \<le> 2 ^ 16)"

lemma player_ready_nz: "player_ready p \<Longrightarrow> pl_channels p \<noteq> 0 \<and> pl_rate p \<noteq> 0"
  by (auto simp: player_ready_def)

text \<open>A callback, given that the stream is well formed.\<close>

lemma callback_changed:
  "format_changed p s \<Longrightarrow> pl_channels p \<noteq> 0 \<Longrightarrow> pl_rate p \<noteq> 0 \<Longrightarrow>
   player_callback rub now diff delay vol data p s = Some (silence data, p, s)"
  unfolding player_callback_def format_changed_def Let_def by (simp only: if_True if_False de_Morgan_disj simp_thms)

lemma callback_direct:
  assumes "stream_ok s" "pl_resampler p = None" "pl_channels p \<noteq> 0" "pl_rate p \<noteq> 0" "\<not> format_changed p s"
    and n: "n = length data div unat (pl_channels p)" "0 < n" "n \<le> 2 ^ 30"
  obtains buf s' where "player_callback rub now diff delay vol data p s =
      Some (apply_volume vol (write_samples_to_output data buf (sb_format s) (sb_encoding s)), p\<lparr>pl_buf := buf\<rparr>, s')"
    "stream_ok s'" "length buf = n * fsize s"
proof -
  define dac where "dac = wrap_i64 (delay + wrap_i64 (int n * 1000000) sdiv uint (pl_rate p))"
  obtain s' buf played where g: "get_player_chunk_or_silence s (wrap_i64 (now + diff)) dac
      (resize_buf (n * fsize s) (pl_buf p)) n = Some (s', buf, played)" "stream_ok s'" "length buf = n * fsize s"
    by (rule get_player_chunk_or_silence_ok [OF assms(1) n(2,3),
          where now = "wrap_i64 (now + diff)" and dac = dac and out = "resize_buf (n * fsize s) (pl_buf p)"]) simp_all
  have "fsize s \<noteq> 0" using assms(1) by (simp add: stream_ok_def chunks_ok_def)
  with assms(2-5) g(1) n(3) have "player_callback rub now diff delay vol data p s =
      Some (apply_volume vol (write_samples_to_output data buf (sb_format s) (sb_encoding s)), p\<lparr>pl_buf := buf\<rparr>, s')"
    by (simp add: player_callback_def format_changed_def Let_def fsize_def n(1) [symmetric] dac_def [symmetric])
  with g that show thesis by blast
qed

lemma callback_converted:
  assumes "rubato_ok rub" "stream_ok s" "player_ready p" "device_buffer_ok p data" "pl_resampler p = Some r"
    and "\<not> format_changed p s"
  obtains out buf r' s' where "player_callback rub now diff delay vol data p s =
      Some (out, p\<lparr>pl_buf := buf, pl_resampler := Some r'\<rparr>, s')" "length out = length data" "stream_ok s'"
proof -
  define n where "n = length data div unat (pl_channels p)"
  define m where "m = input_frames (sf_rate (pl_format p)) (pl_rate p) n"
  define dac where "dac = wrap_i64 (delay + wrap_i64 (int n * 1000000) sdiv uint (pl_rate p))"
  have pr: "pl_channels p \<noteq> 0" "pl_rate p \<noteq> 0" using player_ready_nz [OF assms(3)] by simp_all
  have "sf_rate (pl_format p) \<noteq> 0"
    using assms(2,6) by (auto simp: format_changed_def stream_ok_def chunks_ok_def)
  then have "0 < unat (sf_rate (pl_format p))" by (simp add: unat_gt_0)
  then have m: "0 < m" "m \<le> 2 ^ 30"
    using assms(3,4) input_frames_bounds [of n "sf_rate (pl_format p)" "pl_rate p"]
    unfolding m_def n_def player_ready_def device_buffer_ok_def Let_def by blast+
  obtain s' buf played where g: "get_player_chunk_or_silence s (wrap_i64 (now + diff)) dac
      (resize_buf (m * fsize s) (pl_buf p)) m = Some (s', buf, played)" "stream_ok s'"
    by (rule get_player_chunk_or_silence_ok [OF assms(2) m,
          where now = "wrap_i64 (now + diff)" and dac = dac and out = "resize_buf (m * fsize s) (pl_buf p)"]) simp_all
  obtain res buf' r' where rp: "resampler_process rub buf r = Some (res, buf', r')"
    using resampler_process_returns [OF assms(1), of buf r] by (metis option.exhaust prod_cases3)
  have "fsize s \<noteq> 0" using assms(2) by (simp add: stream_ok_def chunks_ok_def)
  with assms(5,6) pr g(1) m(2) rp have "\<exists>out. player_callback rub now diff delay vol data p s =
      Some (out, p\<lparr>pl_buf := buf', pl_resampler := Some r'\<rparr>, s') \<and> length out = length data"
    by (cases res) (simp_all add: player_callback_def format_changed_def Let_def fsize_def n_def [symmetric]
        dac_def [symmetric] m_def [symmetric] silence_def)
  with g(2) that show thesis by blast
qed

lemma callback_ok:
  assumes "rubato_ok rub" "stream_ok s" "player_ready p" "device_buffer_ok p data"
  obtains out p' s' where "player_callback rub now diff delay vol data p s = Some (out, p', s')"
    "length out = length data" "stream_ok s'" "player_ready p'"
    "vs_muted vol \<Longrightarrow> pl_resampler p = None \<Longrightarrow> sb_encoding s = PcmInt \<Longrightarrow> out = silence data"
proof (cases "format_changed p s")
  case True
  then show thesis
    using that [of "silence data" p s] assms(2,3) callback_changed [OF True] player_ready_nz [OF assms(3)]
    by (simp add: silence_def)
next
  case False
  show thesis
  proof (cases "pl_resampler p")
    case None
    define n where "n = length data div unat (pl_channels p)"
    have n: "0 < n" "n \<le> 2 ^ 30" using assms(4) by (simp_all add: n_def device_buffer_ok_def Let_def)
    have pr: "pl_channels p \<noteq> 0" "pl_rate p \<noteq> 0" using player_ready_nz [OF assms(3)] by simp_all
    obtain buf s' where c: "player_callback rub now diff delay vol data p s =
        Some (apply_volume vol (write_samples_to_output data buf (sb_format s) (sb_encoding s)), p\<lparr>pl_buf := buf\<rparr>, s')"
      "stream_ok s'"
      using callback_direct [OF assms(2) None pr False n_def n] .
    let ?out = "write_samples_to_output data buf (sb_format s) (sb_encoding s)"
    have "apply_volume vol ?out = silence data" if "vs_muted vol" "sb_encoding s = PcmInt"
      using muted_silent [OF that(1), of ?out] written_finite that(2) by (simp add: silence_def)
    with c assms(3) that show thesis by (simp add: player_ready_def)
  next
    case (Some r)
    obtain out buf r' s' where c: "player_callback rub now diff delay vol data p s =
        Some (out, p\<lparr>pl_buf := buf, pl_resampler := Some r'\<rparr>, s')" "length out = length data" "stream_ok s'"
      using callback_converted [OF assms Some False] .
    show thesis by (rule that [OF c]) (use assms(3) Some in \<open>simp_all add: player_ready_def\<close>)
  qed
qed

subsection \<open>Playing over time\<close>

text \<open>What happens to the player and the stream that it shares with the controller: callbacks with any clock
  readings and volume, chunks of the stream's format from the controller, a new buffer length, a new stream
  in place of the old one, and the restart of the player for a changed format.\<close>

inductive playback_step ::
  "'r rubato \<Rightarrow> audio_device \<Rightarrow> 'r player \<times> stream_buffer \<Rightarrow> 'r player \<times> stream_buffer \<Rightarrow> bool" for rub dev where
  callback_made: "device_buffer_ok p data \<Longrightarrow>
    player_callback rub now diff delay vol data p s = Some (out, p', s') \<Longrightarrow> playback_step rub dev (p, s) (p', s')"
| chunk_arrived: "chunk_ok (sb_format s) c \<Longrightarrow> playback_step rub dev (p, s) (p, add_chunk c s)"
| buffer_set: "playback_step rub dev (p, s) (p, set_buffer_ms ms s)"
| stream_replaced: "0 < unat (frame_size f) \<Longrightarrow> sf_rate f \<noteq> 0 \<Longrightarrow>
    playback_step rub dev (p, s) (p, sb_with_encoding f encoding)"
| restarted: "format_changed p s \<Longrightarrow> format_known s \<Longrightarrow>
    player_start rub (Some dev) (sb_format s) (sb_encoding s) = Inr p' \<Longrightarrow> player_ready p' \<Longrightarrow>
    playback_step rub dev (p, s) (p', s)"

text \<open>The first player, for a stream that has just got its format.\<close>

definition playback_init :: "'r rubato \<Rightarrow> audio_device \<Rightarrow> 'r player \<times> stream_buffer \<Rightarrow> bool" where
  "playback_init rub dev x \<longleftrightarrow>
     (\<exists>f encoding. 0 < unat (frame_size f) \<and> sf_rate f \<noteq> 0 \<and> snd x = sb_with_encoding f encoding \<and>
        player_start rub (Some dev) f encoding = Inr (fst x) \<and> player_ready (fst x))"

definition playback_ok :: "'r player \<times> stream_buffer \<Rightarrow> bool" where
  "playback_ok x \<longleftrightarrow> player_ready (fst x) \<and> stream_ok (snd x)"

lemma new_stream_ok: "0 < unat (frame_size f) \<Longrightarrow> sf_rate f \<noteq> 0 \<Longrightarrow> stream_ok (sb_with_encoding f encoding)"
  by (simp add: stream_ok_def chunks_ok_def drift_ok_def fsize_def sb_with_encoding_def db_new_def correct_after_ok_def
      in_i64_def)

lemma stream_ok_buffer [simp]: "stream_ok (set_buffer_ms ms s) = stream_ok s"
  by (simp add: stream_ok_def chunks_ok_def drift_ok_def fsize_def set_buffer_ms_def)

lemma stream_ok_add_chunk: "stream_ok s \<Longrightarrow> chunk_ok (sb_format s) c \<Longrightarrow> stream_ok (add_chunk c s)"
  by (auto simp: stream_ok_def chunks_ok_def drift_ok_def fsize_def add_chunk_def)

lemma playback_step_ok:
  assumes "rubato_ok rub" "playback_ok x" "playback_step rub dev x y"
  shows "playback_ok y"
  using assms(3,2)
proof cases
  case (callback_made p data now diff delay vol s out p' s')
  then show ?thesis using callback_ok [OF assms(1), of s p data now diff delay vol] assms(2)
    by (auto simp: playback_ok_def)
qed (auto simp: playback_ok_def stream_ok_add_chunk new_stream_ok)

text \<open>The steps that keep the invariant are those with a converter that keeps to its part.\<close>

interpretation playback: invariant_system "playback_init rub dev" "\<lambda>x y. rubato_ok rub \<and> playback_step rub dev x y"
  playback_ok for rub dev
proof unfold_locales
  show "playback_ok x" if "playback_init rub dev x" for x
    using that new_stream_ok by (auto simp: playback_init_def playback_ok_def)
  show "playback_ok y" if "playback_ok x" "rubato_ok rub \<and> playback_step rub dev x y" for x y
    using that playback_step_ok by blast
qed

lemma reach_cond: "reach init step x \<Longrightarrow> c \<Longrightarrow> reach init (\<lambda>x y. c \<and> step x y) x"
  by (induction rule: reach.induct) (auto intro: reach.intros)

text \<open>C2: The sound device's callback always returns.  Take a player that has been started on a device of at least
  1000 frames a second, for streams of at most \<open>2 ^ 20\<close> frames a second whose rate and frame size are not zero.
  Let chunks arrive that are made of whole frames of the stream's format, streams be replaced, players
  be restarted, and callbacks be made for buffers of 1 to 65536 frames under any clock readings, with or without a
  converter, which gives each channel as many samples as any other.  Then every further callback for such a buffer
  returns: no slice out of range, no division fault, no endless loop.  It fills exactly the device's buffer, and
  when muted it plays, of whole-number samples without a converter, zeros.  A chunk that ends in a part of a frame
  is not covered, and does stop the playback.\<close>

theorem playback_never_stops:
  assumes "rubato_ok rub" "reach (playback_init rub dev) (playback_step rub dev) (p, s)"
    and "device_buffer_ok p data"
  shows "\<exists>out p' s'. player_callback rub now diff delay vol data p s = Some (out, p', s') \<and>
    length out = length data \<and>
    (vs_muted vol \<and> pl_resampler p = None \<and> sb_encoding s = PcmInt \<longrightarrow> out = silence data)"
proof -
  have "player_ready p" "stream_ok s" using playback.reach_inv [OF reach_cond [OF assms(2,1)]] by (simp_all add: playback_ok_def)
  with callback_ok [OF assms(1) _ _ assms(3), of s now diff delay vol] show ?thesis by metis
qed

subsection \<open>The hardware volume at its ends\<close>

lemma f64_round_simps [simp]: "f64_round 0 = FNum 0" "f64_round 1 = FNum 1"
  using f64_of_int_exact [of 1] by (simp_all add: f64_round_def f64_of_int_def)

lemma alsa_volume_ends:
  assumes "\<bar>lo\<bar> < 2 ^ 51" "\<bar>hi\<bar> < 2 ^ 51"
  shows "set_alsa_volume_inner lo hi 0 = (lo, False)" "set_alsa_volume_inner lo hi 100 = (hi, True)"
proof -
  have b: "\<bar>hi - lo\<bar> < 2 ^ 53" "wrap_i64 (hi - lo) = hi - lo" "wrap_i64 lo = lo" "wrap_i64 hi = hi"
    using assms by (auto intro!: wrap_i64_id simp: in_i64_def)
  have e: "f64_of_int 0 = FNum 0" "f64_of_int 100 = FNum 100" "f64_of_int (hi - lo) = FNum (of_int (hi - lo))"
    using f64_of_int_exact [of 100] f64_of_int_exact [of 0] f64_of_int_exact [OF b(1)] by simp_all
  then have r: "f64_round (of_int (hi - lo)) = FNum (of_int (hi - lo))" by (simp add: f64_of_int_def)
  show "set_alsa_volume_inner lo hi 0 = (lo, False)"
    by (simp add: set_alsa_volume_inner_def Let_def b e f64_as_i64_def clamp_int_def trunc_rat_def del: of_int_diff)
  have "- (2 ^ 63) \<le> hi - lo" "hi - lo < 2 ^ 63" using b(1) by (simp_all add: abs_less_iff)
  moreover have "trunc_rat (of_int (hi - lo)) = hi - lo" by (simp add: trunc_rat_def del: of_int_diff flip: of_int_minus)
  ultimately show "set_alsa_volume_inner lo hi 100 = (hi, True)"
    using r by (simp add: set_alsa_volume_inner_def Let_def b e f64_as_i64_def clamp_int_def del: of_int_diff)
qed

subsection \<open>A device with more channels than the stream\<close>

lemma volume_of_silence: "apply_volume v (replicate n (FNum 0)) = replicate n (FNum 0)"
proof -
  have "\<bar>of_int (uint (vs_percent v)) :: rat\<bar> < of_int (2 ^ 8)"
    using uint_bounded [of "vs_percent v"] by (simp only: of_int_abs [symmetric] of_int_less_iff) simp
  then have "finite_sample (gain v)"
    using finite_scaled [of "uint (vs_percent v)" 100] uint_bounded [of "vs_percent v"] by (simp add: gain_def)
  then show ?thesis
    by (auto simp: apply_volume_def finite_sample_def f32_round_def)
qed

lemma volume_append: "apply_volume v (xs @ ys) = apply_volume v xs @ apply_volume v ys"
  by (simp add: apply_volume_def)

lemma player_start_fallback:
  assumes "ad_supported d = Inr cs" "\<forall>c\<in>set cs. dc_channels c \<noteq> sf_channels f" "ad_default d = Inr (sf_rate f, c)"
  shows "player_start rub (Some d) f encoding =
    Inr \<lparr>pl_rate = sf_rate f, pl_channels = c, pl_format = f, pl_encoding = encoding, pl_resampler = None, pl_buf = []\<rparr>"
proof -
  have "find (\<lambda>c. dc_channels c = sf_channels f \<and> dc_min_rate c \<le> sf_rate f \<and> sf_rate f \<le> dc_max_rate c) cs = None"
    using assms(2) by (auto simp: find_None_iff)
  then show ?thesis using assms by (simp add: player_start_def select_config_def resampler_new_def sf_new_def)
qed

text \<open>C37: a device that does not offer the stream's channels is opened with its default configuration.
  Nothing maps channels: when its rate is the stream's there is no converter, and of every buffer of the
  device the first part holds the samples of the stream one after the other, whatever channel they
  belong to, and the rest is silence.\<close>

theorem channels_not_mapped:
  assumes d: "ad_supported d = Inr cs" "\<forall>c\<in>set cs. dc_channels c \<noteq> sf_channels f" "ad_default d = Inr (sf_rate f, c)"
    and f: "sf_bits f = 16" "unat (sf_channels f) < unat c" "unat c < 2 ^ 15"
    and s: "stream_ok s" "sb_format s = f" "sb_encoding s = PcmInt"
    and n: "length data = n * unat c" "0 < n" "n \<le> 2 ^ 30"
  shows "\<exists>p out p' s' xs. player_start rub (Some d) f PcmInt = Inr p \<and>
    player_callback rub now diff delay vol data p s = Some (out, p', s') \<and>
    xs = samples_to_f32 (pl_buf p') f PcmInt \<and> length xs = n * unat (sf_channels f) \<and>
    out = apply_volume vol xs @ replicate (n * (unat c - unat (sf_channels f))) (FNum 0)"
proof -
  let ?p = "\<lparr>pl_rate = sf_rate f, pl_channels = c, pl_format = f, pl_encoding = PcmInt, pl_resampler = None,
    pl_buf = []\<rparr> :: 'a player"
  have "sample_size f = 2" using f(1) by (simp add: sample_size_def)
  then have fs: "fsize s = unat (sf_channels f) * 2"
    using f(2,3) s(2) by (simp add: fsize_def frame_size_def unat_mult_lem [THEN iffD1])
  have "0 < unat c" using f(2) by simp
  then have p: "pl_channels ?p \<noteq> 0" "n = length data div unat (pl_channels ?p)" "pl_rate ?p \<noteq> 0" "\<not> format_changed ?p s"
    using n(1) s by (auto simp: stream_ok_def chunks_ok_def format_changed_def)
  obtain buf s' where call: "player_callback rub now diff delay vol data ?p s =
      Some (apply_volume vol (write_samples_to_output data buf f PcmInt), ?p\<lparr>pl_buf := buf\<rparr>, s')"
    "length buf = n * fsize s"
    by (rule callback_direct [OF s(1) _ p(1,3,4,2) n(2,3), where rub = rub and now = now and diff = diff and
        delay = delay and vol = vol]) (simp_all add: s(2,3))
  define xs where "xs = samples_to_f32 buf f PcmInt"
  have xs: "length xs = n * unat (sf_channels f)"
    using f(1) by (simp add: xs_def samples_to_f32_def scale_samples_def length_chunks_of call(2) fs)
  note call(1)
  moreover have "n * unat (sf_channels f) \<le> n * unat c" using f(2) by simp
  then have "write_samples_to_output data buf f PcmInt =
      xs @ replicate (n * (unat c - unat (sf_channels f))) (FNum 0)"
    by (simp add: write_samples_eq Let_def xs_def [symmetric] xs n(1) diff_mult_distrib2)
  ultimately show ?thesis using player_start_fallback [OF d, of rub PcmInt] xs
    by (simp add: volume_append volume_of_silence xs_def)
qed

subsection \<open>What is heard\<close>

lemma chunks_of_zeros: "0 < k \<Longrightarrow> chunks_of k (replicate (m * k) z @ xs) = replicate m (replicate k z) @ chunks_of k xs"
  by (induction m) (simp_all add: chunks_of_append replicate_add)

text \<open>The samples of a format are cut and converted one by one, and zero bytes are silence.\<close>

definition playable :: "sample_format \<Rightarrow> sample_encoding \<Rightarrow> bool" where
  "playable f encoding \<longleftrightarrow>
     sf_bits f \<in> {16, 24, 32} \<and> (encoding = Float32 \<longrightarrow> sf_bits f = 32) \<and> unat (sf_channels f) < 2 ^ 14"

lemma playable_sizes:
  assumes "playable f encoding"
  shows "unat (frame_size f) = unat (sf_channels f) * unat (sample_size f)" "0 < unat (sample_size f)"
proof -
  have k: "unat (sample_size f) \<in> {2, 4}" using assms by (auto simp: playable_def sample_size_def)
  then have "unat (sf_channels f) * unat (sample_size f) < 2 ^ 16" using assms by (auto simp: playable_def)
  then show "unat (frame_size f) = unat (sf_channels f) * unat (sample_size f)"
    by (simp add: frame_size_def unat_mult_lem [THEN iffD1])
  show "0 < unat (sample_size f)" using k by auto
qed

lemma zero_sample: "f32_of_bits 0 = FNum 0" "f32_div (f32_of_int 0) (f32_of_int 32767) = FNum 0"
  "f32_div (f32_of_int 0) (f32_of_int 2147483647) = FNum 0" "f32_div (f32_of_int 0) PCM_24BIT_MAX = FNum 0"
  by (simp_all add: f32_of_bits_def f32_max PCM_24BIT_MAX_def) (simp_all add: f32_of_int_def f32_round_def)

lemma le_dec_zeros [simp]: "le_dec (replicate k 0) = 0" "int_of_le (replicate k 0) = 0"
proof -
  show "le_dec (replicate k 0) = 0" by (induction k) simp_all
  then show "int_of_le (replicate k 0) = 0" by (simp add: int_of_le_def)
qed

lemma samples_one_by_one:
  assumes "playable f encoding"
  shows "\<exists>conv. (\<forall>data. samples_to_f32 data f encoding = List.map conv (chunks_of (unat (sample_size f)) data)) \<and>
    conv (replicate (unat (sample_size f)) 0) = FNum 0"
proof (cases encoding)
  case Float32
  then have "sample_size f = 4" using assms by (auto simp: playable_def sample_size_def)
  then show ?thesis
    by (intro exI [of _ "\<lambda>c. f32_of_bits (le_dec c)"]) (simp add: Float32 samples_to_f32_def zero_sample)
next
  case PcmInt
  consider "sf_bits f = 16" | "sf_bits f = 24" | "sf_bits f = 32" using assms by (auto simp: playable_def)
  then obtain full where "\<And>data. samples_to_f32 data f encoding = scale_samples (unat (sample_size f)) full data"
    "f32_div (f32_of_int 0) full = FNum 0"
  proof cases
    case 1
    then show thesis
      by (intro that [of "f32_of_int 32767"]) (simp_all add: PcmInt samples_to_f32_def sample_size_def zero_sample)
  next
    case 2
    then show thesis
      by (intro that [of PCM_24BIT_MAX]) (simp_all add: PcmInt samples_to_f32_def sample_size_def zero_sample)
  next
    case 3
    then show thesis
      by (intro that [of "f32_of_int 2147483647"]) (simp_all add: PcmInt samples_to_f32_def sample_size_def zero_sample)
  qed
  then show ?thesis
    by (intro exI [of _ "\<lambda>c. f32_div (f32_of_int (int_of_le c)) full"]) (simp add: scale_samples_def)
qed

lemma samples_after_silence:
  assumes "playable f encoding"
  shows "samples_to_f32 (replicate (m * unat (frame_size f)) 0 @ data) f encoding =
    replicate (m * unat (sf_channels f)) (FNum 0) @ samples_to_f32 data f encoding"
proof -
  obtain conv where "\<forall>data. samples_to_f32 data f encoding = List.map conv (chunks_of (unat (sample_size f)) data)"
    "conv (replicate (unat (sample_size f)) 0) = FNum 0"
    using samples_one_by_one [OF assms] by blast
  then show ?thesis
    using playable_sizes [OF assms] by (simp add: chunks_of_zeros map_replicate_const mult.assoc [symmetric])
qed

lemma length_samples:
  assumes "playable f encoding" "length data = m * unat (frame_size f)"
  shows "length (samples_to_f32 data f encoding) = m * unat (sf_channels f)"
proof -
  obtain conv where "\<forall>data. samples_to_f32 data f encoding = List.map conv (chunks_of (unat (sample_size f)) data)"
    using samples_one_by_one [OF assms(1)] by blast
  then show ?thesis
    using playable_sizes [OF assms(1)] assms(2) by (simp add: length_chunks_of mult.assoc [symmetric])
qed

lemma wrap_i64_add: "wrap_i64 (wrap_i64 x + y) = wrap_i64 (x + y)" "wrap_i64 (x + wrap_i64 y) = wrap_i64 (x + y)"
  using wrap_i64_id [OF wrap_i64_range] signed_take_bit_add [of 63 "wrap_i64 x" y]
    signed_take_bit_add [of 63 x y] signed_take_bit_add [of 63 x "wrap_i64 y"]
  by (simp_all add: wrap_i64_def)

text \<open>The age of the first chunk in terms of when the first frame of the device's buffer sounds, \<open>lead\<close> microseconds
  before the chunk is due.\<close>

lemma age_of_lead:
  assumes "lead = start + sb_buffer_ms s * 1000 - (now + diff + delay)"
    and "int n * 1000000 div uint rate \<le> lead" "uint rate * (lead - int n * 1000000 div uint rate) < int n * 1000000"
    and "rate \<noteq> 0" "n \<le> 2 ^ 30"
  shows "chunk_age s (wrap_i64 (now + diff)) (wrap_i64 (delay + wrap_i64 (int n * 1000000) sdiv uint rate)) start =
    - (lead - int n * 1000000 div uint rate)"
proof -
  let ?b = "int n * 1000000 div uint rate"
  have r: "1 \<le> uint rate" using assms(4) by (simp add: uint_0_iff le_less [THEN iffD1, OF uint_ge_0] less_le int_one_le_iff_zero_less)
  have n: "int n \<le> 2 ^ 30" using assms(5) by simp
  have d: "wrap_i64 (int n * 1000000) sdiv uint rate = ?b"
    using n r by (simp add: in_i64_def signed_divide_int_def sgn_if)
  have "lead - ?b \<le> uint rate * (lead - ?b)" using r assms(2) by (simp add: mult_le_cancel_right1)
  then have small: "in_i64 (- (lead - ?b))" using assms(2,3) n by (simp add: in_i64_def)
  have "chunk_age s (wrap_i64 (now + diff)) (wrap_i64 (delay + ?b)) start =
      wrap_i64 (wrap_i64 (now + diff) + (wrap_i64 (delay + ?b) + (- start - sb_buffer_ms s * 1000)))"
    by (simp add: chunk_age_def algebra_simps)
  also have "\<dots> = wrap_i64 ((now + diff) + ((delay + ?b) + (- start - sb_buffer_ms s * 1000)))"
    by (metis wrap_i64_add)
  also have "(now + diff) + ((delay + ?b) + (- start - sb_buffer_ms s * 1000)) = - (lead - ?b)"
    by (simp add: assms(1))
  finally show ?thesis unfolding d using small by simp
qed

text \<open>C19: On a device that takes the stream's rate and channels, with enough audio of 16, 24 or 32 bits waiting, the first audio after a start or an interruption
  sounds one device buffer early.  The first frame of the buffer that a callback fills sounds \<open>delay\<close> after the callback
  (cpal's playback instant), and frame \<open>i\<close> a further \<open>i\<close> frames later, but the callback takes the audio to sound
  later by the whole buffer.  When the pending chunk is due \<open>lead\<close> microseconds after the buffer's first frame, at
  least one buffer and less than two, the callback gives the whole frames of silence that fit into \<open>lead\<close> less the
  buffer, and then the samples of the stream, converted and at the volume.  The chunk is heard before it is due by the
  duration of the buffer and less than one frame more; the stream is no longer in hard sync.\<close>

theorem audio_heard_buffer_early:
  assumes p: "pl_resampler p = None" "\<not> format_changed p s" "pl_rate p = sf_rate f" "pl_channels p = sf_channels f"
    and s: "stream_ok s" "sb_current s = Some c" "\<not> is_end c" "sb_hard_sync s"
    and f: "f = sb_format s" "playable f (sb_encoding s)"
    and n: "length data = n * unat (sf_channels f)" "0 < n" "n \<le> 2 ^ 30"
    and buffer: "buffer = int n * 1000000 div uint (sf_rate f)"
    and lead: "lead = start_usec c + sb_buffer_ms s * 1000 - (now + diff + delay)"
      "buffer \<le> lead" "uint (sf_rate f) * (lead - buffer) < int n * 1000000"
    and silent: "silent = nat (uint (sf_rate f) * (lead - buffer) div 1000000)"
    and pending: "(n - silent) * fsize s \<le> length (stream_pending s)"
  shows "\<exists>p' s'. player_callback rub now diff delay vol data p s =
      Some (replicate (silent * unat (sf_channels f)) (FNum 0) @
            apply_volume vol (samples_to_f32 (take ((n - silent) * fsize s) (stream_pending s)) f (sb_encoding s)), p', s') \<and>
    uint (sf_rate f) * buffer \<le> uint (sf_rate f) * lead - int silent * 1000000 \<and>
    uint (sf_rate f) * lead - int silent * 1000000 < uint (sf_rate f) * buffer + 1000000 \<and>
    \<not> sb_hard_sync s' \<and> stream_pending s' = drop ((n - silent) * fsize s) (stream_pending s)"
proof -
  define w where "w = (n - silent) * fsize s"
  define dac where "dac = wrap_i64 (delay + wrap_i64 (int n * 1000000) sdiv uint (sf_rate f))"
  define a where "a = lead - buffer"
  have w: "w = min ((n - silent) * fsize s) (length (stream_pending s))" using pending by (simp add: w_def)
  have fs: "fsize s \<noteq> 0" "sf_rate f \<noteq> 0" "sf_channels f \<noteq> 0" "fsize s = unat (frame_size f)"
    using s(1) f(1) by (auto simp: stream_ok_def chunks_ok_def fsize_def frame_size_def)
  have a: "a = - chunk_age s (wrap_i64 (now + diff)) dac (start_usec c)" "0 \<le> a" "uint (sf_rate f) * a < int n * 1000000"
    using age_of_lead [of lead "start_usec c" s now diff delay n "sf_rate f"] lead fs(2) n(3)
    by (simp_all add: a_def dac_def buffer)
  have sil: "int silent = uint (sf_rate f) * a div 1000000"
    using a(2) by (simp add: silent a_def [symmetric] pos_imp_zdiv_nonneg_iff)
  have early: "int silent * 1000000 \<le> uint (sf_rate f) * a" "uint (sf_rate f) * a < int silent * 1000000 + 1000000"
    using div_mult_mod_eq [of "uint (sf_rate f) * a" 1000000] pos_mod_bound [of 1000000 "uint (sf_rate f) * a"]
    unfolding sil by simp_all
  have "uint (sf_rate f) * a div 1000000 < int n" using a(3) by (simp add: div_less_iff_less_mult)
  then have lt: "silent < n" using sil by linarith
  have nch: "length data div unat (sf_channels f) = n" using n(1) fs(3) by (simp add: unat_gt_0)
  let ?out = "resize_buf (n * fsize s) (pl_buf p)"
  let ?buf = "replicate (silent * fsize s) 0 @ take w (stream_pending s)"
  have "drop (silent * fsize s + w) ?out = []" using lt by (simp add: w_def flip: add_mult_distrib)
  then obtain s' where g: "get_player_chunk s (wrap_i64 (now + diff)) dac ?out n = Some (s', ?buf, True)"
    and s': "\<not> sb_hard_sync s'" "stream_pending s' = drop w (stream_pending s)"
    using hard_sync_starts_on_time [OF s n(3) _ a(1,2) _ _ w, of ?out] a(3) silent f(1) by (auto simp: a_def)
  have "player_callback rub now diff delay vol data p s =
      Some (apply_volume vol (write_samples_to_output data ?buf f (sb_encoding s)), p\<lparr>pl_buf := ?buf\<rparr>, s')"
    using p g n(3) fs nch f(1)
    by (simp add: player_callback_def format_changed_def Let_def fsize_def dac_def get_player_chunk_or_silence_def)
  moreover have len: "length ?buf = n * unat (frame_size f)"
    using pending lt by (simp add: w_def fs(4) [symmetric] flip: add_mult_distrib)
  have "write_samples_to_output data ?buf f (sb_encoding s) = samples_to_f32 ?buf f (sb_encoding s)"
    using length_samples [OF f(2) len] n(1) by (simp add: write_samples_eq Let_def)
  moreover have "samples_to_f32 ?buf f (sb_encoding s) = replicate (silent * unat (sf_channels f)) (FNum 0) @
      samples_to_f32 (take w (stream_pending s)) f (sb_encoding s)"
    using samples_after_silence [OF f(2)] by (simp add: fs(4))
  moreover have "uint (sf_rate f) * lead = uint (sf_rate f) * a + uint (sf_rate f) * buffer"
    by (simp add: a_def algebra_simps)
  ultimately show ?thesis using s' early by (simp add: volume_append volume_of_silence w_def)
qed

subsection \<open>A converter that wants chunks of another size\<close>

text \<open>When the rates divide, the doubles lose nothing.\<close>

lemma input_frames_exact:
  assumes "n * unat rate = m * unat device_rate" "n * unat rate < 2 ^ 53" "device_rate \<noteq> 0" "n < 2 ^ 53"
  shows "input_frames rate device_rate n = m"
proof -
  have d: "0 < unat device_rate" using assms(3) by (simp add: unat_gt_0)
  have "uint rate < 2 ^ 32" "uint device_rate < 2 ^ 32" using uint_bounded [of rate] uint_bounded [of device_rate] by simp_all
  then have c: "f64_of_int (int n) = FNum (of_nat n)" "f64_of_int (uint rate) = FNum (of_nat (unat rate))"
    "f64_of_int (uint device_rate) = FNum (of_nat (unat device_rate))"
    using assms(4) f64_of_int_exact [of "int n"] f64_of_int_exact [of "uint rate"] f64_of_int_exact [of "uint device_rate"]
    by simp_all
  have z: "unsigned device_rate \<noteq> (0 :: rat)" using assms(3) by (simp add: unsigned_eq_0_iff)
  have "m \<le> m * unat device_rate" using d by (cases "unat device_rate") simp_all
  then have m: "m < 2 ^ 53" using assms(1,2) by linarith
  have "int (n * unat rate) < int (2 ^ 53)" using assms(2) by (simp only: of_nat_less_iff)
  then have "f64_of_int (int (n * unat rate)) = FNum (of_nat (n * unat rate))"
    using f64_of_int_exact [of "int (n * unat rate)"] by simp
  then have "f64_round (of_nat n * of_nat (unat rate)) = FNum (of_nat (m * unat device_rate))"
    by (simp add: f64_of_int_def flip: assms(1))
  moreover have "f64_round (of_nat m) = FNum (of_nat m)"
    using f64_of_int_exact [of "int m"] m by (simp add: f64_of_int_def)
  ultimately show ?thesis
    using z m by (simp add: input_frames_def c f64_ceil_def clamp_int_def trunc_rat_def)
qed

lemma length_split_channels:
  assumes "length data = m * unat (frame_size f)" "frame_size f \<noteq> 0" "x \<in> set (split_channels f encoding k data)"
  shows "length x = m"
proof -
  have "0 < unat (frame_size f)" using assms(2) by (simp add: unat_gt_0)
  then show ?thesis using assms(1,3) by (auto simp: split_channels_def Let_def length_chunks_of)
qed

text \<open>The converter is made for chunks of 20 ms, and one that refuses chunks of another size, as
  rubato's fixed-input converters do, is asked for what the device's buffer needs.  Unless the two agree the
  callback plays silence, although it takes the audio from the stream; of the player it changes the
  buffer only, so that nothing is kept to make up a chunk of the right size.\<close>

lemma resampler_size_mismatch:
  assumes p: "player_start rub (Some d) f encoding = Inr p" "pl_resampler p = Some r"
    and rub: "\<And>st chans. \<exists>x\<in>set chans. length x \<noteq> unat (sf_rate f) div 50 \<Longrightarrow> \<exists>e. rub_process rub st chans = (st, Inl e)"
    and s: "stream_ok s" "sb_format s = f" "sb_encoding s = encoding"
    and m: "m = input_frames (sf_rate f) (pl_rate p) (length data div unat (pl_channels p))"
      "0 < m" "m \<le> 2 ^ 30" "m \<noteq> unat (sf_rate f) div 50"
    and dev: "pl_channels p \<noteq> 0" "pl_rate p \<noteq> 0"
  shows "\<exists>p' s' buf. player_callback rub now diff delay vol data p s = Some (silence data, p', s') \<and>
    p' = p\<lparr>pl_buf := buf\<rparr> \<and> stream_ok s'"
proof -
  define n where "n = length data div unat (pl_channels p)"
  define dac where "dac = wrap_i64 (delay + wrap_i64 (int n * 1000000) sdiv uint (pl_rate p))"
  have pf: "pl_format p = f" "pl_encoding p = encoding" "rs_in r = f" "rs_channels r = unat (sf_channels f)"
    "sf_channels f \<noteq> 0"
    using p by (auto simp: player_start_def resampler_new_def split: sum.splits prod.splits if_splits)
  obtain s' buf played where g: "get_player_chunk_or_silence s (wrap_i64 (now + diff)) dac
      (resize_buf (m * fsize s) (pl_buf p)) m = Some (s', buf, played)" "stream_ok s'" "length buf = m * fsize s"
    by (rule get_player_chunk_or_silence_ok [OF s(1) m(2,3),
          where now = "wrap_i64 (now + diff)" and dac = dac and out = "resize_buf (m * fsize s) (pl_buf p)"]) simp_all
  have fs: "fsize s \<noteq> 0" "frame_size f \<noteq> 0" "sample_size f \<noteq> 0"
    using s(1,2) by (auto simp: stream_ok_def chunks_ok_def fsize_def frame_size_def)
  let ?chans = "split_channels f (rs_encoding r) (unat (sf_channels f)) buf"
  have "0 < unat (sf_channels f)" using pf(5) by (simp add: unat_gt_0)
  then have "?chans ! 0 \<in> set ?chans" by (intro nth_mem) (simp add: split_channels_def Let_def)
  moreover then have "length (?chans ! 0) = m"
    using length_split_channels [of buf m f] g(3) fs(2) s(2) by (simp add: fsize_def)
  ultimately obtain e where e: "rub_process rub (rs_state r) ?chans = (rs_state r, Inl e)" using rub m(4) by blast
  have "resampler_process rub buf r = Some (Inl e, buf, r)"
    using fs e by (simp add: resampler_process_def pf)
  with g fs m(1,3) dev p(2) s(2,3) pf have "player_callback rub now diff delay vol data p s =
      Some (silence data, p\<lparr>pl_buf := buf, pl_resampler := Some r\<rparr>, s')"
    by (simp add: player_callback_def Let_def fsize_def n_def [symmetric] dac_def [symmetric])
  moreover have "p\<lparr>pl_buf := buf, pl_resampler := Some r\<rparr> = p\<lparr>pl_buf := buf\<rparr>" using p(2) by (cases p) simp
  ultimately show ?thesis using g(2) by auto
qed

subsection \<open>Examples\<close>

definition demo_player :: "nat player" where
  "demo_player = \<lparr>pl_rate = 48000, pl_channels = 1, pl_format = demo_format, pl_encoding = PcmInt,
     pl_resampler = None, pl_buf = []\<rparr>"

text \<open>A converter for chunks of one size, which is its state, that gives back what it gets.\<close>

definition demo_rubato :: "nat rubato" where
  "demo_rubato = \<lparr>rub_make = \<lambda>_ _ frames _ _. Inr frames,
     rub_process = \<lambda>st chans. (st, if chans = [] \<or> (\<exists>x\<in>set chans. length x \<noteq> 960) then Inl ''wrong size'' else Inr chans)\<rparr>"

definition demo_device :: "u32 \<Rightarrow> audio_device" where
  "demo_device rate = \<lparr>ad_supported = Inr [\<lparr>dc_channels = 2, dc_min_rate = 8000, dc_max_rate = 192000\<rparr>],
     ad_default = Inr (rate, 2)\<rparr>"

lemma demo_stream_fields: "sb_format demo_stream = demo_format" "sb_encoding demo_stream = PcmInt"
  by (simp_all add: demo_stream_def sb_new_def sb_with_encoding_def)

lemma playback_never_stops_witness:
  "\<exists>p s out p' s'. reach (playback_init demo_rubato (demo_device 48000)) (playback_step demo_rubato (demo_device 48000)) (p, s) \<and>
    sb_chunks s = [demo_pcm [1, 2, 3, 4]] \<and>
    player_callback demo_rubato 7 0 0 \<lparr>vs_percent = 50, vs_muted = True\<rparr> [FNum 1, FNum 1] p s = Some (out, p', s') \<and>
    out = [FNum 0, FNum 0]"
proof -
  let ?s = "sb_with_encoding demo_format PcmInt"
  obtain p where p: "player_start demo_rubato (Some (demo_device 48000)) demo_format PcmInt = Inr p"
    "player_ready p" "device_buffer_ok p [FNum 1, FNum 1]" "pl_resampler p = None"
    by (simp add: player_start_def select_config_def demo_device_def demo_format_def sf_new_def resampler_new_def
        player_ready_def device_buffer_ok_def)
  have f: "0 < unat (frame_size demo_format)" "sf_rate demo_format \<noteq> 0"
    by (simp add: demo_fsize) (simp add: demo_format_def sf_new_def)
  have "playback_init demo_rubato (demo_device 48000) (p, ?s)" using p(1,2) f by (auto simp: playback_init_def)
  moreover have "chunk_ok (sb_format ?s) (demo_pcm [1, 2, 3, 4])"
    by (simp add: chunk_ok_def demo_pcm_def pc_new_def pc_new_with_encoding_def chunk_rest_def sb_with_encoding_def demo_fsize)
  ultimately have r: "reach (playback_init demo_rubato (demo_device 48000)) (playback_step demo_rubato (demo_device 48000))
      (p, add_chunk (demo_pcm [1, 2, 3, 4]) ?s)"
    by (blast intro: reach.intros playback_step.intros)
  have "rubato_ok demo_rubato" by (auto simp: rubato_ok_def demo_rubato_def split: if_splits)
  then obtain out p' s' where call: "player_callback demo_rubato 7 0 0 \<lparr>vs_percent = 50, vs_muted = True\<rparr> [FNum 1, FNum 1] p
      (add_chunk (demo_pcm [1, 2, 3, 4]) ?s) = Some (out, p', s')" "out = silence [FNum 1, FNum 1]"
    using playback_never_stops [OF _ r p(3), of 7 0 0 "\<lparr>vs_percent = 50, vs_muted = True\<rparr>"] p(4)
    by (auto simp: add_chunk_def sb_with_encoding_def)
  have "sb_chunks (add_chunk (demo_pcm [1, 2, 3, 4]) ?s) = [demo_pcm [1, 2, 3, 4]]"
    by (simp add: add_chunk_def sb_with_encoding_def)
  with r call(1) show ?thesis using call(2) unfolding silence_def by (intro exI conjI) (assumption | simp)+
qed

text \<open>The demonstration stream is due 133 microseconds after the device's buffer begins, which lasts 83: after two frames
  of silence, 42 microseconds, its audio begins, 91 microseconds early.\<close>

lemma audio_heard_buffer_early_witness:
  "\<exists>p' s'. player_callback demo_rubato 999867 0 0 volume_state_new (replicate 4 (FNum 1)) demo_player demo_stream =
      Some ([FNum 0, FNum 0] @ samples_to_f32 [1, 2, 3, 4] demo_format PcmInt, p', s') \<and>
    stream_pending s' = [5, 6, 7, 8, 9, 10]"
proof -
  have start: "start_usec (demo_pcm [1, 2, 3, 4]) + sb_buffer_ms demo_stream * 1000 = 1000000"
    by (simp add: demo_stream_def sb_new_def sb_with_encoding_def demo_pcm_def pc_new_def
        pc_new_with_encoding_def demo_format_def sf_new_def start_usec_def tv_zero_def to_usec_def)
  have n: "length (replicate 4 (FNum 1)) = 4 * unat (sf_channels demo_format)"
    by (simp add: demo_format_def sf_new_def)
  have "\<exists>p' s'. player_callback demo_rubato 999867 0 0 volume_state_new (replicate 4 (FNum 1)) demo_player demo_stream =
      Some (replicate (2 * unat (sf_channels demo_format)) (FNum 0) @ apply_volume volume_state_new
        (samples_to_f32 (take ((4 - 2) * fsize demo_stream) (stream_pending demo_stream)) demo_format
          (sb_encoding demo_stream)), p', s') \<and>
    uint (sf_rate demo_format) * 83 \<le> uint (sf_rate demo_format) * 133 - int 2 * 1000000 \<and>
    uint (sf_rate demo_format) * 133 - int 2 * 1000000 < uint (sf_rate demo_format) * 83 + 1000000 \<and>
    \<not> sb_hard_sync s' \<and> stream_pending s' = drop ((4 - 2) * fsize demo_stream) (stream_pending demo_stream)"
    by (rule audio_heard_buffer_early [where f = demo_format and n = 4 and lead = 133 and c = "demo_pcm [1, 2, 3, 4]",
          OF _ _ _ _ demo_sync_ok demo_stream_current demo_parts(2,1) _ _ n])
      (simp_all add: demo_player_def demo_stream_fields format_changed_def demo_format_def sf_new_def playable_def
        demo_stream_fsize demo_stream_pending start)
  moreover have "\<not> f64_less (gain volume_state_new) (FNum 1)"
    by (simp add: gain_def volume_state_new_def f32_of_int_exact f32_round_int [of 1, simplified])
  ultimately show ?thesis
    by (auto simp: apply_volume_def demo_stream_fsize demo_stream_pending demo_stream_fields demo_format_def sf_new_def
        numeral_2_eq_2)
qed

lemma channels_not_mapped_witness:
  "\<exists>p out p' s' x. player_start demo_rubato (Some (demo_device 48000)) demo_format PcmInt = Inr p \<and>
    player_callback demo_rubato 7 0 0 volume_state_new [FNum 1, FNum 1] p demo_stream = Some (out, p', s') \<and>
    samples_to_f32 (pl_buf p') demo_format PcmInt = [x] \<and> out = apply_volume volume_state_new [x] @ [FNum 0]"
  using channels_not_mapped [where d = "demo_device 48000" and f = demo_format and c = 2 and n = 1 and s = demo_stream
      and data = "[FNum 1, FNum 1]" and rub = demo_rubato and now = 7 and diff = 0 and delay = 0 and vol = volume_state_new]
  by (auto simp: demo_device_def demo_sync_ok demo_stream_fields demo_format_def sf_new_def length_Suc_conv)

lemma demo_input_frames: "input_frames 48000 96000 4 = 2"
  using input_frames_exact [of 4 48000 2 96000] by simp

lemma resampler_size_mismatch_witness:
  "\<exists>p p' s' buf. player_start demo_rubato (Some (demo_device 96000)) demo_format PcmInt = Inr p \<and>
    player_callback demo_rubato 7 0 0 volume_state_new (replicate 8 (FNum 1)) p demo_stream =
      Some (replicate 8 (FNum 0), p', s') \<and> p' = p\<lparr>pl_buf := buf\<rparr>"
proof -
  obtain p r where p: "player_start demo_rubato (Some (demo_device 96000)) demo_format PcmInt = Inr p"
    "pl_resampler p = Some r" "pl_rate p = 96000" "pl_channels p = 2"
    by (simp add: player_start_def select_config_def demo_device_def demo_format_def sf_new_def resampler_new_def
        demo_rubato_def)
  have "\<exists>p' s' buf. player_callback demo_rubato 7 0 0 volume_state_new (replicate 8 (FNum 1)) p demo_stream =
      Some (silence (replicate 8 (FNum 1)), p', s') \<and> p' = p\<lparr>pl_buf := buf\<rparr> \<and> stream_ok s'"
    by (rule resampler_size_mismatch [OF p(1,2) _ demo_sync_ok demo_stream_fields, of 2])
      (simp_all add: p demo_input_frames demo_rubato_def demo_format_def sf_new_def)
  with p(1) show ?thesis by (auto simp: silence_def)
qed

end
