(* ===== verification/Uri.thy ===== *)
theory Uri
  imports Strings
begin

text \<open>
  The URIs of stream sources, \<open>snapserver-rs/src/stream/uri.rs\<close>: scheme, endpoint or path, and query.  The
  query is the map that the inserts leave, the last value of a key in force.  Of the standard library's
  \<open>Ipv6Addr::from_str\<close> only the acceptance matters; its parser is written out.
\<close>

subsection \<open>IPv6 addresses as the standard library reads them\<close>

definition read_hex :: "char \<Rightarrow> nat option" where
  "read_hex c =
     (let n = of_char c in
      if 48 \<le> n \<and> n \<le> 57 then Some (n - 48)
      else if 97 \<le> n \<and> n \<le> 102 then Some (n - 87)
      else if 65 \<le> n \<and> n \<le> 70 then Some (n - 55)
      else None)"

text \<open>One to four hexadecimal digits, more are refused; one to three decimal ones below 256 without a leading zero.\<close>

definition read_group :: "string \<Rightarrow> string option" where
  "read_group s =
     (let d = takeWhile (\<lambda>c. read_hex c \<noteq> None) s in
      if d = [] \<or> 4 < length d then None else Some (drop (length d) s))"

definition read_octet :: "string \<Rightarrow> string option" where
  "read_octet s =
     (let d = takeWhile (\<lambda>c. to_digit c \<noteq> None) s in
      if d = [] \<or> 3 < length d \<or> (1 < length d \<and> hd d = CHR ''0'') then None
      else (case parse_digits 255 0 d of Inl _ \<Rightarrow> None | Inr _ \<Rightarrow> Some (drop (length d) s)))"

definition read_char :: "char \<Rightarrow> string \<Rightarrow> string option" where
  "read_char c s = (case s of [] \<Rightarrow> None | x # xs \<Rightarrow> if x = c then Some xs else None)"

definition read_ipv4 :: "string \<Rightarrow> string option" where
  "read_ipv4 s =
     Option.bind (read_octet s) (\<lambda>s. Option.bind (Option.bind (read_char CHR ''.'' s) read_octet) (\<lambda>s.
       Option.bind (Option.bind (read_char CHR ''.'' s) read_octet) (\<lambda>s.
         Option.bind (read_char CHR ''.'' s) read_octet)))"

text \<open>Groups up to a limit: how many were read, whether they ended in an IPv4 address, and the rest.\<close>

fun read_groups :: "nat \<Rightarrow> nat \<Rightarrow> string \<Rightarrow> nat \<times> bool \<times> string" where
  "read_groups 0 i s = (i, False, s)"
| "read_groups (Suc n) i s =
     (let at = (if 0 < i then read_char CHR '':'' s else Some s) in
      case (if 0 < n then Option.bind at read_ipv4 else None) of
        Some r \<Rightarrow> (i + 2, True, r)
      | None \<Rightarrow>
          (case Option.bind at read_group of
             None \<Rightarrow> (i, False, s)
           | Some r \<Rightarrow> read_groups n (i + 1) r))"

definition is_ipv6 :: "string \<Rightarrow> bool" where
  "is_ipv6 s =
     (let (n, v4, r) = read_groups 8 0 s in
      if n = 8 then r = []
      else if v4 then False
      else case Option.bind (read_char CHR '':'' r) (read_char CHR '':'') of
        None \<Rightarrow> False
      | Some r \<Rightarrow> snd (snd (read_groups (8 - (n + 1)) 0 r)) = [])"

subsection \<open>Percent-decoding\<close>

definition hex_val :: "char \<Rightarrow> nat" where
  "hex_val c = (case read_hex c of Some n \<Rightarrow> n | None \<Rightarrow> 0)"

text \<open>A byte pushed as a character: code points from 128 on take two bytes of UTF-8.\<close>

definition push_latin1 :: "nat \<Rightarrow> string" where
  "push_latin1 b = (if b < 128 then [char_of b] else [char_of (192 + b div 64), char_of (128 + b mod 64)])"

fun url_decode :: "string \<Rightarrow> string" where
  "url_decode [] = []"
| "url_decode (b # s) =
     (if b = CHR ''%'' then
        (case s of
           hi # lo # r \<Rightarrow> push_latin1 (hex_val hi * 16 + hex_val lo) @ url_decode r
         | [hi] \<Rightarrow> push_latin1 (hex_val hi * 16)
         | [] \<Rightarrow> push_latin1 0)
      else push_latin1 (of_char b) @ url_decode s)"

subsection \<open>Endpoints and URIs\<close>

definition parse_port :: "string \<Rightarrow> string + nat" where
  "parse_port s =
     (if s = [] then Inl ''missing TCP stream port''
      else case parse_unsigned (2 ^ 16 - 1) s of
        Inl _ \<Rightarrow> Inl (''invalid TCP stream port: '' @ s)
      | Inr n \<Rightarrow> Inr n)"

definition with_port :: "string \<Rightarrow> string \<Rightarrow> string + string \<times> nat" where
  "with_port host s = (case parse_port s of Inl e \<Rightarrow> Inl e | Inr n \<Rightarrow> Inr (host, n))"

definition parse_tcp_endpoint :: "string \<Rightarrow> string + string \<times> nat" where
  "parse_tcp_endpoint path_part =
     (let endpoint = trim_start_matches (\<lambda>c. c = CHR ''/'') path_part in
      case strip_prefix ''['' endpoint of
        Some stripped \<Rightarrow>
          (case split_once CHR '']'' stripped of
             None \<Rightarrow> Inl (''invalid TCP stream IPv6 endpoint, missing closing '' @ [CHR 0x27] @ '']'' @ [CHR 0x27])
           | Some (host, tail) \<Rightarrow>
               if host = [] then Inl ''missing TCP stream host''
               else if tail = [] then Inr (host, 4953)
               else (case strip_prefix '':'' tail of
                       None \<Rightarrow> Inl (''invalid TCP stream endpoint suffix: '' @ tail)
                     | Some port \<Rightarrow> with_port host port))
      | None \<Rightarrow>
          let colons = length (filter (\<lambda>c. c = CHR '':'') endpoint) in
          if colons = 1 then
            (case rsplit_once CHR '':'' endpoint of
               None \<Rightarrow> Inl []
             | Some (host, port) \<Rightarrow> if host = [] then Inl ''missing TCP stream host'' else with_port host port)
          else if colons = 0 \<or> is_ipv6 endpoint then Inr (endpoint, 4953)
          else Inl (''ambiguous IPv6 address with port '' @ from_bytes [0xE2, 0x80, 0x94] @
                 '' use bracket notation: tcp://['' @ endpoint @ '']:port''))"

record source_uri =
  ur_scheme :: string
  ur_host :: string
  ur_port :: nat
  ur_path :: string
  ur_query :: "string \<rightharpoonup> string"

fun insert_pairs :: "string list \<Rightarrow> (string \<rightharpoonup> string) \<Rightarrow> (string \<rightharpoonup> string)" where
  "insert_pairs [] q = q"
| "insert_pairs (pair # ps) q =
     insert_pairs ps (case split_once CHR ''='' pair of None \<Rightarrow> q | Some (k, v) \<Rightarrow> q(k \<mapsto> url_decode v))"

definition uri_parse :: "string \<Rightarrow> string + source_uri" where
  "uri_parse uri =
     (let uri = trim_matches (\<lambda>c. c = CHR 0x27 \<or> c = CHR 0x22) (trim uri) in
      case split_once_str ''://'' uri of
        None \<Rightarrow> Inl (''invalid stream URI: '' @ uri)
      | Some (scheme, rest) \<Rightarrow>
          let (path_part, query_str) = (case split_once CHR ''?'' rest of None \<Rightarrow> (rest, []) | Some p \<Rightarrow> p);
              query = insert_pairs (split_on CHR ''&'' query_str) (\<lambda>_. None) in
          (case (if scheme = ''tcp'' then map_sum id (\<lambda>(h, p). (h, p, [])) (parse_tcp_endpoint path_part)
                 else Inr ([], 0,
                   url_decode (case strip_prefix ''//'' path_part of None \<Rightarrow> path_part | Some p \<Rightarrow> p))) of
             Inl e \<Rightarrow> Inl e
           | Inr (host, port, path) \<Rightarrow>
               Inr \<lparr>ur_scheme = scheme, ur_host = host, ur_port = port, ur_path = path, ur_query = query\<rparr>))"

definition uri_param :: "string \<Rightarrow> source_uri \<Rightarrow> string option" where
  "uri_param key u = ur_query u key"

subsection \<open>Printing\<close>

text \<open>The URI of a source as a user writes it: everything outside a safe alphabet percent-encoded.\<close>

definition url_plain :: "char \<Rightarrow> bool" where
  "url_plain c \<longleftrightarrow>
     (let n = of_char c :: nat in
      48 \<le> n \<and> n \<le> 57 \<or> 65 \<le> n \<and> n \<le> 90 \<or> 97 \<le> n \<and> n \<le> 122 \<or> c \<in> set ''-._~/:'')"

definition hex_char :: "nat \<Rightarrow> char" where
  "hex_char n = char_of (if n < 10 then 48 + n else 55 + n)"

definition percent_char :: "char \<Rightarrow> string" where
  "percent_char c = (if url_plain c then [c] else [CHR ''%'', hex_char (of_char c div 16), hex_char (of_char c mod 16)])"

definition percent_encode :: "string \<Rightarrow> string" where
  "percent_encode s = concat (List.map percent_char s)"

fun print_query :: "(string \<times> string) list \<Rightarrow> string" where
  "print_query [] = []"
| "print_query [(k, v)] = k @ CHR ''='' # percent_encode v"
| "print_query ((k, v) # ps) = k @ CHR ''='' # percent_encode v @ CHR ''&'' # print_query ps"

definition print_uri :: "string \<Rightarrow> string \<Rightarrow> (string \<times> string) list \<Rightarrow> string" where
  "print_uri scheme path params = scheme @ ''://'' @ percent_encode path @ CHR ''?'' # print_query params"

definition uri_plain :: "string \<Rightarrow> bool" where
  "uri_plain s \<longleftrightarrow> (\<forall>c\<in>set s. url_plain c)"

text \<open>The UTF-8 of the text that has the bytes of \<open>s\<close> for its code points.\<close>

definition as_latin1 :: "string \<Rightarrow> string" where
  "as_latin1 s = concat (List.map (\<lambda>c. push_latin1 (of_char c)) s)"

lemma as_latin1_ascii: "\<forall>c\<in>set s. (of_char c :: nat) < 128 \<Longrightarrow> as_latin1 s = s"
  by (induction s) (simp_all add: as_latin1_def push_latin1_def)

lemma hex_val_char: "n < 16 \<Longrightarrow> hex_val (hex_char n) = n"
  by (simp add: hex_val_def hex_char_def read_hex_def Let_def)

lemma url_plain_ascii: "url_plain c \<Longrightarrow> (of_char c :: nat) < 128 \<and> c \<noteq> CHR ''%''"
  by (auto simp: url_plain_def Let_def)

lemma char_nibble: "(of_char c :: nat) div 16 < 16"
proof -
  have "of_char c mod (256 :: nat) < 256" by simp
  then have "(of_char c :: nat) < 256" by (simp only: of_char_mod_256)
  then show ?thesis by (simp add: div_less_iff_less_mult)
qed

lemma decode_percent_char: "url_decode (percent_char c @ s) = push_latin1 (of_char c) @ url_decode s"
  using url_plain_ascii [of c] char_nibble [of c] by (simp add: percent_char_def hex_val_char)

lemma decode_percent_encode: "url_decode (percent_encode s) = as_latin1 s"
  by (induction s) (simp_all add: percent_encode_def as_latin1_def decode_percent_char)

text \<open>What is encoded has none of the delimiters, and begins and ends with a visible character.\<close>

definition uri_safe :: "char \<Rightarrow> bool" where
  "uri_safe c \<longleftrightarrow> url_plain c \<or> c = CHR ''%''"

lemma hex_char_safe: "n < 16 \<Longrightarrow> url_plain (hex_char n)"
  by (simp add: hex_char_def url_plain_def Let_def)

lemma percent_encode_safe: "\<forall>c\<in>set (percent_encode s). uri_safe c"
  by (induction s) (auto simp: percent_encode_def percent_char_def uri_safe_def hex_char_safe char_nibble)

lemma safe_not [simp]: "\<not> uri_safe CHR ''?''" "\<not> uri_safe CHR ''&''" "\<not> uri_safe CHR ''=''" "\<not> uri_safe CHR 0x27" "\<not> uri_safe CHR 0x22"
  "\<not> url_plain CHR ''?''" "\<not> url_plain CHR ''&''" "\<not> url_plain CHR ''=''" "\<not> url_plain CHR 0x27" "\<not> url_plain CHR 0x22"
  by (simp_all add: uri_safe_def url_plain_def Let_def)

lemma plain_notin [simp]: "uri_plain s \<Longrightarrow> \<not> url_plain c \<Longrightarrow> c \<notin> set s"
  by (auto simp: uri_plain_def)

lemma encoded_notin [simp]: "\<not> uri_safe c \<Longrightarrow> c \<notin> set (percent_encode s)"
  using percent_encode_safe [of s] by blast

lemma url_plain_printable: "url_plain c \<Longrightarrow> printable c"
  by (auto simp: url_plain_def printable_def Let_def)

lemma safe_printable: "uri_safe c \<Longrightarrow> printable c"
  by (auto simp: uri_safe_def url_plain_printable) (simp add: printable_def)

definition params_ok :: "(string \<times> string) list \<Rightarrow> bool" where
  "params_ok ps \<longleftrightarrow> (\<forall>(k, v)\<in>set ps. uri_plain k)"

lemma insert_print_query:
  "params_ok ps \<Longrightarrow>
   insert_pairs (split_on CHR ''&'' (print_query ps)) q = q ++ (\<lambda>k. map_option as_latin1 (map_of (rev ps) k))"
proof (induction ps arbitrary: q rule: print_query.induct)
  case (2 k v)
  then show ?case
    by (simp add: params_ok_def split_on_whole decode_percent_encode map_add_def fun_eq_iff split: option.split)
next
  case (3 k v p ps)
  have "split_on CHR ''&'' ((k @ CHR ''='' # percent_encode v) @ CHR ''&'' # print_query (p # ps)) =
      (k @ CHR ''='' # percent_encode v) # split_on CHR ''&'' (print_query (p # ps))"
    using 3(2) by (intro split_on_append) (simp add: params_ok_def)
  with 3 show ?case by (simp add: params_ok_def decode_percent_encode map_add_def fun_eq_iff split: option.split)
qed (simp add: fun_eq_iff map_add_def)

lemma encoded_last: "percent_encode v \<noteq> [] \<Longrightarrow> uri_safe (last (percent_encode v))"
  using percent_encode_safe last_in_set by blast

lemma print_query_last:
  "ps \<noteq> [] \<Longrightarrow> print_query ps \<noteq> [] \<and> (uri_safe (last (print_query ps)) \<or> last (print_query ps) = CHR ''='')"
proof (induction ps rule: print_query.induct)
  case (2 k v)
  then show ?case using encoded_last by (cases "percent_encode v = []") simp_all
qed simp_all

lemma dropWhile_hd: "xs = [] \<or> \<not> P (hd xs) \<Longrightarrow> dropWhile P xs = xs"
  by (cases xs) auto

lemma trim_matches_id: "\<not> P (hd s) \<Longrightarrow> \<not> P (last s) \<Longrightarrow> trim_matches P s = s"
  by (simp add: trim_matches_def dropWhile_hd hd_rev)

lemma split_scheme: "CHR '':'' \<notin> set a \<Longrightarrow> split_once_str ''://'' (a @ ''://'' @ b) = Some (a, b)"
  by (induction a) auto

text \<open>C22: A stream URI of a scheme other than tcp, with keys of the safe alphabet and a path that does not begin with
  two slashes, is read back as its parts when path and values are percent-encoded, the last of several values of
  a key in force.  What is read back of an ASCII path or value is the text itself; of any other byte it is the character
  of Latin-1 with that number, so that a name in UTF-8 comes back mangled.\<close>

theorem uri_roundtrip:
  assumes "scheme \<noteq> []" "uri_plain scheme" "CHR '':'' \<notin> set scheme" "scheme \<noteq> ''tcp''"
    and "strip_prefix ''//'' path = None" "params_ok params"
  shows "uri_parse (print_uri scheme path params) =
    Inr \<lparr>ur_scheme = scheme, ur_host = [], ur_port = 0, ur_path = as_latin1 path,
      ur_query = (\<lambda>k. map_option as_latin1 (map_of (rev params) k))\<rparr> \<and>
    ((\<forall>c\<in>set s. (of_char c :: nat) < 128) \<longrightarrow> as_latin1 s = s)"
proof -
  let ?u = "print_uri scheme path params"
  have hd: "uri_safe (hd ?u)" using assms(1,2) by (cases scheme) (auto simp: print_uri_def uri_plain_def uri_safe_def)
  have last: "printable (last ?u)" "last ?u \<noteq> CHR 0x27" "last ?u \<noteq> CHR 0x22"
    using print_query_last [of params] safe_printable [of "last (print_query params)"]
    by (cases "params = []"; force simp: print_uri_def printable_def)+
  have u: "?u \<noteq> []" by (simp add: print_uri_def)
  have trim: "trim ?u = ?u" using u hd last(1) safe_printable by (intro trim_printable) auto
  have "hd ?u \<noteq> CHR 0x27" "hd ?u \<noteq> CHR 0x22" using hd by auto
  with u last(2,3) have quotes: "trim_matches (\<lambda>c. c = CHR 0x27 \<or> c = CHR 0x22) ?u = ?u"
    by (intro trim_matches_id) auto
  have "split_once_str ''://'' ?u = Some (scheme, percent_encode path @ CHR ''?'' # print_query params)"
    unfolding print_uri_def by (rule split_scheme) (rule assms(3))
  moreover have "split_once CHR ''?'' (percent_encode path @ CHR ''?'' # print_query params) =
      Some (percent_encode path, print_query params)" by simp
  moreover have "strip_prefix ''//'' (percent_encode path) = None"
    using assms(5)
    by (cases path; cases "tl path") (auto simp: percent_encode_def percent_char_def split: if_splits)
  ultimately have "uri_parse ?u = Inr \<lparr>ur_scheme = scheme, ur_host = [], ur_port = 0, ur_path = as_latin1 path,
      ur_query = (\<lambda>k. map_option as_latin1 (map_of (rev params) k))\<rparr>"
    unfolding uri_parse_def trim quotes Let_def
    using assms(4) by (simp add: insert_print_query [OF assms(6)] decode_percent_encode map_add_def)
  then show ?thesis using as_latin1_ascii [of s] by blast
qed

text \<open>The name in the second parameter is an e with an acute accent, two bytes of UTF-8, read back as four.\<close>

lemma uri_roundtrip_witness:
  "uri_parse ''pipe:///tmp/snap%20fifo?name=Living%20Room&mode=a&mode=%C3%A9'' =
    Inr \<lparr>ur_scheme = ''pipe'', ur_host = [], ur_port = 0, ur_path = ''/tmp/snap fifo'',
      ur_query = [''name'' \<mapsto> ''Living Room'', ''mode'' \<mapsto> [CHR 0xC3, CHR 0x83, CHR 0xC2, CHR 0xA9]]\<rparr>"
proof -
  let ?ps = "[(''name'', ''Living Room''), (''mode'', ''a''), (''mode'', [CHR 0xC3, CHR 0xA9])]"
  have "print_uri ''pipe'' ''/tmp/snap fifo'' ?ps = ''pipe:///tmp/snap%20fifo?name=Living%20Room&mode=a&mode=%C3%A9''"
    by code_simp
  moreover have "uri_parse (print_uri ''pipe'' ''/tmp/snap fifo'' ?ps) =
      Inr \<lparr>ur_scheme = ''pipe'', ur_host = [], ur_port = 0, ur_path = as_latin1 ''/tmp/snap fifo'',
        ur_query = (\<lambda>k. map_option as_latin1 (map_of (rev ?ps) k))\<rparr>"
    by (rule conjunct1 [OF uri_roundtrip [where s = "[]"]])
      (simp_all add: uri_plain_def url_plain_def params_ok_def Let_def)
  moreover have "as_latin1 ''/tmp/snap fifo'' = ''/tmp/snap fifo''" "as_latin1 ''Living Room'' = ''Living Room''"
    "as_latin1 [CHR 0xC3, CHR 0xA9] = [CHR 0xC3, CHR 0x83, CHR 0xC2, CHR 0xA9]" by code_simp+
  ultimately show ?thesis by (simp add: fun_eq_iff)
qed

text \<open>A byte that is not ASCII, encoded or not, comes out as two: names in UTF-8 are mangled.\<close>

lemma url_decode_mangles: "128 \<le> (of_char b :: nat) \<Longrightarrow> length (url_decode [b]) = 2"
  by (auto simp: push_latin1_def)

end
