(* ===== verification/FlacEncoder.thy ===== *)
theory FlacEncoder
  imports PcmCodec SampleFormat
begin

text \<open>
  The streaming FLAC encoder, \<open>snapcast-server/src/encoder/flac.rs\<close>: the parameters it accepts, the
  reading of PCM into samples, and the buffering of samples into blocks of fixed size.  The flacenc
  library is the record \<open>flac_libs\<close>: the check of its configuration, the header, the check of the stream
  parameters, and the encoding of one numbered block.  None is a panic or an endless loop.
\<close>

definition BLOCK_SIZE :: nat where "BLOCK_SIZE = 1152"

text \<open>What the compression level selects.\<close>

datatype flac_profile = DefaultProfile | FixedPredictors | LpcOrder nat

type_synonym flac_params = "nat \<times> nat \<times> nat"  \<comment> \<open>rate, channels, bits\<close>

record flac_libs =
  fl_verify :: "flac_profile \<Rightarrow> string option"
  fl_header :: "flac_params \<Rightarrow> nat \<Rightarrow> string + u8 list"
  fl_info :: "flac_params \<Rightarrow> string option"
  fl_frame :: "flac_profile \<Rightarrow> flac_params \<Rightarrow> int list \<Rightarrow> nat \<Rightarrow> string + u8 list"

record flac_encoder =
  fe_format :: sample_format
  fe_profile :: flac_profile
  fe_header :: "u8 list"
  fe_pending :: "int list"
  fe_number :: nat

definition flac_params_of :: "sample_format \<Rightarrow> flac_params" where
  "flac_params_of f = (unat (sf_rate f), unat (sf_channels f), unat (sf_bits f))"

definition em_dash :: string where
  "em_dash = from_bytes [0xE2, 0x80, 0x94]"

definition flac_level :: "string \<Rightarrow> string + nat option" where
  "flac_level options =
     (if options = [] then Inr None
      else case parse_unsigned (2 ^ 32 - 1) options of
        Inl _ \<Rightarrow> Inl (''invalid FLAC compression level: '' @ options)
      | Inr n \<Rightarrow>
          if 8 < n then Inl (''FLAC compression level must be 0-8, got '' @ show_nat n) else Inr (Some n))"

definition flac_profile_of :: "nat option \<Rightarrow> flac_profile" where
  "flac_profile_of level =
     (case level of
        None \<Rightarrow> DefaultProfile
      | Some n \<Rightarrow> if n = 0 then FixedPredictors else LpcOrder (min 24 (max 1 (n * 3))))"

definition flac_supported :: "sample_format \<Rightarrow> string option" where
  "flac_supported f =
     (if 24 < sf_bits f then
        Some (''FLAC (flacenc) supports up to 24-bit samples, got '' @ show_nat (unat (sf_bits f)) @ ''-bit '' @ em_dash
          @ '' use a 16- or 24-bit sample format, or a different codec'')
      else if 96000 < sf_rate f then
        Some (''FLAC (flacenc) supports sample rates up to 96 kHz, got '' @ show_nat (unat (sf_rate f)) @ '' Hz ''
          @ em_dash @ '' use a rate <= 96 kHz, or a different codec'')
      else if \<not> (1 \<le> sf_channels f \<and> sf_channels f \<le> 8) then
        Some (''FLAC (flacenc) supports 1-8 channels, got '' @ show_nat (unat (sf_channels f)))
      else None)"

definition flac_new :: "flac_libs \<Rightarrow> sample_format \<Rightarrow> string \<Rightarrow> string + flac_encoder" where
  "flac_new libs f options =
     (case flac_level options of
        Inl e \<Rightarrow> Inl e
      | Inr level \<Rightarrow>
          (let profile = flac_profile_of level in
           case fl_verify libs profile of
             Some e \<Rightarrow> Inl (''invalid FLAC encoder config: '' @ e)
           | None \<Rightarrow>
               (case flac_supported f of
                  Some e \<Rightarrow> Inl e
                | None \<Rightarrow>
                    (case fl_header libs (flac_params_of f) BLOCK_SIZE of
                       Inl e \<Rightarrow> Inl e
                     | Inr header \<Rightarrow>
                         (case fl_info libs (flac_params_of f) of
                            Some e \<Rightarrow> Inl (''FLAC stream info: '' @ e)
                          | None \<Rightarrow> Inr \<lparr>fe_format = f, fe_profile = profile, fe_header = header,
                              fe_pending = [], fe_number = 0\<rparr>)))))"

text \<open>The bytes are cut to whole frames; a sample size of zero divides by zero.\<close>

definition pcm_to_i32 :: "sample_format \<Rightarrow> u8 list \<Rightarrow> (string + int list) option" where
  "pcm_to_i32 f pcm =
     (let k = unat (sample_size f);
          frame = k * unat (sf_channels f);
          aligned = length pcm - length pcm mod max 1 frame in
      if k = 0 then None
      else if k = 2 \<or> k = 4 then Some (Inr (List.map int_of_le (chunks_of k (take aligned pcm))))
      else Some (Inl (''unsupported sample size: '' @ show_nat k)))"

partial_function (option) flac_loop ::
  "flac_libs \<Rightarrow> flac_encoder \<Rightarrow> u8 list \<Rightarrow> ((string + u8 list) \<times> flac_encoder) option" where
  "flac_loop libs e out =
     (let n = BLOCK_SIZE * unat (sf_channels (fe_format e)) in
      if length (fe_pending e) < n then Some (Inr out, e)
      else
        let block = take n (fe_pending e); e = e\<lparr>fe_pending := drop n (fe_pending e)\<rparr> in
        case fl_frame libs (fe_profile e) (flac_params_of (fe_format e)) block (fe_number e) of
          Inl err \<Rightarrow> Some (Inl err, e)
        | Inr bytes \<Rightarrow> flac_loop libs (e\<lparr>fe_number := (fe_number e + 1) mod 2 ^ 64\<rparr>) (out @ bytes))"

text \<open>\<open>encode\<close>: an error drops what the call had encoded before it.\<close>

definition flac_encode ::
  "flac_libs \<Rightarrow> u32 audio_data \<Rightarrow> flac_encoder \<Rightarrow> ((string + u8 list) \<times> flac_encoder) option" where
  "flac_encode libs input e =
     (case pcm_to_i32 (fe_format e) (pcm_encode (fe_format e) input) of
        None \<Rightarrow> None
      | Some (Inl err) \<Rightarrow> Some (Inl err, e)
      | Some (Inr samples) \<Rightarrow> flac_loop libs (e\<lparr>fe_pending := fe_pending e @ samples\<rparr>) [])"

subsection \<open>Blocks\<close>

text \<open>The library encodes each of the numbered blocks, the one at place \<open>i\<close> to \<open>ds ! i\<close>.\<close>

fun blocks_encode ::
  "flac_libs \<Rightarrow> flac_profile \<Rightarrow> flac_params \<Rightarrow> nat \<Rightarrow> int list list \<Rightarrow> u8 list list \<Rightarrow> bool" where
  "blocks_encode libs p q k [] ds \<longleftrightarrow> ds = []"
| "blocks_encode libs p q k (b # bs) ds \<longleftrightarrow>
     (\<exists>d es. ds = d # es \<and> fl_frame libs p q b k = Inr d \<and> blocks_encode libs p q ((k + 1) mod 2 ^ 64) bs es)"

lemma blocks_encode_append:
  "k < 2 ^ 64 \<Longrightarrow> blocks_encode libs p q k (bs @ cs) ds \<longleftrightarrow>
   (\<exists>ds1 ds2. ds = ds1 @ ds2 \<and> blocks_encode libs p q k bs ds1 \<and>
      blocks_encode libs p q ((k + length bs) mod 2 ^ 64) cs ds2)"
proof (induction bs arbitrary: k ds)
  case (Cons b bs)
  have "((k + 1) mod 2 ^ 64 + length bs) mod 2 ^ 64 = (k + length (b # bs)) mod 2 ^ 64"
    by (simp add: mod_simps)
  with Cons show ?case by (simp del: length_Cons) (metis append_Cons)
qed simp

lemma blocks_encode_nth:
  assumes "length ds = length bs" "k < 2 ^ 64"
    and "\<And>i. i < length bs \<Longrightarrow> fl_frame libs p q (bs ! i) ((k + i) mod 2 ^ 64) = Inr (ds ! i)"
  shows "blocks_encode libs p q k bs ds"
  using assms
proof (induction bs arbitrary: k ds)
  case (Cons b bs)
  obtain d es where ds: "ds = d # es" using Cons.prems(1) by (cases ds) auto
  have "fl_frame libs p q (bs ! i) (((k + 1) mod 2 ^ 64 + i) mod 2 ^ 64) = Inr (es ! i)" if "i < length bs" for i
    using Cons.prems(3) [of "Suc i"] that ds by (simp add: mod_simps)
  with Cons.IH [of es "(k + 1) mod 2 ^ 64"] Cons.prems(1,2) Cons.prems(3) [of 0] ds show ?case by simp
qed simp

text \<open>What does not fill a chunk.\<close>

definition rest_of :: "nat \<Rightarrow> 'a list \<Rightarrow> 'a list" where
  "rest_of n xs = drop (length xs - length xs mod n) xs"

lemma length_rest_of [simp]: "length (rest_of n xs) = length xs mod n"
  by (simp add: rest_of_def)

lemma rest_of_short [simp]: "length xs < n \<Longrightarrow> rest_of n xs = xs"
  by (simp add: rest_of_def)

lemma rest_of_long: "0 < n \<Longrightarrow> n \<le> length xs \<Longrightarrow> rest_of n xs = rest_of n (drop n xs)"
proof -
  assume "0 < n" "n \<le> length xs"
  moreover have "(length xs - n) mod n \<le> length xs - n" by (rule mod_less_eq_dividend)
  ultimately have "length xs - (n + (length xs - n) mod n) + n = length xs - (length xs - n) mod n" by linarith
  with \<open>n \<le> length xs\<close> show ?thesis by (simp add: rest_of_def le_mod_geq)
qed

lemma chunks_of_append_rest:
  "0 < n \<Longrightarrow> chunks_of n (xs @ ys) = chunks_of n xs @ chunks_of n (rest_of n xs @ ys) \<and>
   rest_of n (xs @ ys) = rest_of n (rest_of n xs @ ys)"
proof (induction "length xs" arbitrary: xs rule: less_induct)
  case less
  show ?case
  proof (cases "length xs < n")
    case False
    with less.prems less.hyps [of "drop n xs"] show ?thesis
      by (simp add: chunks_of_long [of n xs] chunks_of_long [of n "xs @ ys"] rest_of_long [of n xs]
          rest_of_long [of n "xs @ ys"])
  qed (simp add: chunks_of_short)
qed

lemma flac_loop_blocks:
  assumes "n = BLOCK_SIZE * unat (sf_channels (fe_format e))" "0 < n" "fe_number e < 2 ^ 64"
    and "blocks_encode libs (fe_profile e) (flac_params_of (fe_format e)) (fe_number e) (chunks_of n (fe_pending e)) ds"
  shows "flac_loop libs e out =
    Some (Inr (out @ concat ds),
          e\<lparr>fe_pending := rest_of n (fe_pending e),
            fe_number := (fe_number e + length (chunks_of n (fe_pending e))) mod 2 ^ 64\<rparr>)"
  using assms
proof (induction "length (fe_pending e)" arbitrary: e out ds rule: less_induct)
  case less
  show ?case
  proof (cases "length (fe_pending e) < n")
    case True
    with less.prems show ?thesis by (simp add: flac_loop.simps [of libs e] chunks_of_short)
  next
    case False
    let ?e = "e\<lparr>fe_pending := drop n (fe_pending e), fe_number := (fe_number e + 1) mod 2 ^ 64\<rparr>"
    have shorter: "length (fe_pending ?e) < length (fe_pending e)" using False less.prems(2) by simp
    obtain d es where b: "fl_frame libs (fe_profile e) (flac_params_of (fe_format e)) (take n (fe_pending e))
        (fe_number e) = Inr d" "ds = d # es"
      and rest: "blocks_encode libs (fe_profile e) (flac_params_of (fe_format e)) ((fe_number e + 1) mod 2 ^ 64)
        (chunks_of n (drop n (fe_pending e))) es"
      using less.prems(2,4) False by (auto simp: chunks_of_long [of n "fe_pending e"])
    from b(1) False less.prems(1) have "flac_loop libs e out = flac_loop libs ?e (out @ d)"
      by (simp add: flac_loop.simps [of libs e] Let_def)
    also have "\<dots> = Some (Inr ((out @ d) @ concat es),
          ?e\<lparr>fe_pending := rest_of n (fe_pending ?e),
            fe_number := (fe_number ?e + length (chunks_of n (fe_pending ?e))) mod 2 ^ 64\<rparr>)"
      using less.hyps [of ?e es "out @ d"] shorter less.prems(1,2) rest by simp
    finally show ?thesis
      using False less.prems(2,3) b(2)
      by (simp add: chunks_of_long [of n "fe_pending e"] rest_of_long [of n "fe_pending e"] mod_simps)
  qed
qed

subsection \<open>Streams\<close>

fun flac_run ::
  "flac_libs \<Rightarrow> u32 audio_data list \<Rightarrow> flac_encoder \<Rightarrow> ((string + u8 list) list \<times> flac_encoder) option" where
  "flac_run libs [] e = Some ([], e)"
| "flac_run libs (i # is) e =
     (case flac_encode libs i e of
        None \<Rightarrow> None
      | Some (r, e) \<Rightarrow> map_option (\<lambda>(rs, e). (r # rs, e)) (flac_run libs is e))"

text \<open>The samples of an input, as integers.\<close>

definition flac_samples :: "sample_format \<Rightarrow> u32 audio_data \<Rightarrow> int list" where
  "flac_samples f i = (case pcm_to_i32 f (pcm_encode f i) of Some (Inr xs) \<Rightarrow> xs | _ \<Rightarrow> [])"

lemma pcm_to_i32_ok:
  "sf_bits f \<in> {16, 24} \<Longrightarrow> pcm_to_i32 f (pcm_encode f i) = Some (Inr (flac_samples f i))"
  by (auto simp: flac_samples_def pcm_to_i32_def sample_size_def Let_def)

lemma flac_encode_blocks:
  assumes "n = BLOCK_SIZE * unat (sf_channels (fe_format e))" "0 < n" "fe_number e < 2 ^ 64"
    and "sf_bits (fe_format e) \<in> {16, 24}" "xs = fe_pending e @ flac_samples (fe_format e) i"
    and "blocks_encode libs (fe_profile e) (flac_params_of (fe_format e)) (fe_number e) (chunks_of n xs) ds"
  shows "flac_encode libs i e =
    Some (Inr (concat ds),
      e\<lparr>fe_pending := rest_of n xs, fe_number := (fe_number e + length (chunks_of n xs)) mod 2 ^ 64\<rparr>)"
  using flac_loop_blocks [of n "e\<lparr>fe_pending := xs\<rparr>" libs ds "[]"] assms
  by (simp add: flac_encode_def pcm_to_i32_ok)

lemma flac_run_blocks:
  assumes "n = BLOCK_SIZE * unat (sf_channels f)" "0 < n" "sf_bits f \<in> {16, 24}"
    and "fe_format e = f" "fe_number e < 2 ^ 64" "length (fe_pending e) < n"
    and "blocks_encode libs (fe_profile e) (flac_params_of f) (fe_number e)
      (chunks_of n (fe_pending e @ concat (List.map (flac_samples f) is))) ds"
  shows "\<exists>outs e'. flac_run libs is e = Some (List.map Inr outs, e') \<and> length outs = length is \<and>
    concat outs = concat ds \<and>
    fe_pending e' = rest_of n (fe_pending e @ concat (List.map (flac_samples f) is))"
  using assms(4-)
proof (induction "is" arbitrary: e ds)
  case Nil
  then show ?case by (simp add: chunks_of_short)
next
  case (Cons i "is")
  let ?xs = "fe_pending e @ flac_samples f i" and ?ys = "concat (List.map (flac_samples f) is)"
  let ?e = "e\<lparr>fe_pending := rest_of n ?xs, fe_number := (fe_number e + length (chunks_of n ?xs)) mod 2 ^ 64\<rparr>"
  have split: "chunks_of n (fe_pending e @ concat (List.map (flac_samples f) (i # is))) =
      chunks_of n ?xs @ chunks_of n (rest_of n ?xs @ ?ys)"
    "rest_of n (fe_pending e @ concat (List.map (flac_samples f) (i # is))) = rest_of n (rest_of n ?xs @ ?ys)"
    using chunks_of_append_rest [OF assms(2), of ?xs ?ys] by simp_all
  obtain ds1 ds2 where ds: "ds = ds1 @ ds2"
    "blocks_encode libs (fe_profile e) (flac_params_of f) (fe_number e) (chunks_of n ?xs) ds1"
    "blocks_encode libs (fe_profile ?e) (flac_params_of f) (fe_number ?e) (chunks_of n (rest_of n ?xs @ ?ys)) ds2"
    using Cons.prems(4) blocks_encode_append [OF Cons.prems(2)] unfolding split by auto
  have enc: "flac_encode libs i e = Some (Inr (concat ds1), ?e)"
    using flac_encode_blocks [of n e ?xs i libs ds1] assms(1-3) Cons.prems(1,2) ds(2) by simp
  obtain outs e' where "flac_run libs is ?e = Some (List.map Inr outs, e')" "length outs = length is"
    "concat outs = concat ds2" "fe_pending e' = rest_of n (rest_of n ?xs @ ?ys)"
    using Cons.IH [of ?e ds2] Cons.prems(1) assms(2) ds(3) by auto
  with enc ds(1) show ?case
    unfolding split by (intro exI [of _ "concat ds1 # outs"] exI [of _ e']) simp
qed

lemma flac_new_fields:
  assumes "flac_new libs f options = Inr e"
  shows "fe_format e = f" "fe_pending e = []" "fe_number e = 0" "0 < BLOCK_SIZE * unat (sf_channels f)"
  using assms
  by (auto simp: flac_new_def flac_supported_def BLOCK_SIZE_def Let_def unat_gt_0 word_le_nat_alt
      split: sum.splits option.splits if_splits)


text \<open>A library for demonstrations: a block is its number and its size.\<close>

definition demo_flac :: flac_libs where
  "demo_flac = \<lparr>fl_verify = (\<lambda>p. None), fl_header = (\<lambda>q n. Inr (as_bytes ''fLaC'')), fl_info = (\<lambda>q. None),
     fl_frame = (\<lambda>p q b n. Inr [word_of_nat n, word_of_nat (length b)])\<rparr>"

definition demo_flac_encoder :: flac_encoder where
  "demo_flac_encoder = \<lparr>fe_format = sf_new 48000 16 1, fe_profile = LpcOrder 15, fe_header = as_bytes ''fLaC'',
     fe_pending = [], fe_number = 0\<rparr>"

lemma demo_flac_new: "flac_new demo_flac (sf_new 48000 16 1) ''5'' = Inr demo_flac_encoder"
proof -
  have "flac_level ''5'' = Inr (Some 5)"
    by (simp add: flac_level_def parse_unsigned_def to_digit_def)
  then show ?thesis
    by (simp add: flac_new_def demo_flac_def demo_flac_encoder_def flac_profile_of_def flac_supported_def sf_new_def)
qed

text \<open>A second of silence in two chunks that end within a block: 41 blocks, 768 samples kept.\<close>

definition demo_silence :: "nat \<Rightarrow> u32 audio_data" where
  "demo_silence frames = Pcm (replicate (2 * frames) 0)"

lemma chunks_of_two_zeros: "chunks_of 2 (replicate (2 * n) (0 :: u8)) = replicate n [0, 0]"
proof (induction n)
  case (Suc n)
  then show ?case by (simp add: chunks_of_long numeral_2_eq_2)
qed (simp add: chunks_of_short)

lemma demo_silence_samples: "flac_samples (sf_new 48000 16 1) (demo_silence frames) = replicate frames 0"
  by (simp add: flac_samples_def demo_silence_def pcm_to_i32_def pcm_encode_def sample_size_def sf_new_def Let_def
      chunks_of_two_zeros int_of_le_def flip: numeral_2_eq_2)


end
