(* ===== verification/Encoders.thy ===== *)
theory Encoders
  imports FlacEncoder Decoders Session
begin

text \<open>
  The encoders behind their common interface (\<open>snapcast-server/src/encoder\<close>: \<open>mod.rs\<close>, \<open>opus.rs\<close>,
  \<open>vorbis.rs\<close>) and the thread that runs one for a stream (\<open>spawn_stream_encoder\<close> in \<open>lib.rs\<close>).  The codec
  libraries are the fields of \<open>enc_libs\<close>; an encoder of libopus has a state of its own.  None is a panic or
  an endless loop, which ends the thread.
\<close>

record 'o enc_libs =
  en_flac :: flac_libs
  en_float :: f32_libs
  en_salt :: "u8 list"
  opus_enc_make :: "u32 \<Rightarrow> nat \<Rightarrow> string + 'o"
  opus_enc :: "'o \<Rightarrow> int list \<Rightarrow> 'o \<times> (string + u8 list)"
  vorbis_header :: "u32 \<Rightarrow> nat \<Rightarrow> string + u8 list"
  vorbis_block :: "u32 \<Rightarrow> nat \<Rightarrow> f32 list list \<Rightarrow> string + u8 list"

subsection \<open>Opus\<close>

definition opus_pcm :: "sample_format \<Rightarrow> u32 audio_data \<Rightarrow> u8 list" where
  "opus_pcm f input =
     (case input of
        Pcm pcm \<Rightarrow> if sf_bits f = 16 then pcm else f32_to_pcm (pcm_to_f32 pcm (sf_bits f)) 16
      | F32 samples \<Rightarrow> f32_to_pcm (List.map (\<lambda>b. f32_of_bits (unat b)) samples) 16)"

text \<open>The frames of twenty milliseconds, one after the other into one chunk; a part of a frame is dropped.\<close>

fun opus_loop :: "'o enc_libs \<Rightarrow> u8 list list \<Rightarrow> 'o \<Rightarrow> u8 list \<Rightarrow> (string + u8 list) \<times> 'o" where
  "opus_loop libs [] st out = (Inr out, st)"
| "opus_loop libs (c # cs) st out =
     (case opus_enc libs st (List.map int_of_le (chunks_of 2 c)) of
        (st, Inl e) \<Rightarrow> (Inl (''Opus encode failed: '' @ e), st)
      | (st, Inr bytes) \<Rightarrow> opus_loop libs cs st (out @ bytes))"

definition opus_encode :: "'o enc_libs \<Rightarrow> sample_format \<Rightarrow> u32 audio_data \<Rightarrow> 'o \<Rightarrow> (string + u8 list) \<times> 'o" where
  "opus_encode libs f input st =
     opus_loop libs (chunks_of (unat (sf_rate f) div 50 * unat (sf_channels f) * 2) (opus_pcm f input)) st []"

subsection \<open>Vorbis\<close>

text \<open>Sample \<open>i\<close> goes to channel \<open>i mod n\<close>.\<close>

definition deinterleave :: "nat \<Rightarrow> 'a list \<Rightarrow> 'a list list" where
  "deinterleave n xs =
     List.map (\<lambda>c. List.map snd (filter (\<lambda>(i, x). i mod n = c) (enumerate 0 xs))) [0..<n]"

definition vorbis_scale :: "u16 \<Rightarrow> f32 option" where
  "vorbis_scale bits =
     (if bits = 16 then Some (FNum (1 / 32768))
      else if bits = 24 then Some (f32_div (FNum 1) PCM_24BIT_MAX)
      else if bits = 32 then Some (FNum (1 / 2147483648))
      else None)"

definition vorbis_samples :: "sample_format \<Rightarrow> u32 audio_data \<Rightarrow> (string + f32 list) option" where
  "vorbis_samples f input =
     (case input of
        F32 samples \<Rightarrow> Some (Inr (List.map (\<lambda>b. f32_of_bits (unat b)) samples))
      | Pcm pcm \<Rightarrow>
          (let k = unat (sample_size f) in
           if k = 0 then None
           else case vorbis_scale (sf_bits f) of
             None \<Rightarrow> Some (Inl (''unsupported sample size: '' @ show_nat k))
           | Some scale \<Rightarrow> Some (Inr (List.map (\<lambda>c. f32_mul (f32_of_int (int_of_le c)) scale) (chunks_of k pcm)))))"

definition vorbis_encode :: "'o enc_libs \<Rightarrow> sample_format \<Rightarrow> u32 audio_data \<Rightarrow> (string + u8 list) option" where
  "vorbis_encode libs f input =
     (let n = unat (sf_channels f) in
      if n = 0 then Some (Inl ''channels must be > 0'')
      else case vorbis_samples f input of
        None \<Rightarrow> None
      | Some (Inl e) \<Rightarrow> Some (Inl e)
      | Some (Inr xs) \<Rightarrow>
          if n mod 256 = 0 then Some (Inl ''zero channels'')
          else if sf_rate f = 0 then Some (Inl ''zero sample rate'')
          else Some (vorbis_block libs (sf_rate f) (n mod 256) (deinterleave n xs)))"

subsection \<open>The common interface\<close>

datatype 'o encoder =
    PcmEncoder sample_format "u8 list"
  | FlacEncoder flac_encoder
  | OpusEncoder sample_format "u8 list" 'o
  | VorbisEncoder sample_format "u8 list"
  | F32Lz4Encoder f32lz4_encoder

record encoder_config =
  ec_codec :: string
  ec_format :: sample_format
  ec_options :: string
  ec_psk :: "string option"

definition opus_encoder_new :: "'o enc_libs \<Rightarrow> sample_format \<Rightarrow> string + 'o encoder" where
  "opus_encoder_new libs f =
     (case opus_header f of
        Inl e \<Rightarrow> Inl e
      | Inr header \<Rightarrow>
          (case opus_enc_make libs (sf_rate f) (unat (sf_channels f)) of
             Inl e \<Rightarrow> Inl e
           | Inr st \<Rightarrow> Inr (OpusEncoder f header st)))"

definition vorbis_encoder_new :: "'o enc_libs \<Rightarrow> sample_format \<Rightarrow> string + 'o encoder" where
  "vorbis_encoder_new libs f =
     (if unat (sf_channels f) mod 256 = 0 then Inl ''channels must be > 0''
      else if sf_rate f = 0 then Inl ''sample rate must be > 0''
      else map_sum id (VorbisEncoder f) (vorbis_header libs (sf_rate f) (unat (sf_channels f) mod 256)))"

definition create_encoder :: "'o enc_libs \<Rightarrow> encoder_config \<Rightarrow> string + 'o encoder" where
  "create_encoder libs k =
     (let codec = ec_codec k; f = ec_format k in
      if codec = ''pcm'' then Inr (PcmEncoder f (build_wav_header f))
      else if codec = ''flac'' then map_sum id FlacEncoder (flac_new (en_flac libs) f (ec_options k))
      else if codec = ''opus'' then opus_encoder_new libs f
      else if codec = ''ogg'' then vorbis_encoder_new libs f
      else if codec = ''f32lz4'' then
        Inr (F32Lz4Encoder (f32lz4_stream_encoder (en_float libs) (ec_psk k) (en_salt libs) f))
      else Inl (''unsupported codec: '' @ codec @ '' (check enabled features)''))"

definition encoder_name :: "'o encoder \<Rightarrow> string" where
  "encoder_name enc =
     (case enc of
        PcmEncoder _ _ \<Rightarrow> ''pcm'' | FlacEncoder _ \<Rightarrow> ''flac'' | OpusEncoder _ _ _ \<Rightarrow> ''opus''
      | VorbisEncoder _ _ \<Rightarrow> ''ogg'' | F32Lz4Encoder _ \<Rightarrow> ''f32lz4'')"

definition encoder_header :: "'o encoder \<Rightarrow> u8 list" where
  "encoder_header enc =
     (case enc of
        PcmEncoder _ h \<Rightarrow> h | FlacEncoder e \<Rightarrow> fe_header e | OpusEncoder _ h _ \<Rightarrow> h
      | VorbisEncoder _ h \<Rightarrow> h | F32Lz4Encoder e \<Rightarrow> le_header e)"

definition encode ::
  "'o enc_libs \<Rightarrow> u32 audio_data \<Rightarrow> 'o encoder \<Rightarrow> ((string + u8 list) \<times> 'o encoder) option" where
  "encode libs input enc =
     (case enc of
        PcmEncoder f h \<Rightarrow> Some (Inr (pcm_encode f input), enc)
      | FlacEncoder e \<Rightarrow> map_option (map_prod id FlacEncoder) (flac_encode (en_flac libs) input e)
      | OpusEncoder f h st \<Rightarrow> Some (map_prod id (OpusEncoder f h) (opus_encode libs f input st))
      | VorbisEncoder f h \<Rightarrow> map_option (\<lambda>r. (r, enc)) (vorbis_encode libs f input)
      | F32Lz4Encoder e \<Rightarrow> map_option (map_prod id F32Lz4Encoder) (f32lz4_encode (en_float libs) input e))"

subsection \<open>The thread of a stream\<close>

text \<open>
  Float sources are paced: the instant to sleep until (nanoseconds of the monotonic clock), given the
  instant of the previous chunk.  A gap of more than half a second starts afresh.  A sample rate of zero
  divides by zero.
\<close>

definition chunk_nanos :: "u32 \<Rightarrow> u16 \<Rightarrow> nat \<Rightarrow> nat" where
  "chunk_nanos rate channels n =
     ((n div max 1 (unat channels)) * 1000000 mod 2 ^ 64) div unat rate * 1000"

definition pace :: "u32 \<Rightarrow> u16 \<Rightarrow> nat \<Rightarrow> nat \<Rightarrow> nat option \<Rightarrow> nat option" where
  "pace rate channels n now tick =
     (if rate = 0 then None
      else
        let dur = chunk_nanos rate channels n;
            tick = (case tick of None \<Rightarrow> now | Some t \<Rightarrow> t);
            tick = (if tick + dur + 500000000 < now then now else tick) in
        Some (tick + dur))"

record 'o encoder_thread =
  et_encoder :: "'o encoder"
  et_tick :: "nat option"
  et_sent :: "wire_chunk_data list"
  et_times :: "nat list"  \<comment> \<open>when each frame was given to the encoder\<close>

text \<open>One frame, received at \<open>now\<close>.\<close>

definition send_encoded ::
  "string \<Rightarrow> int \<Rightarrow> string + u8 list \<Rightarrow> 'o encoder_thread \<Rightarrow> 'o encoder_thread" where
  "send_encoded stream stamp r t =
     (case r of
        Inl _ \<Rightarrow> t
      | Inr data \<Rightarrow>
          if data = [] then t
          else t\<lparr>et_sent := et_sent t @ [\<lparr>wd_stream_id = stream, wd_timestamp_usec = stamp, wd_data = data\<rparr>]\<rparr>)"

definition thread_step ::
  "'o enc_libs \<Rightarrow> string \<Rightarrow> u32 \<Rightarrow> u16 \<Rightarrow> nat \<times> u32 audio_frame \<Rightarrow> 'o encoder_thread \<Rightarrow> 'o encoder_thread option" where
  "thread_step libs stream rate channels inp t =
     (let (now, frame) = inp in
      case (case af_data frame of
              Pcm _ \<Rightarrow> Some (now, t)
            | F32 samples \<Rightarrow>
                map_option (\<lambda>tick. (max now tick, t\<lparr>et_tick := Some tick\<rparr>))
                  (pace rate channels (length samples) now (et_tick t))) of
        None \<Rightarrow> None
      | Some (time, t) \<Rightarrow>
          map_option
            (\<lambda>(r, enc). send_encoded stream (af_timestamp frame) r
               (t\<lparr>et_encoder := enc, et_times := et_times t @ [time]\<rparr>))
            (encode libs (af_data frame) (et_encoder t)))"

fun thread_run ::
  "'o enc_libs \<Rightarrow> string \<Rightarrow> u32 \<Rightarrow> u16 \<Rightarrow> (nat \<times> u32 audio_frame) list \<Rightarrow> 'o encoder_thread \<Rightarrow>
   'o encoder_thread option" where
  "thread_run libs stream rate channels [] t = Some t"
| "thread_run libs stream rate channels (i # is) t =
     Option.bind (thread_step libs stream rate channels i t) (thread_run libs stream rate channels is)"

end
