(* ===== verification/EncoderProps.thy ===== *)
theory EncoderProps
  imports Encoders
begin

text \<open>
  What an encoder thread does with the frames of its source: their order and stamps, the pace of float
  sources, and that a client understands the header of every codec.
\<close>

subsection \<open>Order\<close>

lemma send_encoded_fields [simp]:
  "et_times (send_encoded stream stamp r t) = et_times t" "et_tick (send_encoded stream stamp r t) = et_tick t"
  "et_encoder (send_encoded stream stamp r t) = et_encoder t"
  by (simp_all add: send_encoded_def split: sum.split)

definition chunk_of_frame :: "string \<Rightarrow> int \<Rightarrow> wire_chunk_data \<Rightarrow> bool" where
  "chunk_of_frame stream stamp d \<longleftrightarrow> wd_stream_id d = stream \<and> wd_timestamp_usec d = stamp \<and> wd_data d \<noteq> []"

lemma send_encoded_sent:
  "\<exists>ds. et_sent (send_encoded stream stamp r t) = et_sent t @ ds \<and> length ds \<le> 1 \<and>
     (\<forall>d\<in>set ds. chunk_of_frame stream stamp d)"
  by (cases r) (auto simp: send_encoded_def chunk_of_frame_def)

lemma thread_step_sent:
  "thread_step libs stream rate channels (now, fr) t = Some t' \<Longrightarrow>
   \<exists>ds. et_sent t' = et_sent t @ ds \<and> length ds \<le> 1 \<and> (\<forall>d\<in>set ds. chunk_of_frame stream (af_timestamp fr) d)"
proof -
  assume "thread_step libs stream rate channels (now, fr) t = Some t'"
  then obtain r t1 where "t' = send_encoded stream (af_timestamp fr) r t1" "et_sent t1 = et_sent t"
    by (auto simp: thread_step_def split: audio_data.splits option.splits)
  then show ?thesis using send_encoded_sent [of stream "af_timestamp fr" r t1] by simp
qed

lemma thread_run_order:
  "thread_run libs stream rate channels inps t = Some t' \<Longrightarrow>
   \<exists>ds. et_sent t' = et_sent t @ ds \<and>
     subseq (List.map wd_timestamp_usec ds) (List.map (\<lambda>i. af_timestamp (snd i)) inps) \<and>
     (\<forall>d\<in>set ds. wd_stream_id d = stream \<and> wd_data d \<noteq> [])"
proof (induction inps arbitrary: t)
  case (Cons i inps)
  obtain now fr t1 where i: "i = (now, fr)" "thread_step libs stream rate channels (now, fr) t = Some t1"
    "thread_run libs stream rate channels inps t1 = Some t'"
    using Cons.prems by (cases i) (auto simp: bind_eq_Some_conv)
  from thread_step_sent [OF i(2)] obtain ds where ds: "et_sent t1 = et_sent t @ ds" "length ds \<le> 1"
    "\<forall>d\<in>set ds. chunk_of_frame stream (af_timestamp fr) d" by blast
  from Cons.IH [OF i(3)] obtain ds' where ds': "et_sent t' = et_sent t1 @ ds'"
    "subseq (List.map wd_timestamp_usec ds') (List.map (\<lambda>i. af_timestamp (snd i)) inps)"
    "\<forall>d\<in>set ds'. wd_stream_id d = stream \<and> wd_data d \<noteq> []" by blast
  have "subseq (List.map wd_timestamp_usec (ds @ ds')) (List.map (\<lambda>i. af_timestamp (snd i)) (i # inps))"
    using ds(2,3) ds'(2) i(1) by (cases ds) (auto simp: chunk_of_frame_def)
  with ds ds' show ?case by (intro exI [of _ "ds @ ds'"]) (auto simp: chunk_of_frame_def)
qed simp

subsection \<open>Pace\<close>

definition frame_nanos :: "u32 \<Rightarrow> u16 \<Rightarrow> u32 audio_frame \<Rightarrow> nat" where
  "frame_nanos rate channels fr =
     (case af_data fr of F32 samples \<Rightarrow> chunk_nanos rate channels (length samples) | Pcm _ \<Rightarrow> 0)"

definition is_float :: "u32 audio_frame \<Rightarrow> bool" where
  "is_float fr = (case af_data fr of F32 _ \<Rightarrow> True | Pcm _ \<Rightarrow> False)"

lemma pace_step:
  assumes "pace rate channels n now tick = Some t"
  shows "(case tick of None \<Rightarrow> True | Some u \<Rightarrow> u + chunk_nanos rate channels n \<le> t) \<and> now \<le> t + 500000000"
  using assms by (auto simp: pace_def Let_def split: if_splits option.splits)

lemma thread_step_paced:
  assumes "thread_step libs stream rate channels (now, fr) t = Some t'" "is_float fr"
  shows "\<exists>tick. et_tick t' = Some tick \<and> et_times t' = et_times t @ [max now tick] \<and> now \<le> tick + 500000000 \<and>
    (case et_tick t of None \<Rightarrow> True | Some u \<Rightarrow> u + frame_nanos rate channels fr \<le> tick)"
  using assms pace_step [of rate channels _ now "et_tick t"]
  by (auto simp: thread_step_def is_float_def frame_nanos_def split: audio_data.splits option.splits)

text \<open>The times of a run: each at least its tick, at most half a second above it; the ticks keep their distance.\<close>

lemma thread_run_ticks:
  assumes "thread_run libs stream rate channels inps t = Some t'" "\<forall>i\<in>set inps. is_float (snd i)"
  shows "\<exists>ticks. length ticks = length inps \<and>
    (\<exists>rs. et_times t' = et_times t @ rs \<and> length rs = length inps \<and>
       (\<forall>k<length inps. ticks ! k \<le> rs ! k \<and> rs ! k \<le> ticks ! k + 500000000)) \<and>
    (\<forall>k. Suc k < length inps \<longrightarrow> ticks ! k + frame_nanos rate channels (snd (inps ! Suc k)) \<le> ticks ! Suc k) \<and>
    (\<forall>u. et_tick t = Some u \<and> inps \<noteq> [] \<longrightarrow> u + frame_nanos rate channels (snd (hd inps)) \<le> hd ticks)"
  using assms
proof (induction inps arbitrary: t)
  case (Cons i inps)
  obtain now fr t1 where i: "i = (now, fr)" "thread_step libs stream rate channels (now, fr) t = Some t1"
    "thread_run libs stream rate channels inps t1 = Some t'"
    using Cons.prems(1) by (cases i) (auto simp: bind_eq_Some_conv)
  have "is_float fr" using Cons.prems(2) i(1) by simp
  from thread_step_paced [OF i(2) this] obtain tick where tick: "et_tick t1 = Some tick"
    "et_times t1 = et_times t @ [max now tick]" "now \<le> tick + 500000000"
    "case et_tick t of None \<Rightarrow> True | Some u \<Rightarrow> u + frame_nanos rate channels fr \<le> tick" by blast
  from Cons.IH [OF i(3)] Cons.prems(2) obtain ticks rs where IH: "length ticks = length inps"
    "et_times t' = et_times t1 @ rs" "length rs = length inps"
    "\<forall>k<length inps. ticks ! k \<le> rs ! k \<and> rs ! k \<le> ticks ! k + 500000000"
    "\<forall>k. Suc k < length inps \<longrightarrow> ticks ! k + frame_nanos rate channels (snd (inps ! Suc k)) \<le> ticks ! Suc k"
    "\<forall>u. et_tick t1 = Some u \<and> inps \<noteq> [] \<longrightarrow> u + frame_nanos rate channels (snd (hd inps)) \<le> hd ticks" by auto
  have gaps: "Suc k < length (i # inps) \<Longrightarrow>
      (tick # ticks) ! k + frame_nanos rate channels (snd ((i # inps) ! Suc k)) \<le> (tick # ticks) ! Suc k" for k
  proof (cases k)
    case 0
    assume "Suc k < length (i # inps)"
    with 0 IH(1,6) tick(1) show ?thesis by (cases inps; cases ticks) auto
  qed (use IH(5) in auto)
  have near: "k < length (i # inps) \<Longrightarrow> (tick # ticks) ! k \<le> (max now tick # rs) ! k \<and>
      (max now tick # rs) ! k \<le> (tick # ticks) ! k + 500000000" for k
    using IH(4) tick(3) by (cases k) auto
  have first: "et_tick t = Some u \<Longrightarrow> u + frame_nanos rate channels (snd (hd (i # inps))) \<le> hd (tick # ticks)" for u
    using tick(4) i(1) by simp
  show ?case
    using gaps near first IH(1-3) tick(2)
    by (intro exI [of _ "tick # ticks"] conjI exI [of _ "max now tick # rs"]) auto
qed simp

lemma ticks_apart:
  assumes "\<forall>k. Suc k < n \<longrightarrow> (f k :: nat) + d (Suc k) \<le> f (Suc k)" "i \<le> j" "j < n"
  shows "f i + (\<Sum>k\<in>{i<..j}. d k) \<le> f j"
  using assms(2,3)
proof (induction j rule: dec_induct)
  case (step m)
  have "{i<..Suc m} = insert (Suc m) {i<..m}" using step.hyps(1) by auto
  moreover have "f m + d (Suc m) \<le> f (Suc m)" using assms(1) step.prems by blast
  ultimately show ?case using step by simp
qed simp

text \<open>The frames in a float chunk.\<close>

definition float_frames :: "u16 \<Rightarrow> u32 audio_frame \<Rightarrow> nat" where
  "float_frames channels fr =
     (case af_data fr of F32 samples \<Rightarrow> length samples div unat channels | Pcm _ \<Rightarrow> 0)"

text \<open>The pace falls short of the real duration by less than a microsecond per chunk.\<close>

lemma frame_nanos_real:
  assumes "channels \<noteq> 0" "rate \<noteq> 0" "float_frames channels fr * 1000000 < 2 ^ 64"
  shows "float_frames channels fr * 1000000000 \<le> unat rate * (frame_nanos rate channels fr + 1000)"
proof (cases "af_data fr")
  case (F32 samples)
  let ?n = "length samples div unat channels"
  have c: "max 1 (unat channels) = unat channels" using assms(1) by (simp add: max_def unat_gt_0 Suc_le_eq)
  have r: "0 < unat rate" using assms(2) by (simp add: unat_gt_0)
  have "?n * 1000000 mod 2 ^ 64 = ?n * 1000000"
    using assms(3) F32 by (intro mod_less) (simp add: float_frames_def)
  then have "frame_nanos rate channels fr = ?n * 1000000 div unat rate * 1000"
    unfolding frame_nanos_def chunk_nanos_def F32 audio_data.case c by presburger
  moreover have "?n * 1000000 \<le> unat rate * (?n * 1000000 div unat rate + 1)"
    using dividend_less_times_div [OF r, of "?n * 1000000"] by simp
  then have "?n * 1000000 * 1000 \<le> unat rate * (?n * 1000000 div unat rate + 1) * 1000" by (rule mult_le_mono1)
  ultimately show ?thesis using F32 by (simp add: float_frames_def algebra_simps)
qed (simp add: float_frames_def)

lemma paced_rate:
  assumes "thread_run libs stream rate channels inps t = Some t'" "inps \<noteq> []" "is_float (snd (hd inps))"
  shows "rate \<noteq> 0"
  using assms by (cases inps)
    (auto simp: bind_eq_Some_conv thread_step_def is_float_def pace_def split: audio_data.splits option.splits prod.splits)

text \<open>C30: A float source is played into the server no faster than in real time: between the moments at which any
  two of its chunks reach the encoder at least the time passes in which the frames of the chunks after the first
  one sound at the stream's sample rate.  Two allowances are made: half a second that a source may have fallen
  behind before the pace starts afresh, and a microsecond for each chunk, whose duration is taken in whole
  microseconds.  A chunk has so few frames that a million times their number is less than \<open>2 ^ 64\<close>.\<close>

theorem float_source_paced:
  assumes "thread_run libs stream rate channels inps t = Some t'" "\<forall>i\<in>set inps. is_float (snd i)"
    and "channels \<noteq> 0" "\<forall>i\<in>set inps. float_frames channels (snd i) * 1000000 < 2 ^ 64"
    and "et_times t = []" "i \<le> j" "j < length inps"
  shows "unat rate * et_times t' ! i + (\<Sum>k\<in>{i<..j}. float_frames channels (snd (inps ! k))) * 1000000000
    \<le> unat rate * (et_times t' ! j + 500000000 + 1000 * (j - i))"
proof -
  obtain ticks where ticks:
    "\<forall>k<length inps. ticks ! k \<le> et_times t' ! k \<and> et_times t' ! k \<le> ticks ! k + 500000000"
    "\<forall>k. Suc k < length inps \<longrightarrow> ticks ! k + frame_nanos rate channels (snd (inps ! Suc k)) \<le> ticks ! Suc k"
    using thread_run_ticks [OF assms(1,2)] assms(5) by auto
  let ?d = "\<Sum>k\<in>{i<..j}. frame_nanos rate channels (snd (inps ! k))"
  have "ticks ! i + ?d \<le> ticks ! j" using ticks_apart [OF ticks(2) assms(6,7)] .
  moreover have "et_times t' ! i \<le> ticks ! i + 500000000" "ticks ! j \<le> et_times t' ! j"
    using ticks(1) assms(6,7) by simp_all
  ultimately have paced: "et_times t' ! i + ?d \<le> et_times t' ! j + 500000000" by linarith
  have "inps \<noteq> []" using assms(7) by auto
  then have rate: "rate \<noteq> 0" using paced_rate [OF assms(1)] assms(2) by simp
  have "(\<Sum>k\<in>{i<..j}. float_frames channels (snd (inps ! k)) * 1000000000) \<le>
      (\<Sum>k\<in>{i<..j}. unat rate * (frame_nanos rate channels (snd (inps ! k)) + 1000))"
    using frame_nanos_real [OF assms(3) rate] assms(4,7) by (intro sum_mono) auto
  also have "\<dots> = unat rate * (?d + 1000 * (j - i))"
    by (simp add: sum_distrib_left [symmetric] sum.distrib)
  finally have "(\<Sum>k\<in>{i<..j}. float_frames channels (snd (inps ! k))) * 1000000000 \<le> unat rate * (?d + 1000 * (j - i))"
    by (simp add: sum_distrib_right)
  then have "unat rate * et_times t' ! i + (\<Sum>k\<in>{i<..j}. float_frames channels (snd (inps ! k))) * 1000000000 \<le>
      unat rate * (et_times t' ! i + ?d + 1000 * (j - i))" by (simp add: distrib_left)
  also have "\<dots> \<le> unat rate * (et_times t' ! j + 500000000 + 1000 * (j - i))"
    using paced by (intro mult_le_mono2) linarith
  finally show ?thesis .
qed

definition demo_enc_libs :: "unit enc_libs" where
  "demo_enc_libs = \<lparr>en_flac = demo_flac, en_float = demo_libs, en_salt = replicate 16 5,
     opus_enc_make = (\<lambda>r n. Inr ()), opus_enc = (\<lambda>s xs. (s, Inr [word_of_nat (length xs)])),
     vorbis_header = (\<lambda>r n. Inr []), vorbis_block = (\<lambda>r n xs. Inr [])\<rparr>"

text \<open>Three stereo chunks of a second each, the last two handed over at once.\<close>

definition second_of_silence :: "int \<Rightarrow> u32 audio_frame" where
  "second_of_silence stamp = \<lparr>af_data = F32 (replicate 96000 0), af_timestamp = stamp\<rparr>"

definition pcm_thread :: "unit encoder_thread" where
  "pcm_thread = \<lparr>et_encoder = PcmEncoder (sf_new 48000 16 2) [], et_tick = None, et_sent = [], et_times = []\<rparr>"

lemma float_source_paced_witness:
  "\<exists>t'. thread_run demo_enc_libs ''s'' 48000 2
      [(0, second_of_silence 0), (1000000000, second_of_silence 1000000), (1000000000, second_of_silence 2000000)]
      pcm_thread = Some t' \<and>
    et_times t' ! 0 + 2000000000 \<le> et_times t' ! 2 + 500002000"
proof -
  let ?inps = "[(0, second_of_silence 0), (1000000000, second_of_silence 1000000), (1000000000, second_of_silence 2000000)]
    :: (nat \<times> u32 audio_frame) list"
  obtain t' where t': "thread_run demo_enc_libs ''s'' 48000 2 ?inps pcm_thread = Some t'"
    by (simp add: thread_step_def second_of_silence_def pcm_thread_def encode_def pace_def Let_def)
  have n: "float_frames 2 (second_of_silence s) = 48000" for s
    by (simp add: float_frames_def second_of_silence_def)
  have "{0<..2 :: nat} = {1, 2}" by auto
  then have total: "(\<Sum>k\<in>{0<..2}. float_frames 2 (snd (?inps ! k))) = 96000" by (simp add: n)
  have "unat (48000 :: u32) * et_times t' ! 0 + (\<Sum>k\<in>{0<..2}. float_frames 2 (snd (?inps ! k))) * 1000000000
      \<le> unat (48000 :: u32) * (et_times t' ! 2 + 500000000 + 1000 * (2 - 0))"
    by (rule float_source_paced [OF t'])
      (simp_all add: n, simp_all add: is_float_def second_of_silence_def pcm_thread_def)
  then show ?thesis unfolding total using t' by auto
qed

subsection \<open>The stamp of a FLAC block\<close>

text \<open>A FLAC block that begins with samples of an earlier frame is sent under the timestamp of the frame that
  completed it, not of its first sample: it is played late by the audio that was waiting, by a different
  amount for every block when the source's chunks do not have the size of a block.\<close>

lemma flac_block_stamped_late:
  assumes "flac_new (en_flac libs) f options = Inr e" "sf_bits f \<in> {16, 24}"
    and "n = BLOCK_SIZE * unat (sf_channels f)" "xs = flac_samples f (Pcm a)" "ys = flac_samples f (Pcm b)"
    and "length xs < n" "n \<le> length (xs @ ys)" "length (xs @ ys) < 2 * n"
    and "fl_frame (en_flac libs) (fe_profile e) (flac_params_of f) (xs @ take (n - length xs) ys) 0 = Inr data"
    and "data \<noteq> []" "et_encoder t = FlacEncoder e"
  shows "\<exists>t'. thread_run libs stream rate channels
      [(now1, \<lparr>af_data = Pcm a, af_timestamp = s1\<rparr>), (now2, \<lparr>af_data = Pcm b, af_timestamp = s2\<rparr>)] t = Some t' \<and>
    et_sent t' = et_sent t @ [\<lparr>wd_stream_id = stream, wd_timestamp_usec = s2, wd_data = data\<rparr>]"
proof -
  note fields = flac_new_fields [OF assms(1)]
  let ?block = "xs @ take (n - length xs) ys"
  have n: "0 < n" using fields(4) assms(3) by simp
  have "flac_encode (en_flac libs) (Pcm a) e = Some (Inr [], e\<lparr>fe_pending := xs\<rparr>)"
    using flac_encode_blocks [of n e xs "Pcm a" "en_flac libs" "[]"] fields assms(2-4,6) n
    by (simp add: chunks_of_short)
  moreover have "chunks_of n (xs @ ys) = [?block]"
    using assms(6-8) n by (simp add: chunks_of_long chunks_of_short)
  then obtain e2 where "flac_encode (en_flac libs) (Pcm b) (e\<lparr>fe_pending := xs\<rparr>) = Some (Inr data, e2)"
    using flac_encode_blocks [of n "e\<lparr>fe_pending := xs\<rparr>" "xs @ ys" "Pcm b" "en_flac libs" "[data]"]
      fields assms(2,3,5,9) n by simp
  ultimately show ?thesis
    using assms(10,11) by (simp add: thread_step_def encode_def send_encoded_def)
qed

lemma length_flac_samples:
  "sf_bits f = 16 \<Longrightarrow> sf_channels f = 1 \<Longrightarrow> length (flac_samples f (Pcm pcm)) = length pcm div 2"
  by (simp add: flac_samples_def pcm_to_i32_def pcm_encode_def sample_size_def length_chunks_of Let_def)
    (simp add: minus_mod_eq_mult_div numeral_2_eq_2, presburger)

definition flac_thread :: "unit encoder_thread" where
  "flac_thread = \<lparr>et_encoder = FlacEncoder demo_flac_encoder, et_tick = None, et_sent = [], et_times = []\<rparr>"

lemma flac_block_stamped_late_witness:
  "\<exists>t'. thread_run demo_enc_libs ''s'' 48000 1
      [(0, \<lparr>af_data = Pcm (replicate 1920 0), af_timestamp = 0\<rparr>),
       (20, \<lparr>af_data = Pcm (replicate 1920 0), af_timestamp = 20000\<rparr>)] flac_thread = Some t' \<and>
    List.map wd_timestamp_usec (et_sent t') = [20000]"
proof -
  let ?f = "sf_new 48000 16 1" and ?a = "replicate 1920 0 :: u8 list"
  have lens: "length (flac_samples ?f (Pcm ?a)) = 960" using length_flac_samples [of ?f ?a] by (simp add: sf_new_def)
  have "\<exists>t'. thread_run demo_enc_libs ''s'' 48000 1
      [(0, \<lparr>af_data = Pcm ?a, af_timestamp = 0\<rparr>), (20, \<lparr>af_data = Pcm ?a, af_timestamp = 20000\<rparr>)] flac_thread = Some t' \<and>
    et_sent t' = et_sent flac_thread @ [\<lparr>wd_stream_id = ''s'', wd_timestamp_usec = 20000, wd_data = [0, 128]\<rparr>]"
    by (rule flac_block_stamped_late [where options = "''5''" and f = ?f and e = demo_flac_encoder and n = 1152 and
          xs = "flac_samples ?f (Pcm ?a)" and ys = "flac_samples ?f (Pcm ?a)"])
      (use demo_flac_new in \<open>simp_all add: lens\<close>, simp_all add: demo_enc_libs_def demo_flac_def
        sf_new_def BLOCK_SIZE_def flac_thread_def lens [unfolded sf_new_def])
  then show ?thesis by (auto simp: flac_thread_def)
qed

subsection \<open>Clients understand the headers\<close>

text \<open>The layout of a FLAC header: the marker, the head of the block, and the fields of STREAMINFO at their bits.\<close>

definition streaminfo_layout :: "flac_params \<Rightarrow> u8 list \<Rightarrow> bool" where
  "streaminfo_layout q h \<longleftrightarrow>
     (case q of (rate, channels, bits) \<Rightarrow>
        42 \<le> length h \<and> take 4 h = as_bytes ''fLaC'' \<and>
        unat (h ! 18) = rate div 2 ^ 12 \<and> unat (h ! 19) = rate div 2 ^ 4 mod 2 ^ 8 \<and>
        unat (h ! 20) = (rate mod 2 ^ 4) * 2 ^ 4 + (channels - 1) * 2 + (bits - 1) div 2 ^ 4 \<and>
        unat (h ! 21) div 2 ^ 4 = (bits - 1) mod 2 ^ 4)"

lemma streaminfo_parsed:
  assumes "streaminfo_layout (rate, channels, bits) h" "rate < 2 ^ 20" "1 \<le> channels" "channels \<le> 8" "1 \<le> bits" "bits \<le> 32"
  shows "parse_streaminfo libs h =
    Inr (sf_new (word_of_nat rate) (word_of_nat bits) (word_of_nat channels),
      \<lparr>cp_codec = ''flac'', cp_rate = word_of_nat rate, cp_bits = Some (word_of_nat bits),
       cp_channels = channel_mask libs channels, cp_extra = range_at 8 34 h\<rparr>)"
proof -
  let ?b2 = "(rate mod 2 ^ 4) * 2 ^ 4 + (channels - 1) * 2 + (bits - 1) div 2 ^ 4"
  have r: "rate div 2 ^ 12 * 2 ^ 12 + rate div 2 ^ 4 mod 2 ^ 8 * 2 ^ 4 + ?b2 div 2 ^ 4 = rate"
  proof -
    have "?b2 div 2 ^ 4 = rate mod 2 ^ 4" using assms(3-6) by simp
    then have "rate div 2 ^ 12 * 2 ^ 12 + rate div 2 ^ 4 mod 2 ^ 8 * 2 ^ 4 + ?b2 div 2 ^ 4 =
        16 * (rate div 4096 * 256 + rate div 16 mod 256) + rate mod 16" by simp
    also have "rate div 4096 * 256 + rate div 16 mod 256 = rate div 16"
      using div_mult_mod_eq [of "rate div 16" 256] by (simp add: div_mult2_eq [symmetric])
    finally show ?thesis by simp
  qed
  define z where "z = (bits - 1) div 2 ^ 4"
  have z: "z < 2" using assms(6) by (simp add: z_def)
  have b2: "?b2 = 2 * ((rate mod 2 ^ 4) * 8 + (channels - 1)) + z" by (simp add: z_def)
  have dm: "(2 * m + z) div 2 = m" "(2 * m + z) mod 2 = z" for m using z by simp_all
  have d2: "?b2 div 2 = (rate mod 2 ^ 4) * 8 + (channels - 1)" "?b2 mod 2 = z" unfolding b2 by (rule dm)+
  have "((rate mod 2 ^ 4) * 8 + (channels - 1)) mod 8 + 1 = channels"
    using assms(3,4) by (cases channels) simp_all
  then have c: "?b2 div 2 mod 8 + 1 = channels" unfolding d2(1) .
  have "z * 2 ^ 4 + (bits - 1) mod 2 ^ 4 + 1 = bits"
    using assms(5) div_mult_mod_eq [of "bits - 1" "2 ^ 4"] by (simp add: z_def)
  then have b: "?b2 mod 2 * 2 ^ 4 + (bits - 1) mod 2 ^ 4 + 1 = bits" unfolding d2(2) .
  show ?thesis
    using assms(1) r c b
    by (simp add: parse_streaminfo_def streaminfo_layout_def Let_def del: of_nat_add of_nat_mult of_nat_Suc)
qed

text \<open>What a client makes of a codec header: a decoder, and the sample format that this finds in the header.\<close>

definition client_decoder ::
  "'d codec_libs \<Rightarrow> string option \<Rightarrow> codec_header \<Rightarrow> string + sample_format \<times> 'd decoder" where
  "client_decoder dlibs psk h =
     (case create_decoder dlibs psk h of
        Inl e \<Rightarrow> Inl e
      | Inr dec \<Rightarrow> set_header dlibs (ch_payload h) dec)"

definition sent_header :: "'o encoder \<Rightarrow> codec_header" where
  "sent_header enc = \<lparr>ch_codec = encoder_name enc, ch_payload = encoder_header enc\<rparr>"

lemma understood_pcm:
  "sf_rate f \<noteq> 0 \<Longrightarrow> client_decoder dlibs psk (sent_header (PcmEncoder f (build_wav_header f))) = Inr (f, PcmDecoder)"
  by (simp add: client_decoder_def sent_header_def encoder_name_def encoder_header_def create_decoder_def set_header_def
      wav_header_parsed)

text \<open>The parameters with which symphonia makes the decoder of a FLAC stream.\<close>

definition flac_codec_params :: "'d codec_libs \<Rightarrow> sample_format \<Rightarrow> u8 list \<Rightarrow> codec_params" where
  "flac_codec_params dlibs f h =
     \<lparr>cp_codec = ''flac'', cp_rate = sf_rate f, cp_bits = Some (ucast (sf_bits f)),
      cp_channels = channel_mask dlibs (unat (sf_channels f)), cp_extra = range_at 8 34 h\<rparr>"

lemma understood_flac:
  assumes "streaminfo_layout (flac_params_of f) h" "flac_supported f = None" "sf_bits f \<noteq> 0" "fe_header e = h"
  shows "client_decoder dlibs psk (sent_header (FlacEncoder e)) =
    (case sym_make dlibs (flac_codec_params dlibs f h) of
       Inl err \<Rightarrow> Inl (''failed to create FLAC decoder: '' @ err)
     | Inr d \<Rightarrow> Inr (sf_new (sf_rate f) 32 (sf_channels f), FlacDecoder d (sf_new (sf_rate f) 32 (sf_channels f)) 0))"
proof -
  have "unat (sf_rate f) < 2 ^ 20" "1 \<le> unat (sf_channels f)" "unat (sf_channels f) \<le> 8" "1 \<le> unat (sf_bits f)"
    "unat (sf_bits f) \<le> 32"
    using assms(2,3) by (auto simp: flac_supported_def word_le_nat_alt word_less_nat_alt unat_gt_0 Suc_le_eq split: if_splits)
  then have "parse_streaminfo dlibs h = Inr (f, flac_codec_params dlibs f h)"
    using streaminfo_parsed [of "unat (sf_rate f)" "unat (sf_channels f)" "unat (sf_bits f)" h dlibs] assms(1)
    by (simp add: flac_params_of_def flac_codec_params_def sf_new_def)
  then have "flac_create dlibs h =
    (case sym_make dlibs (flac_codec_params dlibs f h) of
       Inl err \<Rightarrow> Inl (''failed to create FLAC decoder: '' @ err)
     | Inr d \<Rightarrow> Inr (FlacDecoder d (sf_new (sf_rate f) 32 (sf_channels f)) 0))"
    by (simp add: flac_create_def)
  then show ?thesis
    using assms(4) by (simp add: client_decoder_def sent_header_def encoder_name_def encoder_header_def
        create_decoder_def set_header_def made_format_def split: sum.split)
qed

lemma opus_header_parsed:
  assumes "opus_header f = Inr h"
  shows "parse_opus_header h = Inr (sf_new (sf_rate f) 16 (sf_channels f))"
proof -
  have f: "sf_channels f = 1 \<or> sf_channels f = 2" "sf_rate f \<noteq> 0"
    "h = as_bytes ''OpusHead'' @ [1, ucast (sf_channels f)] @ le_enc 2 0 @ le_enc 4 (unat (sf_rate f)) @ le_enc 2 0 @ [0]"
    using assms by (auto simp: opus_header_def opus_rate_ok_def split: if_splits)
  have "h = (as_bytes ''OpusHead'' @ [1, ucast (sf_channels f)] @ le_enc 2 0) @ le_enc 4 (unat (sf_rate f)) @ le_enc 2 0 @ [0]"
    by (simp add: f(3))
  then have "range_at 12 4 h = range_at 0 4 (le_enc 4 (unat (sf_rate f)) @ le_enc 2 0 @ [0])"
    by (simp only: range_at_skip) (simp add: as_bytes_def range_at_skip)
  then have "range_at 12 4 h = le_enc 4 (unat (sf_rate f))" by (simp add: range_at_hit)
  moreover have "length h = 19" "take 8 h = as_bytes ''OpusHead''" "h ! 9 = ucast (sf_channels f)"
    by (simp_all add: f(3) as_bytes_def nth_append)
  ultimately show ?thesis
    using f(1,2) by (auto simp: parse_opus_header_def Let_def le_dec_le_enc)
qed

lemma understood_opus:
  assumes "opus_header f = Inr h"
  shows "client_decoder dlibs psk (sent_header (OpusEncoder f' h st)) =
    (case opus_make dlibs (sf_rate f) (unat (sf_channels f)) of
       Inl err \<Rightarrow> Inl (''failed to create Opus decoder: '' @ err)
     | Inr d \<Rightarrow> Inr (sf_new (sf_rate f) 16 (sf_channels f), OpusDecoder d (sf_new (sf_rate f) 16 (sf_channels f))
         (replicate (MAX_FRAME_SIZE * unat (sf_channels f)) 0)))"
  by (simp add: client_decoder_def sent_header_def encoder_name_def encoder_header_def create_decoder_def set_header_def
      opus_create_def opus_header_parsed [OF assms] made_format_def sf_new_def split: sum.split)

lemma understood_f32lz4:
  assumes "length salt = F32LZ4_SALT_LEN" "kpsk \<noteq> None \<longrightarrow> psk = kpsk"
  shows "\<exists>d. client_decoder dlibs psk
      (sent_header (F32Lz4Encoder (f32lz4_stream_encoder (float_libs dlibs) kpsk salt f))) =
    Inr (sf_new (sf_rate f) 32 (sf_channels f), F32Lz4Decoder d)"
  using header_accepted [OF assms, of "float_libs dlibs" f]
  by (auto simp: client_decoder_def sent_header_def encoder_name_def encoder_header_def create_decoder_def set_header_def)

definition flac_documented :: "flac_libs \<Rightarrow> bool" where
  "flac_documented libs \<longleftrightarrow> (\<forall>q n h. fl_header libs q n = Inr h \<longrightarrow> streaminfo_layout q h)"

text \<open>C11: Whatever codec a stream of the server is configured with, among PCM, FLAC, Opus and F32LZ4, a client of
  this repository understands the header that its sessions send.  PCM and F32LZ4 headers always give the codec's
  decoder with the rate and channels that the server encodes with.  For FLAC and Opus the client reads exactly these
  out of the header, hands them to the codec library, and has the decoder that the library makes of them, or
  else the library's own refusal: the client adds no failure of its own.  Rate and sample size are not zero, a client
  of an encrypted stream has the server's key, and the FLAC library lays out STREAMINFO as the format says.\<close>

theorem header_understood:
  assumes "create_encoder libs k = Inr enc" "sf_rate (ec_format k) \<noteq> 0" "sf_bits (ec_format k) \<noteq> 0"
    and "flac_documented (en_flac libs)" "en_float libs = float_libs dlibs"
    and "length (en_salt libs) = F32LZ4_SALT_LEN" "ec_psk k \<noteq> None \<longrightarrow> psk = ec_psk k"
    and "f = ec_format k" "made = client_decoder dlibs psk (sent_header enc)"
  shows "(ec_codec k = ''pcm'' \<longrightarrow> made = Inr (f, PcmDecoder)) \<and>
    (ec_codec k = ''f32lz4'' \<longrightarrow> (\<exists>d. made = Inr (sf_new (sf_rate f) 32 (sf_channels f), F32Lz4Decoder d))) \<and>
    (ec_codec k = ''flac'' \<longrightarrow> made =
      (case sym_make dlibs \<lparr>cp_codec = ''flac'', cp_rate = sf_rate f, cp_bits = Some (ucast (sf_bits f)),
          cp_channels = channel_mask dlibs (unat (sf_channels f)), cp_extra = range_at 8 34 (encoder_header enc)\<rparr> of
         Inl err \<Rightarrow> Inl (''failed to create FLAC decoder: '' @ err)
       | Inr d \<Rightarrow> Inr (sf_new (sf_rate f) 32 (sf_channels f), FlacDecoder d (sf_new (sf_rate f) 32 (sf_channels f)) 0))) \<and>
    (ec_codec k = ''opus'' \<longrightarrow> made =
      (case opus_make dlibs (sf_rate f) (unat (sf_channels f)) of
         Inl err \<Rightarrow> Inl (''failed to create Opus decoder: '' @ err)
       | Inr d \<Rightarrow> Inr (sf_new (sf_rate f) 16 (sf_channels f), OpusDecoder d (sf_new (sf_rate f) 16 (sf_channels f))
           (replicate (MAX_FRAME_SIZE * unat (sf_channels f)) 0))))"
proof -
  have pcm: "made = Inr (f, PcmDecoder)" if "ec_codec k = ''pcm''"
  proof -
    have "enc = PcmEncoder f (build_wav_header f)" using assms(1,8) that by (simp add: create_encoder_def Let_def)
    with understood_pcm assms(2,8,9) show ?thesis by simp
  qed
  have f32lz4: "\<exists>d. made = Inr (sf_new (sf_rate f) 32 (sf_channels f), F32Lz4Decoder d)" if "ec_codec k = ''f32lz4''"
  proof -
    have "enc = F32Lz4Encoder (f32lz4_stream_encoder (float_libs dlibs) (ec_psk k) (en_salt libs) f)"
      using assms(1,5,8) that by (simp add: create_encoder_def Let_def)
    with understood_f32lz4 [OF assms(6,7)] assms(9) show ?thesis by simp
  qed
  have flac: "made =
      (case sym_make dlibs (flac_codec_params dlibs f (encoder_header enc)) of
         Inl err \<Rightarrow> Inl (''failed to create FLAC decoder: '' @ err)
       | Inr d \<Rightarrow> Inr (sf_new (sf_rate f) 32 (sf_channels f), FlacDecoder d (sf_new (sf_rate f) 32 (sf_channels f)) 0))"
    if c: "ec_codec k = ''flac''"
  proof -
    obtain e where e: "enc = FlacEncoder e" "flac_new (en_flac libs) f (ec_options k) = Inr e"
      using assms(1,8) by (auto simp: c create_encoder_def Let_def map_sum_def split: sum.splits)
    then have "fl_header (en_flac libs) (flac_params_of f) BLOCK_SIZE = Inr (fe_header e)" "flac_supported f = None"
      by (auto simp: flac_new_def Let_def split: sum.splits option.splits)
    moreover from this(1) have "streaminfo_layout (flac_params_of f) (fe_header e)"
      using assms(4) unfolding flac_documented_def by blast
    ultimately show ?thesis
      using understood_flac [of f "fe_header e" e dlibs psk] assms(3,8,9) e(1) by (simp add: encoder_header_def)
  qed
  have opus: "made =
      (case opus_make dlibs (sf_rate f) (unat (sf_channels f)) of
         Inl err \<Rightarrow> Inl (''failed to create Opus decoder: '' @ err)
       | Inr d \<Rightarrow> Inr (sf_new (sf_rate f) 16 (sf_channels f), OpusDecoder d (sf_new (sf_rate f) 16 (sf_channels f))
           (replicate (MAX_FRAME_SIZE * unat (sf_channels f)) 0)))"
    if c: "ec_codec k = ''opus''"
  proof -
    obtain h st where "enc = OpusEncoder f h st" "opus_header f = Inr h"
      using assms(1,8) by (auto simp: c create_encoder_def Let_def opus_encoder_new_def split: sum.splits)
    with understood_opus assms(9) show ?thesis by simp
  qed
  show ?thesis using pcm f32lz4 flac opus unfolding flac_codec_params_def by blast
qed

text \<open>A client whose FLAC decoder refuses mono and whose Opus decoder refuses everything.\<close>

definition demo_decoder_libs :: "unit codec_libs" where
  "demo_decoder_libs = \<lparr>channels_from_bits = Some, channels_front_left = 1,
     sym_make = (\<lambda>p. if cp_channels p = 1 then Inl ''mono'' else Inr ()), sym_decode = (\<lambda>d n bs. (d, Inl ''none'')),
     opus_make = (\<lambda>r n. Inl ''none''), opus_decode = (\<lambda>d bs buf. (d, buf, Inl ''none'')), float_libs = demo_libs\<rparr>"

text \<open>A FLAC library that writes the header of its parameters.\<close>

definition streaminfo_header :: "flac_params \<Rightarrow> u8 list" where
  "streaminfo_header q =
     (case q of (rate, channels, bits) \<Rightarrow>
        as_bytes ''fLaC'' @ replicate 14 0 @
        [word_of_nat (rate div 2 ^ 12), word_of_nat (rate div 2 ^ 4 mod 2 ^ 8),
         word_of_nat ((rate mod 2 ^ 4) * 2 ^ 4 + (channels - 1) * 2 + (bits - 1) div 2 ^ 4),
         word_of_nat ((bits - 1) mod 2 ^ 4 * 2 ^ 4)] @ replicate 20 0)"

definition header_libs :: "unit enc_libs" where
  "header_libs = demo_enc_libs\<lparr>en_flac := demo_flac\<lparr>fl_header := (\<lambda>q n.
     let h = streaminfo_header q in if streaminfo_layout q h then Inr h else Inl ''unsupported'')\<rparr>\<rparr>"

lemma header_understood_witness:
  "\<exists>enc. create_encoder header_libs \<lparr>ec_codec = ''flac'', ec_format = sf_new 44100 16 2, ec_options = [],
      ec_psk = None\<rparr> = Inr enc \<and>
    client_decoder demo_decoder_libs None (sent_header enc) =
      Inr (sf_new 44100 32 2, FlacDecoder () (sf_new 44100 32 2) 0)"
proof -
  let ?k = "\<lparr>ec_codec = ''flac'', ec_format = sf_new 44100 16 2, ec_options = [], ec_psk = None\<rparr>"
  have "streaminfo_layout (44100, 2, 16) (streaminfo_header (44100, 2, 16))"
    by (simp add: streaminfo_layout_def streaminfo_header_def as_bytes_def nth_append)
  then obtain enc where enc: "create_encoder header_libs ?k = Inr enc"
    by (simp add: create_encoder_def flac_new_def flac_level_def flac_supported_def header_libs_def demo_enc_libs_def
        demo_flac_def flac_params_of_def sf_new_def Let_def)
  have "flac_documented (en_flac header_libs)"
    by (simp add: flac_documented_def header_libs_def demo_enc_libs_def demo_flac_def Let_def)
  then have "client_decoder demo_decoder_libs None (sent_header enc) =
      (case sym_make demo_decoder_libs \<lparr>cp_codec = ''flac'', cp_rate = 44100, cp_bits = Some (ucast (16 :: u16)),
          cp_channels = channel_mask demo_decoder_libs (unat (2 :: u16)), cp_extra = range_at 8 34 (encoder_header enc)\<rparr> of
         Inl err \<Rightarrow> Inl (''failed to create FLAC decoder: '' @ err)
       | Inr d \<Rightarrow> Inr (sf_new 44100 32 2, FlacDecoder d (sf_new 44100 32 2) 0))"
    using header_understood [OF enc, of demo_decoder_libs None "sf_new 44100 16 2"]
    by (simp add: sf_new_def demo_decoder_libs_def header_libs_def demo_enc_libs_def F32LZ4_SALT_LEN_def)
  with enc show ?thesis by (auto simp: demo_decoder_libs_def channel_mask_def)
qed

end
