(* ===== verification/SnapServer.thy ===== *)
theory SnapServer
  imports EncoderProps ServerSteps
begin

text \<open>
  The embeddable server, \<open>SnapServer\<close> of \<open>snapcast-server/src/lib.rs\<close>: its configuration, the streams that
  are added to it, and \<open>serve\<close> up to the point where the sessions and the dispatcher run: the seeding of the
  shared state, one encoder per stream, and the codec headers that sessions will send.
\<close>

definition DEFAULT_BUFFER_MS :: u32 where "DEFAULT_BUFFER_MS = 1000"

record server_config =
  sv_buffer_ms :: u32
  sv_codec :: string
  sv_format :: string
  sv_auth :: "(string \<Rightarrow> string \<Rightarrow> auth_error + auth_result) option"
  sv_filter :: "(hello \<Rightarrow> bool) option"
  sv_psk :: "string option"
  sv_initial :: "server_state option"
  sv_audio_to_muted :: bool

definition default_codec :: string where "default_codec = ''flac''"

definition server_config_default :: server_config where
  "server_config_default =
     \<lparr>sv_buffer_ms = DEFAULT_BUFFER_MS, sv_codec = default_codec, sv_format = DEFAULT_SAMPLE_FORMAT_STRING,
      sv_auth = None, sv_filter = None, sv_psk = None, sv_initial = None, sv_audio_to_muted = False\<rparr>"

record stream_config =
  sc_codec :: "string option"
  sc_format :: "string option"

definition stream_config_default :: stream_config where
  "stream_config_default = \<lparr>sc_codec = None, sc_format = None\<rparr>"

record snap_server =
  sn_config :: server_config
  sn_served :: bool
  sn_streams :: "(string \<times> stream_config) list"

definition snap_server_new :: "server_config \<Rightarrow> snap_server" where
  "snap_server_new k = \<lparr>sn_config = k, sn_served = False, sn_streams = []\<rparr>"

definition add_stream_with_config :: "string \<Rightarrow> stream_config \<Rightarrow> snap_server \<Rightarrow> snap_server" where
  "add_stream_with_config name k s = s\<lparr>sn_streams := sn_streams s @ [(name, k)]\<rparr>"

definition add_stream :: "string \<Rightarrow> snap_server \<Rightarrow> snap_server" where
  "add_stream name s = add_stream_with_config name stream_config_default s"

definition add_f32_stream ::
  "nat \<Rightarrow> string \<Rightarrow> snap_server \<Rightarrow> (sample_format_error + u32 f32_sender) \<times> snap_server" where
  "add_f32_stream now name s =
     (case sf_from_str (sv_format (sn_config s)) of
        Inl e \<Rightarrow> (Inl e, s)
      | Inr f \<Rightarrow> (Inr (fa_new now (sf_rate f) (sf_channels f)),
                  s\<lparr>sn_streams := sn_streams s @ [(name, stream_config_default)]\<rparr>))"

subsection \<open>serve\<close>

text \<open>A stream is listed in the state unless one of that id is.\<close>

definition list_stream :: "string \<Rightarrow> server \<Rightarrow> server" where
  "list_stream name v =
     (if \<exists>x\<in>set (s_streams (v_state v)). si_id x = name then v
      else v\<lparr>v_state := (v_state v)\<lparr>s_streams := s_streams (v_state v) @
             [\<lparr>si_id = name, si_status = ''idle'', si_uri = [], si_properties = (\<lambda>_. None)\<rparr>]\<rparr>\<rparr>)"

definition format_or :: "sample_format \<Rightarrow> string option \<Rightarrow> sample_format" where
  "format_or dflt s = (case s of None \<Rightarrow> dflt | Some s \<Rightarrow> (case sf_from_str s of Inl _ \<Rightarrow> dflt | Inr f \<Rightarrow> f))"

definition default_enc_config :: "server_config \<Rightarrow> encoder_config" where
  "default_enc_config k =
     \<lparr>ec_codec = sv_codec k, ec_format = format_or DEFAULT_SAMPLE_FORMAT (Some (sv_format k)),
      ec_options = [], ec_psk = sv_psk k\<rparr>"

text \<open>The configuration of a stream's encoder.\<close>

definition stream_enc_config :: "server_config \<Rightarrow> stream_config \<Rightarrow> encoder_config" where
  "stream_enc_config k sc =
     (let dflt = default_enc_config k in
      if sc_codec sc = None \<and> sc_format sc = None then dflt
      else \<lparr>ec_codec = (case sc_codec sc of None \<Rightarrow> sv_codec k | Some c \<Rightarrow> c),
            ec_format = format_or (ec_format dflt) (sc_format sc), ec_options = [], ec_psk = sv_psk k\<rparr>)"

text \<open>The loop over the streams; the encoder that was made first goes to the first stream without overrides.\<close>

fun register_streams ::
  "'o enc_libs \<Rightarrow> server_config \<Rightarrow> 'o encoder option \<Rightarrow> (string \<times> stream_config) list \<Rightarrow> server \<Rightarrow>
   string + server \<times> (string \<times> 'o encoder \<times> sample_format) list" where
  "register_streams libs k spare [] v = Inr (v, [])"
| "register_streams libs k spare ((name, sc) # rest) v =
     (let v = list_stream name v;
          plain = (sc_codec sc = None \<and> sc_format sc = None);
          f = ec_format (stream_enc_config k sc) in
      case (if plain \<and> spare \<noteq> None then Inr (the spare) else create_encoder libs (stream_enc_config k sc)) of
        Inl e \<Rightarrow> Inl e
      | Inr enc \<Rightarrow>
          (case register_streams libs k (if plain then None else spare) rest
                  (register_stream_codec name (encoder_name enc) (encoder_header enc) v) of
             Inl e \<Rightarrow> Inl e
           | Inr (v, encs) \<Rightarrow> Inr (v, (name, enc, f) # encs)))"

definition server_start :: "server_config \<Rightarrow> server" where
  "server_start k =
     \<lparr>v_state = (case sv_initial k of None \<Rightarrow> server_state_default | Some s \<Rightarrow> s), v_next = 0,
      v_settings_senders = (\<lambda>_. None), v_custom_senders = (\<lambda>_. None), v_routing_senders = (\<lambda>_. None),
      v_codec_headers = (\<lambda>_. None), v_sessions = (\<lambda>_. None), v_events = []\<rparr>"

definition session_config :: "server_config \<Rightarrow> string \<Rightarrow> config" where
  "session_config k first_stream =
     \<lparr>k_buffer_ms = ucast (sv_buffer_ms k), k_auth = sv_auth k, k_client_filter = sv_filter k,
      k_send_audio_to_muted = sv_audio_to_muted k, k_default_stream = first_stream\<rparr>"

definition serve ::
  "'o enc_libs \<Rightarrow> snap_server \<Rightarrow>
   (string + config \<times> server \<times> (string \<times> 'o encoder \<times> sample_format) list) \<times> snap_server" where
  "serve libs s =
     (let k = sn_config s; streams = sn_streams s in
      if sn_served s then (Inl ''serve() already called'', s)
      else
        let s = s\<lparr>sn_served := True\<rparr> in
        if streams = [] then (Inl (''No streams configured '' @ em_dash @ '' call add_stream() before run()''), s)
        else
          case create_encoder libs (default_enc_config k) of
            Inl e \<Rightarrow> (Inl e, s)
          | Inr enc \<Rightarrow>
              let s = s\<lparr>sn_streams := [], sn_config := k\<lparr>sv_initial := None\<rparr>\<rparr> in
              (case register_streams libs k (Some enc) streams (server_start k) of
                 Inl e \<Rightarrow> (Inl e, s)
               | Inr (v, encs) \<Rightarrow> (Inr (session_config k (fst (hd streams)), v, encs), s)))"

subsection \<open>What serve has prepared\<close>

lemma list_stream_fields [simp]:
  "v_codec_headers (list_stream n v) = v_codec_headers v" "v_sessions (list_stream n v) = v_sessions v"
  "v_next (list_stream n v) = v_next v" "v_settings_senders (list_stream n v) = v_settings_senders v"
  "v_custom_senders (list_stream n v) = v_custom_senders v" "v_routing_senders (list_stream n v) = v_routing_senders v"
  "s_groups (v_state (list_stream n v)) = s_groups (v_state v)"
  "s_clients (v_state (list_stream n v)) = s_clients (v_state v)"
  by (simp_all add: list_stream_def)

lemma server_init_list_stream [simp]: "server_init fresh (list_stream n v) = server_init fresh v"
  by (simp add: server_init_def state_ok_def)

lemma server_init_register [simp]: "server_init fresh (register_stream_codec n c h v) = server_init fresh v"
  by (simp add: server_init_def register_stream_codec_def)

definition stream_ids :: "server \<Rightarrow> string list" where
  "stream_ids v = List.map si_id (s_streams (v_state v))"

lemma stream_ids_list: "stream_ids (list_stream n v) = (if n \<in> set (stream_ids v) then stream_ids v else stream_ids v @ [n])"
  by (auto simp: stream_ids_def list_stream_def)

lemma register_stream_headers [simp]:
  "v_codec_headers (register_stream_codec n c h v) = (v_codec_headers v)(n \<mapsto> \<lparr>ci_codec = c, ci_header = h\<rparr>)"
  by (simp add: register_stream_codec_def)

lemma stream_ids_register [simp]: "stream_ids (register_stream_codec n c h v) = stream_ids v"
  by (simp add: stream_ids_def register_stream_codec_def)

text \<open>The encoder of a stream is one that its configuration creates, and its header is registered under the name
  of the stream, in the place of an earlier one.\<close>

definition made_for :: "'o enc_libs \<Rightarrow> server_config \<Rightarrow> string \<times> stream_config \<Rightarrow> string \<times> 'o encoder \<times> sample_format \<Rightarrow> bool" where
  "made_for libs k stream entry \<longleftrightarrow>
     (case (stream, entry) of
        ((name, sc), (name', enc, f)) \<Rightarrow>
          name' = name \<and> create_encoder libs (stream_enc_config k sc) = Inr enc \<and>
          f = ec_format (stream_enc_config k sc))"

definition header_entry :: "string \<times> 'o encoder \<times> sample_format \<Rightarrow> string \<times> stream_codec_info" where
  "header_entry entry =
     (case entry of (name, enc, f) \<Rightarrow> (name, \<lparr>ci_codec = encoder_name enc, ci_header = encoder_header enc\<rparr>))"

lemma add_header: "m(n \<mapsto> h) ++ map_of xs = m ++ map_of (xs @ [(n, h)])"
  by (auto simp: fun_eq_iff map_add_def split: option.split)

lemma register_streams_all:
  assumes "register_streams libs k spare streams v = Inr (v', encs)"
    and "\<forall>e. spare = Some e \<longrightarrow> create_encoder libs (default_enc_config k) = Inr e"
  shows "list_all2 (made_for libs k) streams encs \<and>
    v_codec_headers v' = v_codec_headers v ++ map_of (rev (List.map header_entry encs)) \<and>
    set (stream_ids v') = set (stream_ids v) \<union> fst ` set streams \<and>
    (distinct (stream_ids v) \<longrightarrow> distinct (stream_ids v')) \<and> server_init fresh v' = server_init fresh v"
  using assms
proof (induction libs k spare streams v arbitrary: v' encs rule: register_streams.induct)
  case (2 libs k spare name sc rest v)
  let ?plain = "sc_codec sc = None \<and> sc_format sc = None"
  let ?r = "if ?plain \<and> spare \<noteq> None then Inr (the spare) else create_encoder libs (stream_enc_config k sc)"
  obtain enc where enc: "?r = Inr enc"
    using "2.prems"(1) by (cases "?r") (auto simp: Let_def split: if_splits)
  have made: "create_encoder libs (stream_enc_config k sc) = Inr enc"
    using enc "2.prems"(2) by (auto simp: stream_enc_config_def Let_def split: if_splits)
  let ?v = "register_stream_codec name (encoder_name enc) (encoder_header enc) (list_stream name v)"
  obtain encs' where rest: "register_streams libs k (if ?plain then None else spare) rest ?v = Inr (v', encs')"
    "encs = (name, enc, ec_format (stream_enc_config k sc)) # encs'"
    using "2.prems"(1) enc by (auto simp: Let_def split: sum.splits prod.splits if_splits)
  have "\<forall>e. (if ?plain then None else spare) = Some e \<longrightarrow> create_encoder libs (default_enc_config k) = Inr e"
    using "2.prems"(2) by auto
  from "2.IH" [OF refl refl refl enc rest(1) this] have IH: "list_all2 (made_for libs k) rest encs'"
    "v_codec_headers v' = v_codec_headers ?v ++ map_of (rev (List.map header_entry encs'))"
    "set (stream_ids v') = set (stream_ids ?v) \<union> fst ` set rest"
    "distinct (stream_ids ?v) \<longrightarrow> distinct (stream_ids v')" "server_init fresh v' = server_init fresh ?v"
    by blast+
  show ?case
  proof (intro conjI)
    show "list_all2 (made_for libs k) ((name, sc) # rest) encs"
      using IH(1) made by (simp add: rest(2) made_for_def)
    show "v_codec_headers v' = v_codec_headers v ++ map_of (rev (List.map header_entry encs))"
      unfolding IH(2) register_stream_headers list_stream_fields add_header
      by (simp only: rest(2) list.map rev.simps header_entry_def prod.case)
    show "set (stream_ids v') = set (stream_ids v) \<union> fst ` set ((name, sc) # rest)"
      using IH(3) by (auto simp: stream_ids_list)
    show "distinct (stream_ids v) \<longrightarrow> distinct (stream_ids v')"
      using IH(4) by (auto simp: stream_ids_list)
    show "server_init fresh v' = server_init fresh v" using IH(5) by simp
  qed
qed simp

lemma list_all2_fst:
  "list_all2 (made_for libs k) streams encs \<Longrightarrow> List.map fst encs = List.map fst streams"
  by (induction rule: list_all2_induct) (auto simp: made_for_def split: prod.splits)

lemma header_names: "List.map fst (List.map header_entry encs) = List.map fst encs"
  by (simp add: header_entry_def case_prod_beta)

lemma map_of_rev_distinct: "distinct (List.map fst xs) \<Longrightarrow> (n, h) \<in> set xs \<Longrightarrow> map_of (rev xs) n = Some h"
  by (rule map_of_is_SomeI) (simp_all add: rev_map [symmetric])

lemma register_streams_spec:
  assumes "register_streams libs k spare streams v = Inr (v', encs)"
    and "\<forall>e. spare = Some e \<longrightarrow> create_encoder libs (default_enc_config k) = Inr e"
    and "distinct (List.map fst streams)"
  shows "list_all2 (\<lambda>(name, sc) (name', enc, f). name' = name \<and> create_encoder libs (stream_enc_config k sc) = Inr enc \<and>
      f = ec_format (stream_enc_config k sc) \<and>
      v_codec_headers v' name = Some \<lparr>ci_codec = encoder_name enc, ci_header = encoder_header enc\<rparr>) streams encs"
proof -
  have all: "list_all2 (made_for libs k) streams encs"
    "v_codec_headers v' = v_codec_headers v ++ map_of (rev (List.map header_entry encs))"
    using register_streams_all [OF assms(1,2), of undefined] by blast+
  have "distinct (List.map fst (List.map header_entry encs))"
    unfolding header_names list_all2_fst [OF all(1)] by (rule assms(3))
  note h = map_of_rev_distinct [OF this]
  have "v_codec_headers v' name = Some \<lparr>ci_codec = encoder_name enc, ci_header = encoder_header enc\<rparr>"
    if "(name, enc, f) \<in> set encs" for name enc f
    using h [of name] that unfolding all(2) by (force simp: header_entry_def map_add_def)
  with all(1) show ?thesis
    by (auto simp: made_for_def list_all2_conv_all_nth split: prod.splits) (metis nth_mem)+
qed

lemma server_start_init:
  assumes "inj fresh" "\<forall>st. sv_initial k = Some st \<longrightarrow> state_ok st \<and> supply_ok fresh 0 (s_groups st)"
  shows "server_init fresh (server_start k)"
  using assms
  by (auto simp: server_init_def server_start_def server_state_default_def state_ok_def groups_ok_def supply_ok_def
      groups_nonempty_def clients_ok_def split: option.split)

text \<open>C9: Once serve has set the server up, every stream that was added has one encoder, made for its own
  configuration or the server's, runs at the format of that configuration, and is listed in the shared state.
  The codec headers that sessions send are those of these encoders, each under the name of its stream: of streams
  that share a name, all but the last have their header replaced by the last one's, and a stream whose name is
  its own has the header of its own encoder.  No other header is known, the default stream has one, and a second
  call is refused.  When the state that the embedder restores is well formed, the server starts in a state from
  which every run of sessions and commands is safe.\<close>

theorem serve_prepares:
  assumes "serve libs s = (Inr (cfg, v, encs), s')"
  shows "list_all2 (\<lambda>(name, sc) (name', enc, f). name' = name \<and> name \<in> set (stream_ids v) \<and>
        create_encoder libs (stream_enc_config (sn_config s) sc) = Inr enc \<and>
        f = ec_format (stream_enc_config (sn_config s) sc)) (sn_streams s) encs \<and>
    v_codec_headers v = map_of (rev (List.map (\<lambda>(name, enc, f).
        (name, \<lparr>ci_codec = encoder_name enc, ci_header = encoder_header enc\<rparr>)) encs)) \<and>
    (distinct (List.map fst (sn_streams s)) \<longrightarrow> (\<forall>(name, enc, f)\<in>set encs.
        v_codec_headers v name = Some \<lparr>ci_codec = encoder_name enc, ci_header = encoder_header enc\<rparr>)) \<and>
    k_default_stream cfg \<in> dom (v_codec_headers v) \<and>
    fst (serve libs s') = Inl ''serve() already called'' \<and>
    (inj fresh \<and> (\<forall>st. sv_initial (sn_config s) = Some st \<longrightarrow> state_ok st \<and> supply_ok fresh 0 (s_groups st)) \<longrightarrow>
      server_init fresh v)"
proof -
  let ?k = "sn_config s"
  obtain enc where enc: "create_encoder libs (default_enc_config ?k) = Inr enc" "sn_streams s \<noteq> []" "sn_served s'"
    "register_streams libs ?k (Some enc) (sn_streams s) (server_start ?k) = Inr (v, encs)"
    "cfg = session_config ?k (fst (hd (sn_streams s)))"
    using assms by (auto simp: serve_def Let_def split: if_splits sum.splits)
  have spec: "list_all2 (made_for libs ?k) (sn_streams s) encs"
    "v_codec_headers v = map_of (rev (List.map header_entry encs))"
    "fst ` set (sn_streams s) \<subseteq> set (stream_ids v)" "server_init fresh v = server_init fresh (server_start ?k)"
    using register_streams_all [OF enc(4), of fresh] enc(1) by (auto simp: server_start_def)
  have entry: "header_entry = (\<lambda>(name, enc, f). (name, \<lparr>ci_codec = encoder_name enc, ci_header = encoder_header enc\<rparr>))"
    by (simp add: header_entry_def fun_eq_iff)
  have "list_all2 (\<lambda>(name, sc) (name', enc, f). name' = name \<and> name \<in> set (stream_ids v) \<and>
        create_encoder libs (stream_enc_config ?k sc) = Inr enc \<and> f = ec_format (stream_enc_config ?k sc))
      (sn_streams s) encs"
    using spec(1) by (rule list.rel_mono_strong) (use spec(3) in \<open>auto simp: made_for_def\<close>)
  moreover have "\<forall>(name, enc, f)\<in>set encs. v_codec_headers v name = Some \<lparr>ci_codec = encoder_name enc, ci_header = encoder_header enc\<rparr>"
    if d: "distinct (List.map fst (sn_streams s))"
  proof -
    have "distinct (List.map fst (List.map header_entry encs))"
      unfolding header_names list_all2_fst [OF spec(1)] by (rule d)
    from map_of_rev_distinct [OF this] show ?thesis unfolding spec(2) by (force simp: header_entry_def)
  qed
  moreover have "fst (hd (sn_streams s)) \<in> dom (v_codec_headers v)"
    using enc(2) list_all2_fst [OF spec(1)] header_names [of encs]
    by (cases "sn_streams s"; cases encs) (auto simp: spec(2) dom_map_of_conv_image_fst)
  ultimately show ?thesis
    using spec(2,4) enc(3) server_start_init [of fresh ?k] by (simp add: entry serve_def enc(5) session_config_def)
qed

definition demo_snap_server :: snap_server where
  "demo_snap_server = add_stream_with_config ''b'' \<lparr>sc_codec = Some ''f32lz4'', sc_format = None\<rparr>
     (add_stream ''a'' (snap_server_new (server_config_default\<lparr>sv_codec := ''pcm''\<rparr>)))"

lemma default_format_read: "sf_from_str ''48000:16:2'' = Inr (sf_new 48000 16 2)"
  by (simp add: sf_from_str_def sf_parse_u32_def sf_parse_u16_def parse_unsigned_def to_digit_def)

lemma serve_prepares_witness:
  "\<exists>cfg v encs s'. serve demo_enc_libs demo_snap_server = (Inr (cfg, v, encs), s') \<and>
     dom (v_codec_headers v) = {''a'', ''b''} \<and> k_default_stream cfg = ''a''"
proof -
  obtain cfg v encs s' where s: "serve demo_enc_libs demo_snap_server = (Inr (cfg, v, encs), s')" "k_default_stream cfg = ''a''"
    by (simp add: demo_snap_server_def add_stream_def add_stream_with_config_def snap_server_new_def serve_def Let_def
        create_encoder_def default_enc_config_def server_config_default_def stream_enc_config_def stream_config_default_def
        session_config_def)
  from serve_prepares [OF s(1)] have h: "v_codec_headers v = map_of (rev (List.map (\<lambda>(name, enc, f).
        (name, \<lparr>ci_codec = encoder_name enc, ci_header = encoder_header enc\<rparr>)) encs))"
    and l: "list_all2 (\<lambda>(name, sc) (name', enc, f). name' = name \<and> name \<in> set (stream_ids v) \<and>
        create_encoder demo_enc_libs (stream_enc_config (sn_config demo_snap_server) sc) = Inr enc \<and>
        f = ec_format (stream_enc_config (sn_config demo_snap_server) sc)) (sn_streams demo_snap_server) encs"
    by blast+
  from l have "List.map fst encs = [''a'', ''b'']"
    by (auto simp: demo_snap_server_def add_stream_def add_stream_with_config_def snap_server_new_def list_all2_Cons1)
  then have "dom (v_codec_headers v) = {''a'', ''b''}"
    using header_names [of encs] by (simp add: h dom_map_of_conv_image_fst header_entry_def [abs_def] flip: set_map)
  with s show ?thesis by blast
qed

end
