(* ===== verification/Config.thy ===== *)
theory Config
  imports SnapServer Rpc
begin

text \<open>
  The configuration of the server program, \<open>snapserver-rs/src/config.rs\<close>: the INI file, the command line that
  overrides it, and the alias that turns encryption on.  The INI library is the parameter \<open>load\<close>, from the
  path to the sections of the file; a section gives the first value of a key and all its values.
\<close>

subsection \<open>INI files\<close>

record ini_props =
  ip_get :: "string \<Rightarrow> string option"
  ip_all :: "string \<Rightarrow> string list"

type_synonym ini_file = "string \<Rightarrow> ini_props option"

definition to_ascii_lowercase :: "string \<Rightarrow> string" where
  "to_ascii_lowercase s =
     List.map (\<lambda>c. let n = of_char c :: nat in if 65 \<le> n \<and> n \<le> 90 then char_of (n + 32) else c) s"

definition ini_str :: "ini_props \<Rightarrow> string \<Rightarrow> string option" where
  "ini_str s key = ip_get s key"

definition ini_uint :: "nat \<Rightarrow> ini_props \<Rightarrow> string \<Rightarrow> nat option" where
  "ini_uint m s key =
     Option.bind (ip_get s key) (\<lambda>v. case parse_unsigned m v of Inl _ \<Rightarrow> None | Inr n \<Rightarrow> Some n)"

definition ini_u16 :: "ini_props \<Rightarrow> string \<Rightarrow> u16 option" where
  "ini_u16 s key = map_option of_nat (ini_uint (2 ^ 16 - 1) s key)"

definition ini_u32 :: "ini_props \<Rightarrow> string \<Rightarrow> u32 option" where
  "ini_u32 s key = map_option of_nat (ini_uint (2 ^ 32 - 1) s key)"

definition ini_bool :: "ini_props \<Rightarrow> string \<Rightarrow> bool option" where
  "ini_bool s key =
     Option.bind (ip_get s key) (\<lambda>v.
       let w = to_ascii_lowercase (trim v) in
       if w \<in> {''true'', ''yes'', ''on'', ''1''} then Some True
       else if w \<in> {''false'', ''no'', ''off'', ''0''} then Some False
       else None)"

definition ini_bind_address :: "ini_props \<Rightarrow> string option" where
  "ini_bind_address s =
     (case ip_get s ''bind_to_address'' of None \<Rightarrow> ip_get s ''bind_address'' | Some v \<Rightarrow> Some v)"

subsection \<open>The configuration\<close>

definition DEFAULT_STREAM_PORT :: u16 where "DEFAULT_STREAM_PORT = 1704"
definition DEFAULT_CONTROL_PORT :: u16 where "DEFAULT_CONTROL_PORT = 1705"
definition DEFAULT_HTTP_PORT :: u16 where "DEFAULT_HTTP_PORT = 1780"
definition DEFAULT_BIND_ADDRESS :: string where "DEFAULT_BIND_ADDRESS = ''0.0.0.0''"
definition DEFAULT_ENCRYPTION_PSK :: string where
  "DEFAULT_ENCRYPTION_PSK = ''snapcast-f32lz4e-default-psk-v1''"
definition CODEC_F32LZ4_ENCRYPTED_ALIAS :: string where "CODEC_F32LZ4_ENCRYPTED_ALIAS = ''f32lz4e''"

record binary_config =
  bc_server :: server_config
  bc_auth :: auth_config
  bc_control_bind :: string
  bc_control_port :: u16
  bc_http_bind :: string
  bc_http_port :: u16
  bc_stream_bind :: string
  bc_stream_port :: u16
  bc_doc_root :: "string option"
  bc_sources :: "string list"

definition auth_config_default :: auth_config where
  "auth_config_default = \<lparr>ac_enabled = False, ac_secret = []\<rparr>"

definition default_sources :: "string list" where
  "default_sources = [''pipe:///tmp/snapfifo?name=default'']"

definition binary_config_default :: binary_config where
  "binary_config_default =
     \<lparr>bc_server = server_config_default, bc_auth = auth_config_default,
      bc_control_bind = DEFAULT_BIND_ADDRESS, bc_control_port = DEFAULT_CONTROL_PORT,
      bc_http_bind = DEFAULT_BIND_ADDRESS, bc_http_port = DEFAULT_HTTP_PORT,
      bc_stream_bind = DEFAULT_BIND_ADDRESS, bc_stream_port = DEFAULT_STREAM_PORT,
      bc_doc_root = None, bc_sources = default_sources\<rparr>"

text \<open>Encryption is asked for by an alias of the codec.\<close>

definition resolve_encryption :: "binary_config \<Rightarrow> binary_config" where
  "resolve_encryption k =
     (let s = bc_server k in
      if sv_codec s = CODEC_F32LZ4_ENCRYPTED_ALIAS then
        k\<lparr>bc_server := s\<lparr>sv_codec := ''f32lz4'',
             sv_psk := (case sv_psk s of None \<Rightarrow> Some DEFAULT_ENCRYPTION_PSK | Some p \<Rightarrow> Some p)\<rparr>\<rparr>
      else k)"

text \<open>A setter runs on the value that was found, if one was.\<close>

definition on_some :: "'a option \<Rightarrow> ('a \<Rightarrow> 'c \<Rightarrow> 'c) \<Rightarrow> 'c \<Rightarrow> 'c" where
  "on_some v set_to c = (case v of None \<Rightarrow> c | Some x \<Rightarrow> set_to x c)"

definition parse_http :: "ini_props \<Rightarrow> binary_config \<Rightarrow> binary_config" where
  "parse_http s k =
     on_some (ini_str s ''doc_root'') (\<lambda>v. bc_doc_root_update (\<lambda>_. Some v))
       (on_some (ini_bind_address s) (\<lambda>v. bc_http_bind_update (\<lambda>_. v))
         (on_some (ini_u16 s ''port'') (\<lambda>v. bc_http_port_update (\<lambda>_. v)) k))"

definition parse_control :: "ini_props \<Rightarrow> binary_config \<Rightarrow> binary_config" where
  "parse_control s k =
     on_some (ini_bind_address s) (\<lambda>v. bc_control_bind_update (\<lambda>_. v))
       (on_some (ini_u16 s ''port'') (\<lambda>v. bc_control_port_update (\<lambda>_. v)) k)"

definition parse_auth :: "ini_props \<Rightarrow> binary_config \<Rightarrow> binary_config" where
  "parse_auth s k =
     on_some (ini_str s ''secret'') (\<lambda>v. bc_auth_update (ac_secret_update (\<lambda>_. v)))
       (on_some (ini_bool s ''enabled'') (\<lambda>v. bc_auth_update (ac_enabled_update (\<lambda>_. v))) k)"

definition parse_streaming :: "ini_props \<Rightarrow> binary_config \<Rightarrow> binary_config" where
  "parse_streaming s k =
     on_some (ini_bind_address s) (\<lambda>v. bc_stream_bind_update (\<lambda>_. v))
       (on_some (ini_u16 s ''port'') (\<lambda>v. bc_stream_port_update (\<lambda>_. v)) k)"

definition parse_stream :: "ini_props \<Rightarrow> binary_config \<Rightarrow> binary_config" where
  "parse_stream s k =
     (let k = (if ip_all s ''source'' = [] then k else k\<lparr>bc_sources := ip_all s ''source''\<rparr>);
          k = on_some (ini_str s ''codec'') (\<lambda>v. bc_server_update (sv_codec_update (\<lambda>_. v))) k;
          k = on_some (ini_str s ''sampleformat'') (\<lambda>v. bc_server_update (sv_format_update (\<lambda>_. v))) k;
          k = on_some (ini_u32 s ''buffer'') (\<lambda>v. bc_server_update (sv_buffer_ms_update (\<lambda>_. v))) k in
      on_some (ini_str s ''encryption_psk'') (\<lambda>v. bc_server_update (sv_psk_update (\<lambda>_. Some v))) k)"

definition parse_config_file :: "(string \<Rightarrow> string + ini_file) \<Rightarrow> string \<Rightarrow> binary_config" where
  "parse_config_file load path =
     (case load path of
        Inl _ \<Rightarrow> binary_config_default
      | Inr ini \<Rightarrow>
          resolve_encryption
            (on_some (ini ''stream'') parse_stream
              (on_some (ini ''tcp-streaming'') parse_streaming
                (on_some (ini ''auth'') parse_auth
                  (on_some (ini ''tcp-control'') parse_control
                    (on_some (ini ''http'') parse_http binary_config_default))))))"

subsection \<open>The command line\<close>

record cli_overrides =
  co_stream_bind :: "string option"
  co_stream_port :: "u16 option"
  co_control_bind :: "string option"
  co_control_port :: "u16 option"
  co_http_bind :: "string option"
  co_http_port :: "u16 option"
  co_doc_root :: "string option"
  co_buffer :: "u32 option"
  co_codec :: "string option"
  co_format :: "string option"
  co_sources :: "string list"
  co_auth_enabled :: bool
  co_auth_secret :: "string option"
  co_psk :: "string option"

definition merge_cli :: "binary_config \<Rightarrow> cli_overrides \<Rightarrow> binary_config" where
  "merge_cli k cli =
     (let k = on_some (co_stream_port cli) (\<lambda>v. bc_stream_port_update (\<lambda>_. v)) k;
          k = on_some (co_stream_bind cli) (\<lambda>v. bc_stream_bind_update (\<lambda>_. v)) k;
          k = on_some (co_control_port cli) (\<lambda>v. bc_control_port_update (\<lambda>_. v)) k;
          k = on_some (co_control_bind cli) (\<lambda>v. bc_control_bind_update (\<lambda>_. v)) k;
          k = on_some (co_http_port cli) (\<lambda>v. bc_http_port_update (\<lambda>_. v)) k;
          k = on_some (co_http_bind cli) (\<lambda>v. bc_http_bind_update (\<lambda>_. v)) k;
          k = on_some (co_doc_root cli) (\<lambda>v. bc_doc_root_update (\<lambda>_. Some v)) k;
          k = on_some (co_buffer cli) (\<lambda>v. bc_server_update (sv_buffer_ms_update (\<lambda>_. v))) k;
          k = on_some (co_codec cli) (\<lambda>v. bc_server_update (sv_codec_update (\<lambda>_. v))) k;
          k = on_some (co_format cli) (\<lambda>v. bc_server_update (sv_format_update (\<lambda>_. v))) k;
          k = (if co_sources cli = [] then k else k\<lparr>bc_sources := co_sources cli\<rparr>);
          k = (if co_auth_enabled cli then bc_auth_update (ac_enabled_update (\<lambda>_. True)) k else k);
          k = on_some (co_auth_secret cli) (\<lambda>v. bc_auth_update (ac_secret_update (\<lambda>_. v))) k;
          k = on_some (co_psk cli) (\<lambda>v. bc_server_update (sv_psk_update (\<lambda>_. Some v))) k in
      resolve_encryption k)"

text \<open>The start of \<open>main\<close>: the file, the command line, and the refusal of authentication without a secret.\<close>

definition startup_config ::
  "(string \<Rightarrow> string + ini_file) \<Rightarrow> string \<Rightarrow> cli_overrides \<Rightarrow> string + binary_config" where
  "startup_config load path cli =
     (let k = merge_cli (parse_config_file load path) cli in
      case auth_config_valid (bc_auth k) of Inl e \<Rightarrow> Inl e | Inr _ \<Rightarrow> Inr k)"

subsection \<open>Which setting is in force\<close>

lemma on_some_simps [simp]: "on_some None f c = c" "on_some (Some v) f c = f v c"
  by (simp_all add: on_some_def)

text \<open>The value of a key in a section of the file, by a reader of values.\<close>

definition file_value :: "string + ini_file \<Rightarrow> string \<Rightarrow> (ini_props \<Rightarrow> 'a option) \<Rightarrow> 'a option" where
  "file_value file section get =
     (case file of Inl _ \<Rightarrow> None | Inr ini \<Rightarrow> Option.bind (ini section) get)"

text \<open>The command line, else the file, else the default.\<close>

definition in_force :: "'a option \<Rightarrow> 'a option \<Rightarrow> 'a \<Rightarrow> 'a" where
  "in_force cli file dflt = (case cli of Some v \<Rightarrow> v | None \<Rightarrow> (case file of Some v \<Rightarrow> v | None \<Rightarrow> dflt))"

lemmas config_defs = merge_cli_def parse_config_file_def parse_http_def parse_control_def parse_auth_def
  parse_streaming_def parse_stream_def resolve_encryption_def on_some_def Let_def

lemma on_some_field: "(\<And>x c. sel (f x c) = sel c) \<Longrightarrow> sel (on_some v f c) = sel c"
  by (cases v) simp_all

lemmas on_some_fields =
  on_some_field [of bc_stream_port]
  on_some_field [of bc_control_port]
  on_some_field [of bc_http_port]
  on_some_field [of bc_stream_bind]
  on_some_field [of bc_control_bind]
  on_some_field [of bc_http_bind]
  on_some_field [of bc_doc_root]
  on_some_field [of bc_sources]
  on_some_field [of "\<lambda>k. sv_codec (bc_server k)"]
  on_some_field [of "\<lambda>k. sv_format (bc_server k)"]
  on_some_field [of "\<lambda>k. sv_psk (bc_server k)"]
  on_some_field [of "\<lambda>k. sv_buffer_ms (bc_server k)"]
  on_some_field [of "\<lambda>k. ac_enabled (bc_auth k)"]
  on_some_field [of "\<lambda>k. ac_secret (bc_auth k)"]

lemma if_field: "sel a = sel b \<Longrightarrow> sel (if c then a else b) = sel b"
  by simp

lemmas if_fields =
  if_field [of bc_stream_port]
  if_field [of bc_control_port]
  if_field [of bc_http_port]
  if_field [of bc_stream_bind]
  if_field [of bc_control_bind]
  if_field [of bc_http_bind]
  if_field [of bc_doc_root]
  if_field [of "\<lambda>k. sv_codec (bc_server k)"]
  if_field [of "\<lambda>k. sv_format (bc_server k)"]
  if_field [of "\<lambda>k. sv_psk (bc_server k)"]
  if_field [of "\<lambda>k. sv_buffer_ms (bc_server k)"]
  if_field [of "\<lambda>k. ac_secret (bc_auth k)"]
  if_distrib [of bc_sources] if_distrib [of "\<lambda>k. ac_enabled (bc_auth k)"]

lemma resolve_encryption_fields [simp]:
  "bc_stream_port (resolve_encryption k) = bc_stream_port k" "bc_control_port (resolve_encryption k) = bc_control_port k"
  "bc_http_port (resolve_encryption k) = bc_http_port k" "bc_stream_bind (resolve_encryption k) = bc_stream_bind k"
  "bc_control_bind (resolve_encryption k) = bc_control_bind k" "bc_http_bind (resolve_encryption k) = bc_http_bind k"
  "bc_doc_root (resolve_encryption k) = bc_doc_root k" "bc_sources (resolve_encryption k) = bc_sources k"
  "bc_auth (resolve_encryption k) = bc_auth k"
  "sv_buffer_ms (bc_server (resolve_encryption k)) = sv_buffer_ms (bc_server k)"
  "sv_format (bc_server (resolve_encryption k)) = sv_format (bc_server k)"
  by (simp_all add: resolve_encryption_def Let_def)

lemma resolve_encryption_codec:
  "sv_codec (bc_server (resolve_encryption k)) =
     (if sv_codec (bc_server k) = ''f32lz4e'' then ''f32lz4'' else sv_codec (bc_server k))"
  "sv_psk (bc_server (resolve_encryption k)) =
     (if sv_codec (bc_server k) = ''f32lz4e'' \<and> sv_psk (bc_server k) = None then Some DEFAULT_ENCRYPTION_PSK
      else sv_psk (bc_server k))"
  by (auto simp: resolve_encryption_def Let_def CODEC_F32LZ4_ENCRYPTED_ALIAS_def split: option.split)

text \<open>A section changes nothing else.\<close>

lemma section_others [simp]:
  "bc_stream_port (parse_http s k) = bc_stream_port k"
  "bc_control_port (parse_http s k) = bc_control_port k"
  "bc_stream_bind (parse_http s k) = bc_stream_bind k"
  "bc_control_bind (parse_http s k) = bc_control_bind k"
  "bc_sources (parse_http s k) = bc_sources k"
  "bc_server (parse_http s k) = bc_server k"
  "bc_auth (parse_http s k) = bc_auth k"
  "bc_stream_port (parse_control s k) = bc_stream_port k"
  "bc_http_port (parse_control s k) = bc_http_port k"
  "bc_stream_bind (parse_control s k) = bc_stream_bind k"
  "bc_http_bind (parse_control s k) = bc_http_bind k"
  "bc_doc_root (parse_control s k) = bc_doc_root k"
  "bc_sources (parse_control s k) = bc_sources k"
  "bc_server (parse_control s k) = bc_server k"
  "bc_auth (parse_control s k) = bc_auth k"
  "bc_stream_port (parse_auth s k) = bc_stream_port k"
  "bc_control_port (parse_auth s k) = bc_control_port k"
  "bc_http_port (parse_auth s k) = bc_http_port k"
  "bc_stream_bind (parse_auth s k) = bc_stream_bind k"
  "bc_control_bind (parse_auth s k) = bc_control_bind k"
  "bc_http_bind (parse_auth s k) = bc_http_bind k"
  "bc_doc_root (parse_auth s k) = bc_doc_root k"
  "bc_sources (parse_auth s k) = bc_sources k"
  "bc_server (parse_auth s k) = bc_server k"
  "bc_control_port (parse_streaming s k) = bc_control_port k"
  "bc_http_port (parse_streaming s k) = bc_http_port k"
  "bc_control_bind (parse_streaming s k) = bc_control_bind k"
  "bc_http_bind (parse_streaming s k) = bc_http_bind k"
  "bc_doc_root (parse_streaming s k) = bc_doc_root k"
  "bc_sources (parse_streaming s k) = bc_sources k"
  "bc_server (parse_streaming s k) = bc_server k"
  "bc_auth (parse_streaming s k) = bc_auth k"
  "bc_stream_port (parse_stream s k) = bc_stream_port k"
  "bc_control_port (parse_stream s k) = bc_control_port k"
  "bc_http_port (parse_stream s k) = bc_http_port k"
  "bc_stream_bind (parse_stream s k) = bc_stream_bind k"
  "bc_control_bind (parse_stream s k) = bc_control_bind k"
  "bc_http_bind (parse_stream s k) = bc_http_bind k"
  "bc_doc_root (parse_stream s k) = bc_doc_root k"
  "bc_auth (parse_stream s k) = bc_auth k"
  by (simp_all add: parse_streaming_def parse_control_def parse_http_def parse_auth_def parse_stream_def Let_def
      on_some_field [of bc_server] on_some_field [of bc_auth] on_some_fields)

text \<open>What the file says.\<close>

lemma section_fields:
  "bc_stream_port (parse_streaming s k) = (case ini_u16 s ''port'' of None \<Rightarrow> bc_stream_port k | Some v \<Rightarrow> v)"
  "bc_stream_bind (parse_streaming s k) = (case ini_bind_address s of None \<Rightarrow> bc_stream_bind k | Some v \<Rightarrow> v)"
  "bc_control_port (parse_control s k) = (case ini_u16 s ''port'' of None \<Rightarrow> bc_control_port k | Some v \<Rightarrow> v)"
  "bc_control_bind (parse_control s k) = (case ini_bind_address s of None \<Rightarrow> bc_control_bind k | Some v \<Rightarrow> v)"
  "bc_http_port (parse_http s k) = (case ini_u16 s ''port'' of None \<Rightarrow> bc_http_port k | Some v \<Rightarrow> v)"
  "bc_http_bind (parse_http s k) = (case ini_bind_address s of None \<Rightarrow> bc_http_bind k | Some v \<Rightarrow> v)"
  "bc_doc_root (parse_http s k) = (case ini_str s ''doc_root'' of None \<Rightarrow> bc_doc_root k | Some v \<Rightarrow> Some v)"
  "ac_enabled (bc_auth (parse_auth s k)) = (case ini_bool s ''enabled'' of None \<Rightarrow> ac_enabled (bc_auth k) | Some v \<Rightarrow> v)"
  "ac_secret (bc_auth (parse_auth s k)) = (case ini_str s ''secret'' of None \<Rightarrow> ac_secret (bc_auth k) | Some v \<Rightarrow> v)"
  "bc_sources (parse_stream s k) = (if ip_all s ''source'' = [] then bc_sources k else ip_all s ''source'')"
  "sv_codec (bc_server (parse_stream s k)) =
     (case ini_str s ''codec'' of None \<Rightarrow> sv_codec (bc_server k) | Some v \<Rightarrow> v)"
  "sv_format (bc_server (parse_stream s k)) =
     (case ini_str s ''sampleformat'' of None \<Rightarrow> sv_format (bc_server k) | Some v \<Rightarrow> v)"
  "sv_buffer_ms (bc_server (parse_stream s k)) =
     (case ini_u32 s ''buffer'' of None \<Rightarrow> sv_buffer_ms (bc_server k) | Some v \<Rightarrow> v)"
  "sv_psk (bc_server (parse_stream s k)) =
     (case ini_str s ''encryption_psk'' of None \<Rightarrow> sv_psk (bc_server k) | Some v \<Rightarrow> Some v)"
  by (simp_all add: parse_streaming_def parse_control_def parse_http_def parse_auth_def parse_stream_def Let_def
      on_some_fields if_fields, simp_all add: on_some_def split: option.split)

text \<open>What the command line leaves of it.\<close>

lemma merge_cli_fields:
  "bc_stream_port (merge_cli k cli) = (case co_stream_port cli of None \<Rightarrow> bc_stream_port k | Some v \<Rightarrow> v)"
  "bc_control_port (merge_cli k cli) = (case co_control_port cli of None \<Rightarrow> bc_control_port k | Some v \<Rightarrow> v)"
  "bc_http_port (merge_cli k cli) = (case co_http_port cli of None \<Rightarrow> bc_http_port k | Some v \<Rightarrow> v)"
  "bc_stream_bind (merge_cli k cli) = (case co_stream_bind cli of None \<Rightarrow> bc_stream_bind k | Some v \<Rightarrow> v)"
  "bc_control_bind (merge_cli k cli) = (case co_control_bind cli of None \<Rightarrow> bc_control_bind k | Some v \<Rightarrow> v)"
  "bc_http_bind (merge_cli k cli) = (case co_http_bind cli of None \<Rightarrow> bc_http_bind k | Some v \<Rightarrow> v)"
  "bc_doc_root (merge_cli k cli) = (case co_doc_root cli of None \<Rightarrow> bc_doc_root k | Some v \<Rightarrow> Some v)"
  "bc_sources (merge_cli k cli) = (if co_sources cli = [] then bc_sources k else co_sources cli)"
  "sv_buffer_ms (bc_server (merge_cli k cli)) =
     (case co_buffer cli of None \<Rightarrow> sv_buffer_ms (bc_server k) | Some v \<Rightarrow> v)"
  "sv_format (bc_server (merge_cli k cli)) = (case co_format cli of None \<Rightarrow> sv_format (bc_server k) | Some v \<Rightarrow> v)"
  "ac_enabled (bc_auth (merge_cli k cli)) \<longleftrightarrow> co_auth_enabled cli \<or> ac_enabled (bc_auth k)"
  "ac_secret (bc_auth (merge_cli k cli)) = (case co_auth_secret cli of None \<Rightarrow> ac_secret (bc_auth k) | Some v \<Rightarrow> v)"
  by (simp_all add: merge_cli_def Let_def on_some_fields if_fields,
      simp_all add: on_some_def split: option.split)

lemma merge_cli_codec:
  fixes k cli
  defines "codec \<equiv> (case co_codec cli of None \<Rightarrow> sv_codec (bc_server k) | Some v \<Rightarrow> v)"
  shows "sv_codec (bc_server (merge_cli k cli)) = (if codec = ''f32lz4e'' then ''f32lz4'' else codec)"
    "sv_psk (bc_server (merge_cli k cli)) =
      (case co_psk cli of Some p \<Rightarrow> Some p | None \<Rightarrow>
         if codec = ''f32lz4e'' \<and> sv_psk (bc_server k) = None then Some DEFAULT_ENCRYPTION_PSK
         else sv_psk (bc_server k))"
  unfolding codec_def
  by (cases "co_codec cli"; cases "co_psk cli";
      simp add: merge_cli_def Let_def resolve_encryption_codec on_some_fields if_fields)+

lemma config_file_fields:
  fixes load path
  defines "k \<equiv> parse_config_file load path" and "file \<equiv> load path"
  shows
  "bc_stream_port k = in_force None (file_value file ''tcp-streaming'' (\<lambda>s. ini_u16 s ''port'')) DEFAULT_STREAM_PORT"
  "bc_control_port k = in_force None (file_value file ''tcp-control'' (\<lambda>s. ini_u16 s ''port'')) DEFAULT_CONTROL_PORT"
  "bc_http_port k = in_force None (file_value file ''http'' (\<lambda>s. ini_u16 s ''port'')) DEFAULT_HTTP_PORT"
  "bc_stream_bind k = in_force None (file_value file ''tcp-streaming'' ini_bind_address) DEFAULT_BIND_ADDRESS"
  "bc_control_bind k = in_force None (file_value file ''tcp-control'' ini_bind_address) DEFAULT_BIND_ADDRESS"
  "bc_http_bind k = in_force None (file_value file ''http'' ini_bind_address) DEFAULT_BIND_ADDRESS"
  "bc_doc_root k =
     in_force None (file_value file ''http'' (\<lambda>s. map_option Some (ini_str s ''doc_root''))) None"
  "bc_sources k = in_force None
     (file_value file ''stream'' (\<lambda>s. if ip_all s ''source'' = [] then None else Some (ip_all s ''source''))) default_sources"
  "sv_buffer_ms (bc_server k) = in_force None (file_value file ''stream'' (\<lambda>s. ini_u32 s ''buffer'')) DEFAULT_BUFFER_MS"
  "sv_format (bc_server k) =
     in_force None (file_value file ''stream'' (\<lambda>s. ini_str s ''sampleformat'')) DEFAULT_SAMPLE_FORMAT_STRING"
  "ac_enabled (bc_auth k) \<longleftrightarrow> file_value file ''auth'' (\<lambda>s. ini_bool s ''enabled'') = Some True"
  "ac_secret (bc_auth k) = in_force None (file_value file ''auth'' (\<lambda>s. ini_str s ''secret'')) []"
  unfolding k_def file_def
  by (cases "load path";
      simp add: parse_config_file_def on_some_fields binary_config_default_def auth_config_default_def
        server_config_default_def in_force_def file_value_def;
      simp add: on_some_def section_fields split: option.split)+

lemma config_file_codec:
  fixes load path
  defines "codec \<equiv> in_force None (file_value (load path) ''stream'' (\<lambda>s. ini_str s ''codec'')) default_codec"
  shows "sv_codec (bc_server (parse_config_file load path)) = (if codec = ''f32lz4e'' then ''f32lz4'' else codec)"
    "sv_psk (bc_server (parse_config_file load path)) =
      in_force None (file_value (load path) ''stream'' (\<lambda>s. map_option Some (ini_str s ''encryption_psk'')))
        (if codec = ''f32lz4e'' then Some DEFAULT_ENCRYPTION_PSK else None)"
  unfolding codec_def
  by (cases "load path";
      simp add: parse_config_file_def resolve_encryption_codec on_some_fields binary_config_default_def
        server_config_default_def default_codec_def in_force_def file_value_def;
      simp add: on_some_def section_fields split: option.split)+

lemma file_value_Some [simp]:
  "file_value file section (\<lambda>s. map_option Some (get s)) = map_option Some (file_value file section get)"
  by (simp add: file_value_def map_option_bind comp_def split: sum.split)

text \<open>C10: a setting of the running server is the command line's, else the file's when it can be read, else the
  default.  The alias f32lz4e never reaches the server; a pre-shared key is in force exactly when one was
  given or the alias was the codec of the file, even one that the command line overrides, or of the command
  line.  A server that asks for tokens has a secret to sign them with.\<close>

theorem config_in_force:
  assumes "startup_config load path cli = Inr k"
  defines "file \<equiv> load path"
  defines "file_codec \<equiv> file_value file ''stream'' (\<lambda>s. ini_str s ''codec'')"
  defines "codec \<equiv> in_force (co_codec cli) file_codec default_codec"
  shows "bc_stream_port k = in_force (co_stream_port cli)
           (file_value file ''tcp-streaming'' (\<lambda>s. ini_u16 s ''port'')) DEFAULT_STREAM_PORT \<and>
    bc_control_port k = in_force (co_control_port cli)
           (file_value file ''tcp-control'' (\<lambda>s. ini_u16 s ''port'')) DEFAULT_CONTROL_PORT \<and>
    bc_http_port k = in_force (co_http_port cli) (file_value file ''http'' (\<lambda>s. ini_u16 s ''port'')) DEFAULT_HTTP_PORT \<and>
    bc_stream_bind k = in_force (co_stream_bind cli) (file_value file ''tcp-streaming'' ini_bind_address) DEFAULT_BIND_ADDRESS \<and>
    bc_control_bind k = in_force (co_control_bind cli) (file_value file ''tcp-control'' ini_bind_address) DEFAULT_BIND_ADDRESS \<and>
    bc_http_bind k = in_force (co_http_bind cli) (file_value file ''http'' ini_bind_address) DEFAULT_BIND_ADDRESS \<and>
    bc_doc_root k = in_force (map_option Some (co_doc_root cli))
           (file_value file ''http'' (\<lambda>s. map_option Some (ini_str s ''doc_root''))) None \<and>
    bc_sources k = in_force (if co_sources cli = [] then None else Some (co_sources cli))
           (file_value file ''stream'' (\<lambda>s. if ip_all s ''source'' = [] then None else Some (ip_all s ''source'')))
           default_sources \<and>
    sv_buffer_ms (bc_server k) = in_force (co_buffer cli)
           (file_value file ''stream'' (\<lambda>s. ini_u32 s ''buffer'')) DEFAULT_BUFFER_MS \<and>
    sv_format (bc_server k) = in_force (co_format cli)
           (file_value file ''stream'' (\<lambda>s. ini_str s ''sampleformat'')) DEFAULT_SAMPLE_FORMAT_STRING \<and>
    sv_codec (bc_server k) = (if codec = ''f32lz4e'' then ''f32lz4'' else codec) \<and>
    sv_psk (bc_server k) = in_force (map_option Some (co_psk cli))
           (file_value file ''stream'' (\<lambda>s. map_option Some (ini_str s ''encryption_psk'')))
           (if file_codec = Some ''f32lz4e'' \<or> codec = ''f32lz4e'' then Some DEFAULT_ENCRYPTION_PSK else None) \<and>
    (ac_enabled (bc_auth k) \<longleftrightarrow> co_auth_enabled cli \<or>
       file_value file ''auth'' (\<lambda>s. ini_bool s ''enabled'') = Some True) \<and>
    ac_secret (bc_auth k) = in_force (co_auth_secret cli)
           (file_value file ''auth'' (\<lambda>s. ini_str s ''secret'')) [] \<and>
    (ac_enabled (bc_auth k) \<longrightarrow> trim (ac_secret (bc_auth k)) \<noteq> [])"
proof -
  have k: "k = merge_cli (parse_config_file load path) cli"
    and auth: "ac_enabled (bc_auth k) \<longrightarrow> trim (ac_secret (bc_auth k)) \<noteq> []"
    using assms(1) by (auto simp: startup_config_def Let_def auth_config_valid_def split: if_splits)
  show ?thesis
    unfolding file_def file_codec_def codec_def
    by (intro conjI; (rule auth | unfold k; simp add: merge_cli_fields merge_cli_codec config_file_fields
        config_file_codec default_codec_def in_force_def split: option.split))
qed

text \<open>A file that asks for encryption, overridden by a plain codec on the command line: encryption stays on.\<close>

definition demo_ini :: "string \<Rightarrow> string + ini_file" where
  "demo_ini path =
     Inr [''stream'' \<mapsto> \<lparr>ip_get = [''codec'' \<mapsto> ''f32lz4e'', ''buffer'' \<mapsto> ''400''], ip_all = (\<lambda>_. [])\<rparr>]"

definition demo_cli :: cli_overrides where
  "demo_cli =
     \<lparr>co_stream_bind = None, co_stream_port = Some 1804, co_control_bind = None, co_control_port = None,
      co_http_bind = None, co_http_port = None, co_doc_root = None, co_buffer = None, co_codec = Some ''f32lz4'',
      co_format = None, co_sources = [], co_auth_enabled = False, co_auth_secret = None, co_psk = None\<rparr>"

lemma config_in_force_witness:
  "\<exists>k. startup_config demo_ini ''/etc/snapserver.conf'' demo_cli = Inr k \<and> bc_stream_port k = 1804 \<and>
    sv_buffer_ms (bc_server k) = 400 \<and> sv_codec (bc_server k) = ''f32lz4'' \<and>
    sv_psk (bc_server k) = Some DEFAULT_ENCRYPTION_PSK"
proof -
  let ?k = "merge_cli (parse_config_file demo_ini ''/etc/snapserver.conf'') demo_cli"
  have "startup_config demo_ini ''/etc/snapserver.conf'' demo_cli = Inr ?k"
    by (simp add: startup_config_def auth_config_valid_def merge_cli_fields config_file_fields demo_ini_def demo_cli_def
        file_value_def)
  with config_in_force [OF this] show ?thesis
    by (simp add: demo_cli_def demo_ini_def in_force_def file_value_def ini_str_def ini_u32_def ini_uint_def
        parse_unsigned_def to_digit_def)
qed

end
