(* ===== verification/Cli.thy ===== *)
theory Cli
  imports Player Uri Config
begin

text \<open>
  The command line of the client program, \<open>snapclient-rs/src/cli.rs\<close>, the settings of
  \<open>snapcast-client/src/config.rs\<close> that it fills, and what \<open>main.rs\<close> makes of them.  Paths are strings.  The
  base64 library, the fork of the process and the mDNS browser are parameters.
\<close>

subsection \<open>Settings\<close>

record connect_settings =
  ct_scheme :: string
  ct_host :: string
  ct_port :: u16
  ct_auth :: "auth option"
  ct_server_certificate :: "string option"
  ct_certificate :: "string option"
  ct_certificate_key :: "string option"
  ct_key_password :: "string option"

definition connect_settings_default :: connect_settings where
  "connect_settings_default =
     \<lparr>ct_scheme = ''tcp'', ct_host = [], ct_port = DEFAULT_STREAM_PORT, ct_auth = None, ct_server_certificate = None,
      ct_certificate = None, ct_certificate_key = None, ct_key_password = None\<rparr>"

datatype mixer_mode = SoftwareMode | HardwareMode | ScriptMode | NoMode

record mixer_settings =
  mx_mode :: mixer_mode
  mx_parameter :: string

record pcm_device =
  pd_idx :: int
  pd_name :: string
  pd_description :: string

definition pcm_device_default :: pcm_device where
  "pcm_device_default = \<lparr>pd_idx = - 1, pd_name = ''default'', pd_description = []\<rparr>"

record player_settings =
  py_name :: string
  py_parameter :: string
  py_latency :: i32
  py_device :: pcm_device
  py_format :: sample_format
  py_mixer :: mixer_settings

record logging_settings =
  lo_sink :: string
  lo_filter :: string

record daemon_settings =
  dm_priority :: "int option"
  dm_user :: "string option"

record cli_settings =
  ct_instance :: u32
  ct_host_id :: string
  ct_server :: connect_settings
  ct_player :: player_settings
  ct_logging :: logging_settings
  ct_daemon :: "daemon_settings option"

subsection \<open>URLs\<close>

definition cli_parse_port :: "string \<Rightarrow> string + u16" where
  "cli_parse_port s =
     (if s = [] then Inl ''missing port''
      else case parse_unsigned (2 ^ 16 - 1) s of
        Inl _ \<Rightarrow> Inl (''invalid port: '' @ s)
      | Inr n \<Rightarrow> Inr (of_nat n))"

definition parse_host_port :: "string \<Rightarrow> u16 \<Rightarrow> string + string \<times> u16" where
  "parse_host_port input default_port =
     (if input = [] then Inl ''missing host''
      else case strip_prefix ''['' input of
        Some stripped \<Rightarrow>
          (case split_once CHR '']'' stripped of
             None \<Rightarrow> Inl (''invalid IPv6 host, missing closing '' @ [CHR 0x27] @ '']'' @ [CHR 0x27])
           | Some (host, tail) \<Rightarrow>
               if host = [] then Inl ''missing IPv6 host''
               else if tail = [] then Inr (host, default_port)
               else (case strip_prefix '':'' tail of
                       None \<Rightarrow> Inl (''invalid IPv6 host suffix: '' @ tail)
                     | Some port \<Rightarrow> map_sum id (\<lambda>n. (host, n)) (cli_parse_port port)))
      | None \<Rightarrow>
          let colons = length (filter (\<lambda>c. c = CHR '':'') input) in
          if colons = 1 then
            (case rsplit_once CHR '':'' input of
               None \<Rightarrow> Inl []
             | Some (host, port) \<Rightarrow>
                 if host = [] then Inl ''missing host'' else map_sum id (\<lambda>n. (host, n)) (cli_parse_port port))
          else if colons = 0 \<or> is_ipv6 input then Inr (input, default_port)
          else Inl (''ambiguous IPv6 address with port '' @ from_bytes [0xE2, 0x80, 0x94] @
                 '' use bracket notation: tcp://['' @ input @ '']:port''))"

definition parse_url :: "(string \<Rightarrow> string) \<Rightarrow> string \<Rightarrow> string + connect_settings" where
  "parse_url base64 url =
     (case split_once_str ''://'' url of
        None \<Rightarrow> Inl (''invalid URL, expected <scheme>://<host>[:port]: '' @ url)
      | Some (scheme, rest) \<Rightarrow>
          if scheme = ''ws'' \<or> scheme = ''wss'' then
            Inl ''websocket audio transport is not supported yet; use tcp://''
          else if scheme \<noteq> ''tcp'' then Inl (''unsupported scheme: '' @ scheme @ '' (expected tcp)'')
          else
            (case (case rsplit_once CHR ''@'' rest of
                     None \<Rightarrow> Inr (None, rest)
                   | Some (userinfo, host) \<Rightarrow>
                       (case split_once CHR '':'' userinfo of
                          None \<Rightarrow> Inl ''invalid credentials, expected user:password@host''
                        | Some (user, password) \<Rightarrow>
                            Inr (Some \<lparr>au_scheme = ''Basic'', au_param = base64 (user @ '':'' @ password)\<rparr>, host))) of
               Inl e \<Rightarrow> Inl e
             | Inr (auth, rest) \<Rightarrow>
                 (case parse_host_port rest DEFAULT_STREAM_PORT of
                    Inl e \<Rightarrow> Inl e
                  | Inr (host, port) \<Rightarrow>
                      Inr (connect_settings_default\<lparr>ct_scheme := scheme, ct_auth := auth, ct_host := host,
                             ct_port := port\<rparr>))))"

subsection \<open>Arguments\<close>

record client_args =
  ca_url :: "string option"
  ca_instance :: u32
  ca_host_id :: string
  ca_certificate :: "string option"
  ca_certificate_key :: "string option"
  ca_key_password :: "string option"
  ca_server_certificate :: "string option option"
  ca_list :: bool
  ca_soundcard :: string
  ca_latency :: i32
  ca_sampleformat :: "string option"
  ca_player :: string
  ca_mixer :: string
  ca_daemon :: "int option option"
  ca_user :: "string option"
  ca_logsink :: string
  ca_logfilter :: string
  ca_psk :: "string option"

text \<open>The arguments when none is given.\<close>

definition client_args_default :: client_args where
  "client_args_default =
     \<lparr>ca_url = None, ca_instance = 1, ca_host_id = [], ca_certificate = None, ca_certificate_key = None,
      ca_key_password = None, ca_server_certificate = None, ca_list = False, ca_soundcard = ''default'',
      ca_latency = 0, ca_sampleformat = None, ca_player = [], ca_mixer = ''software'', ca_daemon = None,
      ca_user = None, ca_logsink = ''stdout'', ca_logfilter = ''*:info'', ca_psk = None\<rparr>"

definition tls_settings :: "client_args \<Rightarrow> connect_settings \<Rightarrow> connect_settings" where
  "tls_settings a s =
     (let s = (case ca_certificate a of None \<Rightarrow> s | c \<Rightarrow> s\<lparr>ct_certificate := c\<rparr>);
          s = (case ca_certificate_key a of None \<Rightarrow> s | k \<Rightarrow> s\<lparr>ct_certificate_key := k\<rparr>);
          s = (case ca_key_password a of None \<Rightarrow> s | p \<Rightarrow> s\<lparr>ct_key_password := p\<rparr>) in
      case ca_server_certificate a of
        None \<Rightarrow> s
      | Some None \<Rightarrow> s\<lparr>ct_server_certificate := Some []\<rparr>
      | Some (Some c) \<Rightarrow> s\<lparr>ct_server_certificate := Some c\<rparr>)"

definition parse_mixer_mode :: "string \<Rightarrow> string + mixer_mode" where
  "parse_mixer_mode s =
     (if s = ''software'' then Inr SoftwareMode
      else if s = ''hardware'' then Inr HardwareMode
      else if s = ''script'' then Inr ScriptMode
      else if s = ''none'' then Inr NoMode
      else Inl (''unknown mixer mode: '' @ s))"

text \<open>A name and what follows its first colon.\<close>

definition name_param :: "string \<Rightarrow> string \<times> string" where
  "name_param s = (case split_once CHR '':'' s of None \<Rightarrow> (s, []) | Some p \<Rightarrow> p)"

definition into_settings :: "(string \<Rightarrow> string) \<Rightarrow> client_args \<Rightarrow> string + cli_settings" where
  "into_settings base64 a =
     (case parse_url base64 (case ca_url a of None \<Rightarrow> ''tcp://_snapcast._tcp'' | Some u \<Rightarrow> u) of
        Inl e \<Rightarrow> Inl e
      | Inr server \<Rightarrow>
          (case (case ca_sampleformat a of
                   None \<Rightarrow> Inr sf_default
                 | Some sf \<Rightarrow> (case sf_from_str sf of Inl _ \<Rightarrow> Inl (''invalid sample format: '' @ sf) | Inr f \<Rightarrow> Inr f)) of
             Inl e \<Rightarrow> Inl e
           | Inr format \<Rightarrow>
               (case parse_mixer_mode (fst (name_param (ca_mixer a))) of
                  Inl e \<Rightarrow> Inl e
                | Inr mode \<Rightarrow>
                    Inr \<lparr>ct_instance = ca_instance a, ct_host_id = ca_host_id a, ct_server = tls_settings a server,
                         ct_player =
                           \<lparr>py_name = fst (name_param (ca_player a)), py_parameter = snd (name_param (ca_player a)),
                            py_latency = ca_latency a, py_device = pcm_device_default\<lparr>pd_name := ca_soundcard a\<rparr>,
                            py_format = format,
                            py_mixer = \<lparr>mx_mode = mode, mx_parameter = snd (name_param (ca_mixer a))\<rparr>\<rparr>,
                         ct_logging = \<lparr>lo_sink = ca_logsink a, lo_filter = ca_logfilter a\<rparr>,
                         ct_daemon = map_option (\<lambda>p. \<lparr>dm_priority = Some (case p of None \<Rightarrow> - 3 | Some p \<Rightarrow> p),
                                                       dm_user = ca_user a\<rparr>) (ca_daemon a)\<rparr>)))"

subsection \<open>The log\<close>

text \<open>The filter of the log, in the syntax of the tracing library; \<open>lower\<close> is \<open>str::to_lowercase\<close>.\<close>

definition log_module :: "string \<Rightarrow> string" where
  "log_module t =
     (if t = ''stream'' \<or> t = ''stats'' \<or> t = ''latency'' then ''snapclient_rs::stream''
      else if t = ''controller'' then ''snapclient_rs::controller''
      else if t = ''connection'' then ''snapclient_rs::connection''
      else if t = ''timeprovider'' then ''snapclient_rs::time_provider''
      else if t \<in> {''player'', ''coreaudioplayer'', ''alsaplayer'', ''pulseplayer''} then ''snapclient_rs::player''
      else if t = ''flac'' \<or> t = ''flacdecoder'' then ''snapclient_rs::decoder::flac''
      else if t = ''opus'' \<or> t = ''opusdecoder'' then ''snapclient_rs::decoder::opus''
      else if t = ''ogg'' \<or> t = ''oggdecoder'' then ''snapclient_rs::decoder::vorbis''
      else t)"

definition convert_part :: "(string \<Rightarrow> string) \<Rightarrow> string \<Rightarrow> string" where
  "convert_part lower part =
     (let (tag, level) = (case split_once CHR '':'' part of None \<Rightarrow> (part, ''info'') | Some p \<Rightarrow> p);
          level = (if level = ''fatal'' then ''error'' else if level = ''warning'' then ''warn''
                   else if level = ''notice'' then ''info'' else level) in
      if tag = ''*'' then level else log_module (lower tag) @ ''='' @ level)"

fun join_commas :: "string list \<Rightarrow> string" where
  "join_commas [] = []"
| "join_commas [s] = s"
| "join_commas (s # ss) = s @ '','' @ join_commas ss"

definition convert_filter :: "(string \<Rightarrow> string) \<Rightarrow> string \<Rightarrow> string" where
  "convert_filter lower f = join_commas (List.map (convert_part lower) (split_on CHR '','' f))"

text \<open>The error of opening the sink, if any; \<open>open_error\<close> is the one of opening a file.\<close>

definition log_init :: "(string \<Rightarrow> string option) \<Rightarrow> string \<Rightarrow> string option" where
  "log_init open_error sink =
     (if sink \<in> {''null'', ''stdout'', [], ''stderr'', ''system''} then None
      else case strip_prefix ''file:'' sink of
        Some path \<Rightarrow> map_option (\<lambda>e. ''failed to open log file '' @ path @ '': '' @ e) (open_error path)
      | None \<Rightarrow> Some (''invalid log sink: '' @ sink @ '' (expected stdout|stderr|null|system|file:<path>)''))"

subsection \<open>The program\<close>

text \<open>Becoming a daemon: the calls to the system, and whether the process goes on.  \<open>pid\<close> is what \<open>fork\<close>
  returns.\<close>

datatype os_call = SetPriority int | ForkProcess | SetSid

definition daemonize :: "int \<Rightarrow> daemon_settings \<Rightarrow> os_call list \<times> (string + bool)" where
  "daemonize pid d =
     (let calls = (case dm_priority d of None \<Rightarrow> [] | Some p \<Rightarrow> [SetPriority (clamp_int (- 20) 19 p)]) @ [ForkProcess] in
      if pid < 0 then (calls, Inl ''fork failed'')
      else if 0 < pid then (calls, Inr False)
      else (calls @ [SetSid], Inr True))"

definition discover_host :: "(string + string \<times> u16) \<Rightarrow> cli_settings \<Rightarrow> string + cli_settings" where
  "discover_host mdns s =
     (if ct_host (ct_server s) = [] then
        (case mdns of
           Inl e \<Rightarrow> Inl (''mDNS discovery failed: '' @ e)
         | Inr (host, port) \<Rightarrow> Inr (s\<lparr>ct_server := (ct_server s)\<lparr>ct_host := host, ct_port := port\<rparr>\<rparr>))
      else Inr s)"

definition mixer_str :: "cli_settings \<Rightarrow> string" where
  "mixer_str s =
     (case mx_mode (py_mixer (ct_player s)) of
        SoftwareMode \<Rightarrow> ''software''
      | HardwareMode \<Rightarrow> ''hardware:'' @ mx_parameter (py_mixer (ct_player s))
      | NoMode \<Rightarrow> ''none''
      | ScriptMode \<Rightarrow> ''software'')"

definition main_config :: "cli_settings \<Rightarrow> string option \<Rightarrow> client_conf" where
  "main_config s psk =
     client_conf_default\<lparr>cs_scheme := ct_scheme (ct_server s), cs_host := ct_host (ct_server s),
       cs_port := ct_port (ct_server s), cs_auth := ct_auth (ct_server s),
       cs_psk := Some (case psk of None \<Rightarrow> DEFAULT_ENCRYPTION_PSK | Some p \<Rightarrow> p),
       cs_instance := ct_instance s, cs_host_id := ct_host_id s, cs_latency := py_latency (ct_player s)\<rparr>"

text \<open>The configuration and the mixer that the client runs with; None when the process ends without it.\<close>

definition client_main ::
  "(string \<Rightarrow> string) \<Rightarrow> (string \<Rightarrow> string option) \<Rightarrow> int \<Rightarrow> (string + string \<times> u16) \<Rightarrow> string option \<Rightarrow>
   client_args \<Rightarrow> os_call list \<times> (string + (client_conf \<times> mixer) option)" where
  "client_main base64 open_error pid mdns detect a =
     (case log_init open_error (ca_logsink a) of
        Some e \<Rightarrow> ([], Inl e)
      | None \<Rightarrow>
      if ca_list a then ([], Inr None)
      else case into_settings base64 a of
        Inl e \<Rightarrow> ([], Inl e)
      | Inr s \<Rightarrow>
          (case (case ct_daemon s of None \<Rightarrow> ([], Inr True) | Some d \<Rightarrow> daemonize pid d) of
             (calls, Inl e) \<Rightarrow> (calls, Inl e)
           | (calls, Inr False) \<Rightarrow> (calls, Inr None)
           | (calls, Inr True) \<Rightarrow>
               (calls, map_sum id (\<lambda>s. Some (main_config s (ca_psk a), mixer_from_str detect (mixer_str s)))
                         (discover_host mdns s))))"

subsection \<open>What the address may be\<close>

lemma host_never_empty [simp]: "parse_host_port input port \<noteq> Inr ([], n)"
  by (auto simp: parse_host_port_def Let_def map_sum_def split: if_splits option.splits sum.splits)

lemma parse_url_host: "parse_url base64 url = Inr s \<Longrightarrow> ct_host s \<noteq> []"
  by (auto simp: parse_url_def split: if_splits option.splits sum.splits)

lemma tls_settings_same [simp]:
  "ct_host (tls_settings a s) = ct_host s" "ct_port (tls_settings a s) = ct_port s"
  "ct_scheme (tls_settings a s) = ct_scheme s" "ct_auth (tls_settings a s) = ct_auth s"
  by (simp_all add: tls_settings_def Let_def split: option.split)

lemma into_settings_server:
  "into_settings base64 a = Inr s \<Longrightarrow>
     \<exists>c. parse_url base64 (case ca_url a of None \<Rightarrow> ''tcp://_snapcast._tcp'' | Some u \<Rightarrow> u) = Inr c \<and>
       ct_server s = tls_settings a c"
  by (auto simp: into_settings_def split: sum.splits)

lemma default_url: "parse_url base64 ''tcp://_snapcast._tcp'' = Inr (connect_settings_default\<lparr>ct_host := ''_snapcast._tcp''\<rparr>)"
  by (simp add: parse_url_def parse_host_port_def rsplit_once_def connect_settings_default_def)

text \<open>C36: the client never looks for a server: it browses only for an empty host, and no address, nor the
  default that stands for browsing, is read as one.  So a client that starts would do the same
  whatever mDNS answered, and without an address the client connects to the host name of the service type.\<close>

theorem client_never_discovers:
  assumes "client_main base64 open_error pid mdns detect a = (calls, Inr (Some (conf, m)))"
  shows "client_main base64 open_error pid mdns' detect a = (calls, Inr (Some (conf, m))) \<and> cs_host conf \<noteq> [] \<and>
    (ca_url a = None \<longrightarrow> cs_host conf = ''_snapcast._tcp'' \<and> cs_port conf = 1704)"
proof -
  have d: "discover_host x s = Inr s" "ct_host (ct_server s) \<noteq> []"
    "ca_url a = None \<Longrightarrow> ct_host (ct_server s) = ''_snapcast._tcp'' \<and> ct_port (ct_server s) = 1704"
    if "into_settings base64 a = Inr s" for x s
    using into_settings_server [OF that] parse_url_host
    by (auto simp: discover_host_def default_url connect_settings_default_def DEFAULT_STREAM_PORT_def)
  then have "client_main base64 open_error pid mdns' detect a = client_main base64 open_error pid mdns detect a"
    by (auto simp: client_main_def split: option.split sum.split bool.split)
  moreover have "cs_host conf \<noteq> [] \<and> (ca_url a = None \<longrightarrow> cs_host conf = ''_snapcast._tcp'' \<and> cs_port conf = 1704)"
    using assms d
    by (auto simp: client_main_def main_config_def client_conf_default_def
        split: option.splits sum.splits bool.splits if_splits prod.splits)
  ultimately show ?thesis using assms by simp
qed

text \<open>A server address written with all its parts.\<close>

definition print_host :: "string \<Rightarrow> string" where
  "print_host h = (if CHR '':'' \<in> set h then ''['' @ h @ '']'' else h)"

definition print_server ::
  "(string \<times> string) option \<Rightarrow> string \<Rightarrow> u16 option \<Rightarrow> string" where
  "print_server cred h port =
     ''tcp'' @ ''://'' @ (case cred of None \<Rightarrow> [] | Some (u, p) \<Rightarrow> u @ '':'' @ p @ ''@'') @ print_host h @
     (case port of None \<Rightarrow> [] | Some n \<Rightarrow> '':'' @ show_nat (unat n))"

lemma show_nat_plain: "to_digit c = None \<Longrightarrow> c \<notin> set (show_nat n)"
  using show_nat_digits [of n] by force

lemma cli_parse_port_show: "cli_parse_port (show_nat (unat (n :: u16))) = Inr n"
proof -
  have "unat n < 2 ^ 16" using unsigned_less [of n] by simp
  then show ?thesis by (simp add: cli_parse_port_def)
qed

lemma parse_host_port_print:
  assumes "h \<noteq> []" "hd h \<noteq> CHR ''[''" "CHR '']'' \<notin> set h"
  shows "parse_host_port (print_host h @ (case port of None \<Rightarrow> [] | Some n \<Rightarrow> '':'' @ show_nat (unat n))) dflt =
    Inr (h, case port of None \<Rightarrow> dflt | Some n \<Rightarrow> n)"
proof (cases "CHR '':'' \<in> set h")
  case True
  then show ?thesis
    using assms by (cases port) (simp_all add: print_host_def parse_host_port_def cli_parse_port_show)
next
  case False
  have "strip_prefix ''['' (h @ r) = None" "strip_prefix ''['' h = None" for r using assms(1,2) by (cases h; auto)+
  moreover have "filter (\<lambda>c. c = CHR '':'') h = []" "filter (\<lambda>c. c = CHR '':'') (show_nat n) = []" for n
    using False show_nat_plain [of "CHR '':''" n] by (auto simp: filter_empty_conv to_digit_def)
  moreover have "rsplit_once CHR '':'' (h @ CHR '':'' # show_nat n) = Some (h, show_nat n)" for n
    using show_nat_plain [of "CHR '':''" n] by (simp add: rsplit_once_Some to_digit_def)
  ultimately show ?thesis
    using False assms(1) by (cases port) (simp_all add: print_host_def parse_host_port_def cli_parse_port_show)
qed

text \<open>C23: an address written with its parts is read back as them: the credentials, whose user holds no colon
  and whose password may hold anything, the host, in brackets when it is an IPv6 address, and the port,
  1704 when it is left out.\<close>

theorem server_url_roundtrip:
  assumes "h \<noteq> []" "set h \<inter> set ''[]@'' = {}" "\<forall>(u, p)\<in>set_option cred. CHR '':'' \<notin> set u"
  shows "parse_url base64 (print_server cred h port) =
    Inr (connect_settings_default\<lparr>ct_auth := map_option (\<lambda>(u, p). \<lparr>au_scheme = ''Basic'',
                                    au_param = base64 (u @ '':'' @ p)\<rparr>) cred,
           ct_host := h, ct_port := (case port of None \<Rightarrow> 1704 | Some n \<Rightarrow> n)\<rparr>)"
proof -
  let ?addr = "print_host h @ (case port of None \<Rightarrow> [] | Some n \<Rightarrow> '':'' @ show_nat (unat n))"
  have "hd h \<noteq> CHR ''[''" "CHR '']'' \<notin> set h" "CHR ''@'' \<notin> set h" using assms(1,2) by (cases h; auto)+
  note hp = parse_host_port_print [OF assms(1) this(1,2), of port DEFAULT_STREAM_PORT, unfolded DEFAULT_STREAM_PORT_def]
  have at: "CHR ''@'' \<notin> set ?addr"
    using \<open>CHR ''@'' \<notin> set h\<close> show_nat_plain [of "CHR ''@''"]
    by (auto simp: print_host_def to_digit_def split: option.split)
  show ?thesis
  proof (cases cred)
    case None
    moreover have "rsplit_once CHR ''@'' ?addr = None"
      using at by (simp add: rsplit_once_def split_once_None)
    ultimately show ?thesis
      using hp by (simp add: print_server_def parse_url_def connect_settings_default_def DEFAULT_STREAM_PORT_def)
  next
    case (Some up)
    obtain u p where up: "up = (u, p)" by (cases up)
    have "rsplit_once CHR ''@'' ((u @ '':'' @ p) @ CHR ''@'' # ?addr) = Some (u @ '':'' @ p, ?addr)"
      using at by (simp only: rsplit_once_Some simp_thms)
    moreover have "split_once CHR '':'' (u @ '':'' @ p) = Some (u, p)" using assms(3) Some up by simp
    ultimately show ?thesis
      using hp by (simp add: Some up print_server_def parse_url_def connect_settings_default_def DEFAULT_STREAM_PORT_def)
  qed
qed

lemma server_url_roundtrip_witness:
  "parse_url id ''tcp://ann:s3c:r@t@[::1]:1800'' =
    Inr (connect_settings_default\<lparr>ct_auth := Some \<lparr>au_scheme = ''Basic'', au_param = ''ann:s3c:r@t''\<rparr>,
           ct_host := ''::1'', ct_port := 1800\<rparr>)"
proof -
  have "print_server (Some (''ann'', ''s3c:r@t'')) ''::1'' (Some 1800) = ''tcp://ann:s3c:r@t@[::1]:1800''"
    by code_simp
  moreover have "parse_url id (print_server (Some (''ann'', ''s3c:r@t'')) ''::1'' (Some 1800)) =
      Inr (connect_settings_default\<lparr>ct_auth := map_option (\<lambda>(u, p). \<lparr>au_scheme = ''Basic'', au_param = id (u @ '':'' @ p)\<rparr>)
             (Some (''ann'', ''s3c:r@t'')), ct_host := ''::1'', ct_port := (case Some 1800 of None \<Rightarrow> 1704 | Some n \<Rightarrow> n)\<rparr>)"
    by (rule server_url_roundtrip) simp_all
  ultimately show ?thesis by simp
qed

lemma client_never_discovers_witness:
  "\<exists>conf m. client_main id (\<lambda>_. None) 0 (Inr (''192.168.1.9'', 1704)) None client_args_default = ([], Inr (Some (conf, m))) \<and>
    cs_host conf = ''_snapcast._tcp''"
proof -
  obtain conf m where c: "client_main id (\<lambda>_. None) 0 (Inr (''192.168.1.9'', 1704)) None client_args_default =
      ([], Inr (Some (conf, m)))"
    by (simp add: client_main_def log_init_def client_args_default_def into_settings_def default_url
        parse_mixer_mode_def name_param_def discover_host_def connect_settings_default_def)
  with client_never_discovers [OF c] show ?thesis by (simp add: client_args_default_def)
qed

end
