(* ===== verification/Sources.thy ===== *)
theory Sources
  imports Uri Config
begin

text \<open>
  The stream sources of the server program: the readers of \<open>snapserver-rs/src/stream\<close> and the loop of
  \<open>main.rs\<close> that starts them.  Files, pipes, sockets and child processes are the bytes they yield until they
  end; a round is one opening of the source, with the clock readings (microseconds) of its opening and its
  end.  The audio channel takes \<open>limit\<close> frames before its receiver is dropped (None: never).  None is a panic
  or a reader that never returns.
\<close>

subsection \<open>The loop of every reader\<close>

datatype pump_end = SourceEnded | TxClosed

partial_function (option) pump_loop ::
  "nat option \<Rightarrow> nat \<Rightarrow> nat \<Rightarrow> u8 list \<Rightarrow> chunk_timestamper \<Rightarrow> u32 audio_frame list \<Rightarrow>
   (pump_end \<times> chunk_timestamper \<times> u32 audio_frame list) option" where
  "pump_loop limit frames bytes inp t sent =
     (if length inp < bytes then Some (SourceEnded, t, sent)
      else
        (case ts_next (frames mod 2 ^ 32) t of
           None \<Rightarrow> None
         | Some (stamp, t) \<Rightarrow>
             if (case limit of None \<Rightarrow> False | Some n \<Rightarrow> n \<le> length sent) then Some (TxClosed, t, sent)
             else pump_loop limit frames bytes (drop bytes inp) t
                    (sent @ [\<lparr>af_data = Pcm (take bytes inp), af_timestamp = stamp\<rparr>])))"

text \<open>An interval of length zero panics.\<close>

definition pump_pcm ::
  "nat option \<Rightarrow> nat \<Rightarrow> nat \<Rightarrow> nat option \<Rightarrow> u8 list \<Rightarrow> chunk_timestamper \<Rightarrow> u32 audio_frame list \<Rightarrow>
   (pump_end \<times> chunk_timestamper \<times> u32 audio_frame list) option" where
  "pump_pcm limit frames bytes interval inp t sent =
     (if interval = Some 0 then None else pump_loop limit frames bytes inp t sent)"

subsection \<open>Readers\<close>

record source_round =
  so_opened :: bool
  so_at :: int
  so_bytes :: "u8 list"
  so_end :: int

text \<open>A named pipe: a new timestamper at every opening.\<close>

fun pipe_reader ::
  "nat option \<Rightarrow> u32 \<Rightarrow> nat \<Rightarrow> nat \<Rightarrow> source_round list \<Rightarrow> u32 audio_frame list \<Rightarrow> u32 audio_frame list option" where
  "pipe_reader limit rate frames bytes [] sent = Some sent"
| "pipe_reader limit rate frames bytes (r # rs) sent =
     (if \<not> so_opened r then pipe_reader limit rate frames bytes rs sent
      else
        (case pump_pcm limit frames bytes None (so_bytes r) (ts_new (so_at r) rate) sent of
           None \<Rightarrow> None
         | Some (TxClosed, t, sent) \<Rightarrow> Some sent
         | Some (SourceEnded, t, sent) \<Rightarrow> pipe_reader limit rate frames bytes rs sent))"

text \<open>The reader of a file takes the first four bytes for the start of a WAV header.\<close>

definition file_audio :: "u8 list \<Rightarrow> u8 list" where
  "file_audio bytes =
     (if 4 \<le> length bytes \<and> take 4 bytes = as_bytes ''RIFF'' then drop 44 bytes else drop 4 bytes)"

fun file_reader ::
  "nat option \<Rightarrow> nat \<Rightarrow> nat \<Rightarrow> nat \<Rightarrow> source_round list \<Rightarrow> chunk_timestamper \<Rightarrow> u32 audio_frame list \<Rightarrow>
   u32 audio_frame list option" where
  "file_reader limit frames bytes interval [] t sent = Some sent"
| "file_reader limit frames bytes interval (r # rs) t sent =
     (if \<not> so_opened r then file_reader limit frames bytes interval rs (ts_reset (so_end r) t) sent
      else
        (case pump_pcm limit frames bytes (Some interval) (file_audio (so_bytes r)) t sent of
           None \<Rightarrow> None
         | Some (TxClosed, t, sent) \<Rightarrow> Some sent
         | Some (SourceEnded, t, sent) \<Rightarrow>
             file_reader limit frames bytes interval rs (ts_reset (so_end r) t) sent))"

text \<open>Connections to the TCP source; the timestamper is made before the first one and reset when one ends.\<close>

fun tcp_reader ::
  "nat option \<Rightarrow> nat \<Rightarrow> nat \<Rightarrow> source_round list \<Rightarrow> chunk_timestamper \<Rightarrow> u32 audio_frame list \<Rightarrow>
   u32 audio_frame list option" where
  "tcp_reader limit frames bytes [] t sent = Some sent"
| "tcp_reader limit frames bytes (r # rs) t sent =
     (if \<not> so_opened r then tcp_reader limit frames bytes rs t sent
      else
        (case pump_pcm limit frames bytes None (so_bytes r) t sent of
           None \<Rightarrow> None
         | Some (TxClosed, t, sent) \<Rightarrow> Some sent
         | Some (SourceEnded, t, sent) \<Rightarrow> tcp_reader limit frames bytes rs (ts_reset (so_end r) t) sent))"

text \<open>Child processes (also librespot and shairport-sync), started again when they end.\<close>

fun process_reader ::
  "nat option \<Rightarrow> nat \<Rightarrow> nat \<Rightarrow> source_round list \<Rightarrow> chunk_timestamper \<Rightarrow> u32 audio_frame list \<Rightarrow>
   u32 audio_frame list option" where
  "process_reader limit frames bytes [] t sent = Some sent"
| "process_reader limit frames bytes (r # rs) t sent =
     (if \<not> so_opened r then process_reader limit frames bytes rs t sent
      else
        (case pump_pcm limit frames bytes None (so_bytes r) t sent of
           None \<Rightarrow> None
         | Some (TxClosed, t, sent) \<Rightarrow> Some sent
         | Some (SourceEnded, t, sent) \<Rightarrow> process_reader limit frames bytes rs (ts_reset (so_end r) t) sent))"

subsection \<open>Starting them\<close>

definition ws_length :: "string \<Rightarrow> nat" where
  "ws_length s = (case find (\<lambda>w. prefix w s) whitespace of None \<Rightarrow> 0 | Some w \<Rightarrow> length w)"

function words_from :: "string \<Rightarrow> string \<Rightarrow> string list" where
  "words_from acc s =
     (if s = [] then (if acc = [] then [] else [rev acc])
      else if ws_length s = 0 then words_from (hd s # acc) (tl s)
      else (if acc = [] then [] else [rev acc]) @ words_from [] (drop (ws_length s) s))"
  by pat_completeness auto
termination
  by (relation "measure (\<lambda>(acc, s). length s)") auto

declare words_from.simps [simp del]

definition split_whitespace :: "string \<Rightarrow> string list" where
  "split_whitespace s = words_from [] s"

definition param_or :: "string \<Rightarrow> string \<Rightarrow> source_uri \<Rightarrow> string" where
  "param_or dflt key u = (case uri_param key u of None \<Rightarrow> dflt | Some v \<Rightarrow> v)"

datatype reader_kind =
    PipeReader string
  | FileReader string nat  \<comment> \<open>path and interval in microseconds\<close>
  | ProcessReader string "string list"
  | TcpReader string nat
  | LibrespotReader "string list"
  | AirplayReader "string list"

record source_reader =
  sr_stream :: string
  sr_kind :: reader_kind
  sr_format :: sample_format
  sr_frames :: nat
  sr_bytes :: nat

definition plain_reader :: "string \<Rightarrow> sample_format \<Rightarrow> nat \<Rightarrow> reader_kind \<Rightarrow> source_reader" where
  "plain_reader name f frames kind =
     \<lparr>sr_stream = name, sr_kind = kind, sr_format = f, sr_frames = frames,
      sr_bytes = frames * unat (frame_size f)\<rparr>"

definition file_start :: "string \<Rightarrow> source_uri \<Rightarrow> sample_format \<Rightarrow> nat \<Rightarrow> source_reader option" where
  "file_start name u f frames =
     (if sf_rate f = 0 then None
      else Some (plain_reader name f frames
        (FileReader (ur_path u) ((frames * 1000000) mod 2 ^ 64 div unat (sf_rate f)))))"

definition tcp_start :: "string \<Rightarrow> source_uri \<Rightarrow> sample_format \<Rightarrow> nat \<Rightarrow> source_reader" where
  "tcp_start name u f frames =
     plain_reader name f frames
       (TcpReader (if ur_host u = [] then DEFAULT_BIND_ADDRESS else ur_host u)
          (if ur_port u = 0 then 4953 else ur_port u))"

definition process_start :: "string \<Rightarrow> source_uri \<Rightarrow> sample_format \<Rightarrow> nat \<Rightarrow> source_reader" where
  "process_start name u f frames =
     plain_reader name f frames (ProcessReader (ur_path u) (split_whitespace (param_or [] ''params'' u)))"

text \<open>Chunks of 20 milliseconds, in bytes first.\<close>

definition player_reader :: "string \<Rightarrow> sample_format \<Rightarrow> reader_kind \<Rightarrow> source_reader option" where
  "player_reader name f kind =
     (let bytes = (unat (sf_rate f) * unat (frame_size f) * 20) div 1000 in
      if frame_size f = 0 then None
      else Some \<lparr>sr_stream = name, sr_kind = kind, sr_format = f,
                  sr_frames = bytes div unat (frame_size f), sr_bytes = bytes\<rparr>)"

definition librespot_args :: "source_uri \<Rightarrow> string list" where
  "librespot_args u =
     [''--name'', param_or ''Snapcast'' ''devicename'' u, ''--bitrate'', param_or ''320'' ''bitrate'' u,
      ''--backend'', ''pipe'', ''--initial-volume'', param_or ''100'' ''volume'' u, ''--verbose''] @
     (if param_or [] ''username'' u \<noteq> [] \<and> param_or [] ''password'' u \<noteq> []
      then [''--username'', param_or [] ''username'' u, ''--password'', param_or [] ''password'' u] else []) @
     (if param_or [] ''cache'' u \<noteq> [] then [''--cache'', param_or [] ''cache'' u] else []) @
     (if param_or ''false'' ''normalize'' u = ''true'' then [''--enable-volume-normalisation''] else []) @
     (if param_or ''false'' ''autoplay'' u = ''true'' then [''--autoplay'', ''on''] else [])"

definition librespot_start :: "string \<Rightarrow> source_uri \<Rightarrow> sample_format \<Rightarrow> source_reader option" where
  "librespot_start name u f = player_reader name f (LibrespotReader (librespot_args u))"

definition airplay_args :: "source_uri \<Rightarrow> string list" where
  "airplay_args u =
     [''--name='' @ param_or ''Snapcast'' ''devicename'' u, ''--output=stdout'', ''--get-coverart'',
      ''--port='' @ param_or ''5000'' ''port'' u] @
     (if param_or [] ''password'' u = [] then [] else [''--password='' @ param_or [] ''password'' u])"

definition airplay_start :: "string \<Rightarrow> source_uri \<Rightarrow> sample_format \<Rightarrow> source_reader option" where
  "airplay_start name u f = player_reader name f (AirplayReader (airplay_args u))"

definition start_reader :: "string \<Rightarrow> source_uri \<Rightarrow> sample_format \<Rightarrow> nat \<Rightarrow> (string + source_reader) option" where
  "start_reader name u f frames =
     (if ur_scheme u = ''pipe'' then Some (Inr (plain_reader name f frames (PipeReader (ur_path u))))
      else if ur_scheme u = ''file'' then map_option Inr (file_start name u f frames)
      else if ur_scheme u = ''process'' then Some (Inr (process_start name u f frames))
      else if ur_scheme u = ''tcp'' then Some (Inr (tcp_start name u f frames))
      else if ur_scheme u = ''librespot'' then map_option Inr (librespot_start name u f)
      else if ur_scheme u = ''airplay'' then map_option Inr (airplay_start name u f)
      else Some (Inl ''Unsupported stream scheme''))"

definition source_name :: "source_uri \<Rightarrow> string" where
  "source_name u = param_or ''default'' ''name'' u"

definition source_format :: "sample_format \<Rightarrow> source_uri \<Rightarrow> sample_format" where
  "source_format dflt u = format_or dflt (uri_param ''sampleformat'' u)"

definition source_frames :: "string \<Rightarrow> sample_format \<Rightarrow> nat" where
  "source_frames codec f = (if codec = ''flac'' then 1152 else unat (sf_rate f) * 20 div 1000)"

text \<open>The loop of \<open>main\<close> over the configured sources.\<close>

fun start_sources ::
  "string \<Rightarrow> sample_format \<Rightarrow> string list \<Rightarrow> snap_server \<Rightarrow> (snap_server \<times> source_reader list) option" where
  "start_sources codec dflt [] s = Some (s, [])"
| "start_sources codec dflt (source # rest) s =
     (case uri_parse source of
        Inl _ \<Rightarrow> start_sources codec dflt rest s
      | Inr u \<Rightarrow>
          let f = source_format dflt u; s = add_stream (source_name u) s in
          (case start_reader (source_name u) u f (source_frames codec f) of
             None \<Rightarrow> None
           | Some r \<Rightarrow>
               map_option (\<lambda>(s, rs). (s, (case r of Inl _ \<Rightarrow> rs | Inr r \<Rightarrow> r # rs)))
                 (start_sources codec dflt rest s)))"

text \<open>The program up to the point where it serves.\<close>

definition server_main ::
  "'o enc_libs \<Rightarrow> (string \<Rightarrow> string + ini_file) \<Rightarrow> string \<Rightarrow> cli_overrides \<Rightarrow>
   (string + (string + config \<times> server \<times> (string \<times> 'o encoder \<times> sample_format) list) \<times> source_reader list) option" where
  "server_main libs load path cli =
     (case startup_config load path cli of
        Inl e \<Rightarrow> Some (Inl e)
      | Inr k \<Rightarrow>
          map_option (\<lambda>(s, readers). Inr (fst (serve libs s), readers))
            (start_sources (sv_codec (bc_server k))
               (format_or DEFAULT_SAMPLE_FORMAT (Some (sv_format (bc_server k)))) (bc_sources k)
               (snap_server_new (bc_server k))))"

end
