(* ===== verification/SourceProps.thy ===== *)
theory SourceProps
  imports Sources
begin

text \<open>What the sources of the server program deliver.\<close>

subsection \<open>Whole chunks, evenly stamped\<close>

definition source_chunks ::
  "int \<Rightarrow> nat \<Rightarrow> u32 \<Rightarrow> nat \<Rightarrow> nat \<Rightarrow> u8 list \<Rightarrow> u32 audio_frame list" where
  "source_chunks start written rate frames bytes inp =
     List.map (\<lambda>i. \<lparr>af_data = Pcm (take bytes (drop (i * bytes) inp)),
                    af_timestamp = start + int (written + i * frames) * 1000000 div uint rate\<rparr>)
       [0..<length inp div bytes]"

lemma source_chunks_step:
  assumes "0 < bytes" "bytes \<le> length inp"
  shows "source_chunks start written rate frames bytes inp =
    \<lparr>af_data = Pcm (take bytes inp), af_timestamp = start + int written * 1000000 div uint rate\<rparr> #
    source_chunks start (written + frames) rate frames bytes (drop bytes inp)"
proof -
  have n: "length inp div bytes = Suc ((length inp - bytes) div bytes)"
    using assms by (simp add: le_div_geq)
  show ?thesis
    unfolding source_chunks_def n
    by (simp add: upt_conv_Cons map_Suc_upt [symmetric] comp_def algebra_simps del: upt_Suc)
qed

lemma pump_loop_chunks:
  assumes "0 < bytes" "ts_rate t \<noteq> 0" "\<bar>ts_start t\<bar> < 2 ^ 61" "frames < 2 ^ 32"
    and "ts_written t + (length inp div bytes) * frames < 2 ^ 42"
  shows "pump_loop None frames bytes inp t sent =
    Some (SourceEnded, t\<lparr>ts_written := ts_written t + (length inp div bytes) * frames\<rparr>,
      sent @ source_chunks (ts_start t) (ts_written t) (ts_rate t) frames bytes inp)"
  using assms
proof (induction "length inp" arbitrary: inp t sent rule: less_induct)
  case less
  show ?case
  proof (cases "length inp < bytes")
    case True
    then show ?thesis by (simp add: pump_loop.simps [of None frames bytes inp] source_chunks_def)
  next
    case False
    have n: "length inp div bytes = Suc ((length inp - bytes) div bytes)"
      using False less.prems(1) by (simp add: le_div_geq)
    let ?t = "t\<lparr>ts_written := ts_written t + frames\<rparr>"
    have w: "ts_written t + frames + (length (drop bytes inp) div bytes) * frames < 2 ^ 42"
      using less.prems(5) by (simp add: n)
    then have "ts_next frames t = Some (ts_start t + int (ts_written t) * 1000000 div uint (ts_rate t), ?t)"
      by (intro ts_next_exact less.prems(2,3)) linarith
    then have "pump_loop None frames bytes inp t sent =
        pump_loop None frames bytes (drop bytes inp) ?t
          (sent @ [\<lparr>af_data = Pcm (take bytes inp),
                    af_timestamp = ts_start t + int (ts_written t) * 1000000 div uint (ts_rate t)\<rparr>])"
      using False less.prems(4) by (subst pump_loop.simps) simp
    also have "\<dots> = Some (SourceEnded, ?t\<lparr>ts_written := ts_written ?t + (length (drop bytes inp) div bytes) * frames\<rparr>,
        (sent @ [\<lparr>af_data = Pcm (take bytes inp),
                    af_timestamp = ts_start t + int (ts_written t) * 1000000 div uint (ts_rate t)\<rparr>]) @
        source_chunks (ts_start ?t) (ts_written ?t) (ts_rate ?t) frames bytes (drop bytes inp))"
      using False less.prems(1-4) w by (intro less.hyps) simp_all
    finally show ?thesis
      using False less.prems(1) by (simp add: source_chunks_step [of bytes inp] n)
  qed
qed

lemma source_chunks_bytes:
  assumes "0 < bytes"
  shows "concat (List.map (\<lambda>f. case af_data f of Pcm d \<Rightarrow> d | F32 _ \<Rightarrow> []) (source_chunks s w rate frames bytes inp)) =
    take (length inp div bytes * bytes) inp"
proof (induction "length inp" arbitrary: inp w rule: less_induct)
  case less
  show ?case
  proof (cases "bytes \<le> length inp")
    case True
    have n: "length inp div bytes = Suc ((length inp - bytes) div bytes)"
      using True assms by (simp add: le_div_geq)
    show ?thesis
      using True assms less [of "drop bytes inp"]
      by (simp add: source_chunks_step n take_add add.commute)
  qed (simp add: source_chunks_def)
qed

lemma pump_chunks:
  assumes "0 < bytes" "rate \<noteq> 0" "\<bar>start\<bar> < 2 ^ 61" "frames < 2 ^ 32"
    and "(length inp div bytes) * frames < 2 ^ 42" "interval \<noteq> Some 0"
  shows "\<exists>t. pump_pcm None frames bytes interval inp (ts_new start rate) sent =
    Some (SourceEnded, t, sent @ source_chunks start 0 rate frames bytes inp) \<and> ts_rate t = rate"
  using pump_loop_chunks [of bytes "ts_new start rate" frames inp sent] assms
  by (simp add: pump_pcm_def ts_new_def)

text \<open>A round that can be stamped without wrapping.\<close>

definition round_ok :: "nat \<Rightarrow> nat \<Rightarrow> source_round \<Rightarrow> bool" where
  "round_ok frames bytes r \<longleftrightarrow>
     \<bar>so_at r\<bar> < 2 ^ 61 \<and> \<bar>so_end r\<bar> < 2 ^ 61 \<and> (length (so_bytes r) div bytes) * frames < 2 ^ 42"

text \<open>Every opening of a pipe is stamped from its own time.\<close>

lemma pipe_reader_chunks:
  assumes "0 < bytes" "rate \<noteq> 0" "frames < 2 ^ 32" "list_all (round_ok frames bytes) rounds"
  shows "pipe_reader None rate frames bytes rounds sent = Some (sent @
    concat (List.map (\<lambda>r. source_chunks (so_at r) 0 rate frames bytes (so_bytes r)) (filter so_opened rounds)))"
  using assms(4)
proof (induction rounds arbitrary: sent)
  case (Cons r rounds)
  then have r: "\<bar>so_at r\<bar> < 2 ^ 61" "(length (so_bytes r) div bytes) * frames < 2 ^ 42"
    by (simp_all add: round_ok_def)
  obtain t where "pump_pcm None frames bytes None (so_bytes r) (ts_new (so_at r) rate) sent =
      Some (SourceEnded, t, sent @ source_chunks (so_at r) 0 rate frames bytes (so_bytes r))"
    using pump_chunks [OF assms(1,2) r(1) assms(3) r(2), of None sent] by auto
  with Cons show ?case by simp
qed simp

text \<open>The instants from which a timestamper counts that is reset when a round ends.\<close>

fun reset_chunks :: "int \<Rightarrow> u32 \<Rightarrow> nat \<Rightarrow> nat \<Rightarrow> source_round list \<Rightarrow> u32 audio_frame list" where
  "reset_chunks start rate frames bytes [] = []"
| "reset_chunks start rate frames bytes (r # rs) =
     (if so_opened r
      then source_chunks start 0 rate frames bytes (so_bytes r) @ reset_chunks (so_end r) rate frames bytes rs
      else reset_chunks start rate frames bytes rs)"

lemma ts_reset_new: "ts_rate t = rate \<Longrightarrow> ts_reset usec t = ts_new usec rate"
  by (simp add: ts_reset_def ts_new_def)

lemma reset_readers:
  assumes "0 < bytes" "rate \<noteq> 0" "frames < 2 ^ 32" "list_all (round_ok frames bytes) rounds" "\<bar>start\<bar> < 2 ^ 61"
  shows "tcp_reader None frames bytes rounds (ts_new start rate) sent =
      Some (sent @ reset_chunks start rate frames bytes rounds)"
    and "process_reader None frames bytes rounds (ts_new start rate) sent =
      Some (sent @ reset_chunks start rate frames bytes rounds)"
  using assms(4,5)
proof (induction rounds arbitrary: start sent)
  case (Cons r rounds)
  have step: "\<exists>t. pump_pcm None frames bytes None (so_bytes r) (ts_new start rate) sent =
      Some (SourceEnded, t, sent @ source_chunks start 0 rate frames bytes (so_bytes r)) \<and> ts_rate t = rate"
    if "list_all (round_ok frames bytes) (r # rounds)" "\<bar>start\<bar> < 2 ^ 61" for start sent
    using pump_chunks [OF assms(1,2) that(2) assms(3), of "so_bytes r" None sent] that(1) by (simp add: round_ok_def)
  case 1
  from step [OF this, of sent] obtain t where
    "pump_pcm None frames bytes None (so_bytes r) (ts_new start rate) sent =
      Some (SourceEnded, t, sent @ source_chunks start 0 rate frames bytes (so_bytes r))" "ts_rate t = rate" by blast
  with 1 Cons.IH(1) show ?case by (simp add: ts_reset_new round_ok_def)
  case 2
  from step [OF this, of sent] obtain t where
    "pump_pcm None frames bytes None (so_bytes r) (ts_new start rate) sent =
      Some (SourceEnded, t, sent @ source_chunks start 0 rate frames bytes (so_bytes r))" "ts_rate t = rate" by blast
  with 2 Cons.IH(2) show ?case by (simp add: ts_reset_new round_ok_def)
qed simp_all

lemma file_reader_chunks:
  assumes "0 < bytes" "rate \<noteq> 0" "frames < 2 ^ 32" "0 < interval"
    and "list_all (\<lambda>r. so_opened r \<and> round_ok frames bytes r) rounds" "\<bar>start\<bar> < 2 ^ 61"
  shows "file_reader None frames bytes interval rounds (ts_new start rate) sent =
    Some (sent @ reset_chunks start rate frames bytes
      (List.map (\<lambda>r. r\<lparr>so_bytes := file_audio (so_bytes r)\<rparr>) rounds))"
  using assms(5,6)
proof (induction rounds arbitrary: start sent)
  case (Cons r rounds)
  have "length (file_audio (so_bytes r)) \<le> length (so_bytes r)" by (simp add: file_audio_def)
  then have "(length (file_audio (so_bytes r)) div bytes) * frames < 2 ^ 42"
    using Cons.prems(1) by (simp add: round_ok_def) (meson div_le_mono le_less_trans mult_le_mono1)
  from pump_chunks [OF assms(1,2) Cons.prems(2) assms(3) this, of "Some interval" sent] assms(4) obtain t where
    "pump_pcm None frames bytes (Some interval) (file_audio (so_bytes r)) (ts_new start rate) sent =
      Some (SourceEnded, t, sent @ source_chunks start 0 rate frames bytes (file_audio (so_bytes r)))" "ts_rate t = rate"
    by auto
  with Cons show ?case by (simp add: ts_reset_new round_ok_def)
qed simp

lemma source_chunks_nth:
  "length (source_chunks start w rate frames bytes inp) = length inp div bytes"
  "i < length inp div bytes \<Longrightarrow> source_chunks start w rate frames bytes inp ! i =
     \<lparr>af_data = Pcm (take bytes (drop (i * bytes) inp)),
      af_timestamp = start + int (w + i * frames) * 1000000 div uint rate\<rparr>"
  by (simp_all add: source_chunks_def)

text \<open>C35: what a client of a TCP source sends is stamped from the moment the reader began to listen (or the previous
  client left), not from its own arrival: every timestamp is earlier than that of a pipe opened at the same
  moment by exactly the time the source was idle.  A child process that yields nothing for a while fares the
  same.\<close>

theorem idle_source_stamped_early:
  assumes "0 < bytes" "rate \<noteq> 0" "frames < 2 ^ 32" "list_all (round_ok frames bytes) (r # rs)" "\<bar>start\<bar> < 2 ^ 61"
    and "so_opened r"
  shows "\<exists>sent rest fresh. tcp_reader None frames bytes (r # rs) (ts_new start rate) [] = Some (sent @ rest) \<and>
    process_reader None frames bytes (r # rs) (ts_new start rate) [] = Some (sent @ rest) \<and>
    pipe_reader None rate frames bytes [r] [] = Some fresh \<and> length sent = length fresh \<and>
    (\<forall>i<length fresh. af_data (sent ! i) = af_data (fresh ! i) \<and>
       af_timestamp (sent ! i) = af_timestamp (fresh ! i) - (so_at r - start))"
proof (intro exI conjI)
  show "tcp_reader None frames bytes (r # rs) (ts_new start rate) [] =
      Some (source_chunks start 0 rate frames bytes (so_bytes r) @ reset_chunks (so_end r) rate frames bytes rs)"
    "process_reader None frames bytes (r # rs) (ts_new start rate) [] =
      Some (source_chunks start 0 rate frames bytes (so_bytes r) @ reset_chunks (so_end r) rate frames bytes rs)"
    using reset_readers [OF assms(1-5), of "[]"] assms(6) by simp_all
  show "pipe_reader None rate frames bytes [r] [] = Some (source_chunks (so_at r) 0 rate frames bytes (so_bytes r))"
    using pipe_reader_chunks [OF assms(1-3), of "[r]" "[]"] assms(4,6) by simp
qed (auto simp: source_chunks_nth)

definition demo_round :: source_round where
  "demo_round = \<lparr>so_opened = True, so_at = 3600000000, so_bytes = replicate 8 1, so_end = 3700000000\<rparr>"

lemma idle_source_stamped_early_witness:
  "\<exists>sent. tcp_reader None 1 4 [demo_round] (ts_new 0 48000) [] = Some sent \<and> sent \<noteq> [] \<and>
    af_timestamp (sent ! 0) = 0 \<and> so_at demo_round = 3600 * 1000000"
proof -
  have ok: "list_all (round_ok 1 4) [demo_round]" by (simp add: round_ok_def demo_round_def)
  then have "pipe_reader None 48000 1 4 [demo_round] [] = Some (source_chunks 3600000000 0 48000 1 4 (replicate 8 1))"
    using pipe_reader_chunks [of 4 48000 1 "[demo_round]" "[]"] by (simp add: demo_round_def)
  moreover from idle_source_stamped_early [OF _ _ _ ok, of 48000 0] obtain sent rest fresh where
    "tcp_reader None 1 4 [demo_round] (ts_new 0 48000) [] = Some (sent @ rest)"
    "pipe_reader None 48000 1 4 [demo_round] [] = Some fresh" "length sent = length fresh"
    "\<forall>i<length fresh. af_timestamp (sent ! i) = af_timestamp (fresh ! i) - so_at demo_round"
    by (auto simp: demo_round_def)
  ultimately have sent: "tcp_reader None 1 4 [demo_round] (ts_new 0 48000) [] = Some (sent @ rest)" "length sent = 2"
    "af_timestamp (sent ! 0) = 0"
    using source_chunks_nth [where inp = "replicate 8 (1 :: u8)" and bytes = 4] by (auto simp: demo_round_def)
  then show ?thesis by (intro exI [of _ "sent @ rest"]) (auto simp: nth_append demo_round_def)
qed

text \<open>A raw file loses its first four bytes: with frames of any other size every later frame is out of step.\<close>

lemma raw_file_loses_head:
  assumes "take 4 bytes \<noteq> as_bytes ''RIFF''"
  shows "file_audio bytes = drop 4 bytes"
  using assms by (simp add: file_audio_def)

text \<open>Chunks of librespot and AirPlay need not be whole frames: their size is computed in bytes.\<close>

lemma player_chunk_splits_frame:
  "\<exists>r. player_reader name (sf_new 11025 16 2) kind = Some r \<and> sr_bytes r mod 4 = 2 \<and> sr_frames r * 4 < sr_bytes r"
  by (simp add: player_reader_def sf_new_def frame_size_def sample_size_def)

subsection \<open>The format of a source and the format of its stream\<close>

text \<open>The sources that the loop adds a stream for.\<close>

fun accepted :: "string list \<Rightarrow> source_uri list" where
  "accepted [] = []"
| "accepted (s # rest) = (case uri_parse s of Inl _ \<Rightarrow> accepted rest | Inr u \<Rightarrow> u # accepted rest)"

lemma start_reader_format:
  "start_reader name u f frames = Some (Inr r) \<Longrightarrow> sr_format r = f \<and> sr_stream r = name"
  by (auto simp: start_reader_def plain_reader_def file_start_def process_start_def tcp_start_def librespot_start_def
      airplay_start_def player_reader_def Let_def split: if_splits)

lemma start_sources_spec:
  "start_sources codec dflt sources s = Some (s', readers) \<Longrightarrow>
    sn_streams s' = sn_streams s @ List.map (\<lambda>u. (source_name u, stream_config_default)) (accepted sources) \<and>
    sn_config s' = sn_config s \<and> sn_served s' = sn_served s \<and>
    (\<forall>r\<in>set readers. \<exists>u\<in>set (accepted sources). sr_stream r = source_name u \<and> sr_format r = source_format dflt u)"
proof (induction sources arbitrary: s s' readers)
  case (Cons source rest)
  show ?case
  proof (cases "uri_parse source")
    case (Inl e)
    with Cons show ?thesis by simp
  next
    case (Inr u)
    with Cons.prems obtain r s1 rs where r: "start_reader (source_name u) u (source_format dflt u)
        (source_frames codec (source_format dflt u)) = Some r"
      "start_sources codec dflt rest (add_stream (source_name u) s) = Some (s1, rs)"
      "s' = s1" "readers = (case r of Inl _ \<Rightarrow> rs | Inr r \<Rightarrow> r # rs)"
      by (auto simp: Let_def split: option.splits)
    with Cons.IH [OF r(2)] Inr show ?thesis
      by (auto simp: add_stream_def add_stream_with_config_def dest: start_reader_format split: sum.splits)
  qed
qed simp

lemma default_stream_enc [simp]: "stream_enc_config k stream_config_default = default_enc_config k"
  by (simp add: stream_enc_config_def stream_config_default_def Let_def)

lemma serve_streams:
  assumes "serve libs s = (Inr (cfg, v, encs), s')" "distinct (List.map fst (sn_streams s))" "(name, sc) \<in> set (sn_streams s)"
  shows "\<exists>enc. (name, enc, ec_format (stream_enc_config (sn_config s) sc)) \<in> set encs \<and>
    create_encoder libs (stream_enc_config (sn_config s) sc) = Inr enc \<and>
    v_codec_headers v name = Some \<lparr>ci_codec = encoder_name enc, ci_header = encoder_header enc\<rparr>"
proof -
  let ?k = "sn_config s"
  obtain enc where enc: "create_encoder libs (default_enc_config ?k) = Inr enc"
    "register_streams libs ?k (Some enc) (sn_streams s) (server_start ?k) = Inr (v, encs)"
    using assms(1) by (auto simp: serve_def Let_def split: if_splits sum.splits)
  let ?P = "\<lambda>(name, sc) (name', enc, f). name' = name \<and> create_encoder libs (stream_enc_config ?k sc) = Inr enc \<and>
      f = ec_format (stream_enc_config ?k sc) \<and>
      v_codec_headers v name = Some \<lparr>ci_codec = encoder_name enc, ci_header = encoder_header enc\<rparr>"
  from register_streams_spec [OF enc(2) _ assms(2)] enc(1) have all: "list_all2 ?P (sn_streams s) encs" by blast
  obtain i where i: "i < length (sn_streams s)" "sn_streams s ! i = (name, sc)"
    using assms(3) by (auto simp: in_set_conv_nth)
  from list_all2_nthD [OF all i(1)] i(2) have "?P (name, sc) (encs ! i)" by simp
  moreover have "encs ! i \<in> set encs" using i(1) list_all2_lengthD [OF all] by simp
  ultimately show ?thesis by (cases "encs ! i") auto
qed

text \<open>C34: the sample format that a source's URI asks for reaches only the reader of the source: whatever it is, the
  stream is encoded, and announced to the clients, in the server's default format.\<close>

theorem source_format_lost:
  assumes "server_main libs load path cli = Some (Inr (Inr (cfg, v, encs), readers))"
    and "startup_config load path cli = Inr k" "distinct (List.map source_name (accepted (bc_sources k)))"
  defines "dflt \<equiv> default_enc_config (bc_server k)"
  shows "\<forall>r\<in>set readers. \<exists>u enc. u \<in> set (accepted (bc_sources k)) \<and> sr_stream r = source_name u \<and>
    sr_format r = source_format (ec_format dflt) u \<and> create_encoder libs dflt = Inr enc \<and>
    (sr_stream r, enc, ec_format dflt) \<in> set encs \<and>
    v_codec_headers v (sr_stream r) = Some \<lparr>ci_codec = encoder_name enc, ci_header = encoder_header enc\<rparr>"
proof
  fix r
  assume r: "r \<in> set readers"
  obtain s where s: "start_sources (sv_codec (bc_server k)) (ec_format dflt) (bc_sources k)
      (snap_server_new (bc_server k)) = Some (s, readers)" "fst (serve libs s) = Inr (cfg, v, encs)"
    using assms(1,2) by (auto simp: server_main_def dflt_def default_enc_config_def)
  from start_sources_spec [OF s(1)] have spec: "sn_config s = bc_server k"
    "sn_streams s = List.map (\<lambda>u. (source_name u, stream_config_default)) (accepted (bc_sources k))"
    "\<forall>r\<in>set readers. \<exists>u\<in>set (accepted (bc_sources k)). sr_stream r = source_name u \<and> sr_format r = source_format (ec_format dflt) u"
    by (simp_all add: snap_server_new_def)
  from spec(3) r obtain u where u: "u \<in> set (accepted (bc_sources k))" "sr_stream r = source_name u"
    "sr_format r = source_format (ec_format dflt) u" by blast
  have "distinct (List.map fst (sn_streams s))" using assms(3) by (simp add: spec(2) comp_def)
  moreover have "(source_name u, stream_config_default) \<in> set (sn_streams s)" using u(1) by (auto simp: spec(2))
  ultimately show "\<exists>u enc. u \<in> set (accepted (bc_sources k)) \<and> sr_stream r = source_name u \<and>
    sr_format r = source_format (ec_format dflt) u \<and> create_encoder libs dflt = Inr enc \<and>
    (sr_stream r, enc, ec_format dflt) \<in> set encs \<and>
    v_codec_headers v (sr_stream r) = Some \<lparr>ci_codec = encoder_name enc, ci_header = encoder_header enc\<rparr>"
    using serve_streams [of libs s cfg v encs "snd (serve libs s)"] s(2) u spec(1)
    by (fastforce simp: dflt_def prod_eq_iff)
qed

definition demo_source_cli :: cli_overrides where
  "demo_source_cli = demo_cli\<lparr>co_codec := Some ''pcm'', co_sources := [''pipe:///tmp/a?name=a&sampleformat=44100:16:2'']\<rparr>"

lemma demo_source_parsed:
  obtains u where "uri_parse ''pipe:///tmp/a?name=a&sampleformat=44100:16:2'' = Inr u"
    "ur_scheme u = ''pipe''" "source_name u = ''a''" "uri_param ''sampleformat'' u = Some ''44100:16:2''"
proof -
  have "map_sum id (\<lambda>u. (ur_scheme u, source_name u, uri_param ''sampleformat'' u))
      (uri_parse ''pipe:///tmp/a?name=a&sampleformat=44100:16:2'') = Inr (''pipe'', ''a'', Some ''44100:16:2'')"
    by code_simp
  then show thesis using that by (cases "uri_parse ''pipe:///tmp/a?name=a&sampleformat=44100:16:2''") auto
qed

lemma demo_format_read: "sf_from_str ''44100:16:2'' = Inr (sf_new 44100 16 2)"
  by (simp add: sf_from_str_def sf_parse_u32_def sf_parse_u16_def parse_unsigned_def to_digit_def)

lemma source_format_lost_witness:
  "\<exists>cfg v encs r enc. server_main demo_enc_libs demo_ini ''/etc/snapserver.conf'' demo_source_cli =
      Some (Inr (Inr (cfg, v, encs), [r])) \<and> sr_format r = sf_new 44100 16 2 \<and>
    (sr_stream r, enc, sf_new 48000 16 2) \<in> set encs"
proof -
  let ?k = "merge_cli (parse_config_file demo_ini ''/etc/snapserver.conf'') demo_source_cli"
  obtain u where u: "uri_parse ''pipe:///tmp/a?name=a&sampleformat=44100:16:2'' = Inr u"
    "ur_scheme u = ''pipe''" "source_name u = ''a''" "uri_param ''sampleformat'' u = Some ''44100:16:2''"
    by (rule demo_source_parsed)
  have k: "startup_config demo_ini ''/etc/snapserver.conf'' demo_source_cli = Inr ?k"
    "bc_sources ?k = [''pipe:///tmp/a?name=a&sampleformat=44100:16:2'']" "sv_codec (bc_server ?k) = ''pcm''"
    "sv_format (bc_server ?k) = ''48000:16:2''"
    by (simp_all add: startup_config_def auth_config_valid_def merge_cli_fields merge_cli_codec config_file_fields
        demo_ini_def demo_source_cli_def demo_cli_def file_value_def in_force_def ini_str_def
        DEFAULT_SAMPLE_FORMAT_STRING_def)
  have d: "ec_format (default_enc_config (bc_server ?k)) = sf_new 48000 16 2"
    by (simp add: default_enc_config_def k(4) format_or_def default_format_read)
  obtain cfg v encs r where m: "server_main demo_enc_libs demo_ini ''/etc/snapserver.conf'' demo_source_cli =
      Some (Inr (Inr (cfg, v, encs), [r]))"
    by (simp add: server_main_def k u start_reader_def plain_reader_def add_stream_def add_stream_with_config_def
        snap_server_new_def serve_def Let_def create_encoder_def default_enc_config_def stream_config_default_def
        stream_enc_config_def)
  from source_format_lost [OF m k(1)] u(1,4) show ?thesis
    using m by (auto simp: k(2) d source_format_def format_or_def demo_format_read)
qed

end
