(* ===== verification/ControllerProps.thy ===== *)
theory ControllerProps
  imports Controller
begin

text \<open>
  What the client's controller keeps: the stream that it shares with the player, the decoder, and the
  format that it announces always belong together.
\<close>

lemma emit_simps [simp]:
  "cl_settings (emit e c) = cl_settings c" "cl_conn (emit e c) = cl_conn c" "cl_stream (emit e c) = cl_stream c"
  "cl_decoder (emit e c) = cl_decoder c" "cl_format (emit e c) = cl_format c"
  "cl_encoding (emit e c) = cl_encoding c" "cl_server_settings (emit e c) = cl_server_settings c"
  "cl_time (emit e c) = cl_time c"
  by (simp_all add: emit_def)

lemma send_audio_simps [simp]:
  "cl_settings (send_audio e c) = cl_settings c" "cl_conn (send_audio e c) = cl_conn c"
  "cl_stream (send_audio e c) = cl_stream c" "cl_decoder (send_audio e c) = cl_decoder c"
  "cl_format (send_audio e c) = cl_format c" "cl_encoding (send_audio e c) = cl_encoding c"
  "cl_server_settings (send_audio e c) = cl_server_settings c"
  by (simp_all add: send_audio_def)

lemma deliver_simps [simp]:
  "cl_settings (deliver_chunk t d c) = cl_settings c" "cl_conn (deliver_chunk t d c) = cl_conn c"
  "cl_stream (deliver_chunk t d c) =
     add_chunk (pc_new_with_encoding t d (cl_format c) (cl_encoding c)) (cl_stream c)"
  "cl_decoder (deliver_chunk t d c) = cl_decoder c" "cl_format (deliver_chunk t d c) = cl_format c"
  "cl_encoding (deliver_chunk t d c) = cl_encoding c"
  "cl_server_settings (deliver_chunk t d c) = cl_server_settings c"
  by (simp_all add: deliver_chunk_def Let_def)

text \<open>The format that a decoder gives out; PCM passes the bytes of any format on.\<close>

fun decoder_format :: "'d decoder \<Rightarrow> sample_format option" where
  "decoder_format PcmDecoder = None"
| "decoder_format (FlacDecoder d f i) = Some f"
| "decoder_format (VorbisDecoder d f i) = Some f"
| "decoder_format (OpusDecoder d f buf) = Some f"
| "decoder_format (F32Lz4Decoder d) = Some (ld_format d)"

definition decoder_ok :: "sample_format \<Rightarrow> sample_encoding \<Rightarrow> 'd decoder \<Rightarrow> bool" where
  "decoder_ok f enc dec \<longleftrightarrow> output_encoding dec = enc \<and> (\<forall>g\<in>set_option (decoder_format dec). g = f)"

definition chunk_fits :: "sample_format \<Rightarrow> sample_encoding \<Rightarrow> pcm_chunk \<Rightarrow> bool" where
  "chunk_fits f enc k \<longleftrightarrow> pc_format k = f \<and> pc_encoding k = enc"

definition stream_fits :: "sample_format \<Rightarrow> sample_encoding \<Rightarrow> stream_buffer \<Rightarrow> bool" where
  "stream_fits f enc s \<longleftrightarrow> sb_format s = f \<and> sb_encoding s = enc \<and> list_all (chunk_fits f enc) (sb_chunks s) \<and>
     (\<forall>k\<in>set_option (sb_current s). chunk_fits f enc k)"

definition pipeline_ok :: "'d controller \<Rightarrow> bool" where
  "pipeline_ok c \<longleftrightarrow> stream_fits (cl_format c) (cl_encoding c) (cl_stream c) \<and>
     (\<forall>dec\<in>set_option (cl_decoder c). decoder_ok (cl_format c) (cl_encoding c) dec)"

lemma stream_fits_simps [simp]:
  "stream_fits f enc (sb_with_encoding f' enc') \<longleftrightarrow> f' = f \<and> enc' = enc"
  "stream_fits f enc (set_buffer_ms ms s) = stream_fits f enc s"
  "stream_fits f enc (add_chunk k s) \<longleftrightarrow> stream_fits f enc s \<and> chunk_fits f enc k"
  by (auto simp: stream_fits_def sb_with_encoding_def set_buffer_ms_def add_chunk_def)

lemma chunk_fits_new [simp]: "chunk_fits f enc (pc_new_with_encoding t d f' enc') \<longleftrightarrow> f' = f \<and> enc' = enc"
  by (simp add: chunk_fits_def pc_new_with_encoding_def)

subsection \<open>Decoders\<close>

lemma made_format_ok:
  "made_format r = Inr (f, dec) \<Longrightarrow> \<forall>d. r \<noteq> Inr (F32Lz4Decoder d) \<Longrightarrow> r \<noteq> Inr PcmDecoder \<Longrightarrow>
   decoder_format dec = Some f"
  by (auto simp: made_format_def split: sum.splits decoder.splits)

lemma created_kinds:
  "flac_create libs p \<noteq> Inr (F32Lz4Decoder d)" "flac_create libs p \<noteq> Inr PcmDecoder"
  "vorbis_create libs p \<noteq> Inr (F32Lz4Decoder d)" "vorbis_create libs p \<noteq> Inr PcmDecoder"
  "opus_create libs p \<noteq> Inr (F32Lz4Decoder d)" "opus_create libs p \<noteq> Inr PcmDecoder"
  by (auto simp: flac_create_def vorbis_create_def opus_create_def split: sum.splits)

lemma f32lz4_header_format: "f32lz4_set_header libs p d = (Inr f, d') \<Longrightarrow> ld_format d' = f"
  by (auto simp: f32lz4_set_header_def Let_def split: if_splits option.splits)

lemma set_header_ok:
  assumes "set_header libs p dec = Inr (f, dec')"
  shows "decoder_ok f (output_encoding dec') dec'"
proof -
  have "\<forall>g\<in>set_option (decoder_format dec'). g = f"
    using assms created_kinds made_format_ok f32lz4_header_format
    by (cases dec) (fastforce simp: set_header_def Let_def map_sum_def split: sum.splits prod.splits)+
  then show ?thesis by (simp add: decoder_ok_def)
qed

lemma decode_chunk_kind:
  "decode_chunk libs dec p = Some (dec', ok, out) \<Longrightarrow>
   output_encoding dec' = output_encoding dec \<and> decoder_format dec' = decoder_format dec"
  by (cases dec) (auto simp: decode_chunk_def output_encoding_def Let_def split: if_splits prod.splits sum.splits)

lemma decode_chunk_ok:
  "decode_chunk libs dec p = Some (dec', ok, out) \<Longrightarrow> decoder_ok f enc dec' = decoder_ok f enc dec"
  by (simp add: decoder_ok_def decode_chunk_kind)

subsection \<open>Every step keeps the pipeline\<close>

lemma pipeline_ok_simps [simp]:
  "pipeline_ok (emit e c) = pipeline_ok c"
  "pipeline_ok (send_audio a c) = pipeline_ok c"
  "pipeline_ok (c\<lparr>cl_conn := conn\<rparr>) = pipeline_ok c"
  "pipeline_ok (c\<lparr>cl_server_settings := ss\<rparr>) = pipeline_ok c"
  "pipeline_ok (c\<lparr>cl_time := tp\<rparr>) = pipeline_ok c"
  by (simp_all add: pipeline_ok_def)

lemma pipeline_ok_deliver [simp]: "pipeline_ok (deliver_chunk t d c) = pipeline_ok c"
  by (simp add: pipeline_ok_def)

lemma pipeline_ok_send: "send env now t p c = (e, c') \<Longrightarrow> pipeline_ok c' = pipeline_ok c"
  by (auto simp: send_def split: sum.splits)

lemma pipeline_ok_request [simp]: "pipeline_ok (request_time env now c) = pipeline_ok c"
  by (cases "send env now MTime (PTime time_new) c") (simp add: request_time_def pipeline_ok_send)

lemma pipeline_ok_init:
  "init_audio_pipeline env h c = (e, c') \<Longrightarrow> pipeline_ok c \<longrightarrow> pipeline_ok c'"
  by (auto simp: init_audio_pipeline_def Let_def split: sum.splits option.splits dest!: set_header_ok)
    (auto simp: pipeline_ok_def)

lemma pipeline_ok_chunk: "handle_wire_chunk env wc c = Some c' \<Longrightarrow> pipeline_ok c \<longrightarrow> pipeline_ok c'"
  by (auto simp: handle_wire_chunk_def Let_def split: option.splits if_splits)
    (auto simp: pipeline_ok_def decode_chunk_ok)

lemma pipeline_ok_message:
  "handle_message env now msg c = Some (e, c') \<Longrightarrow> pipeline_ok c \<longrightarrow> pipeline_ok c'"
  by (auto simp: handle_message_def Let_def apply_server_settings_def split: payload.splits message_type.splits
      dest: pipeline_ok_chunk pipeline_ok_init)
    (auto simp: pipeline_ok_def)

lemma pipeline_ok_await:
  "await_settings env now c = (e, c') \<Longrightarrow> pipeline_ok c \<longrightarrow> pipeline_ok c'"
proof (induction "length (tc_in (cl_conn c))" arbitrary: c e c' rule: less_induct)
  case less
  obtain r conn where recv: "conn_recv (ce_parse env) now (cl_conn c) = (r, conn)" by fastforce
  note step = await_settings.simps [of env now c, unfolded recv Let_def prod.case]
  show ?case
  proof (cases r)
    case (Inl err)
    with less.prems show ?thesis by (auto simp: step)
  next
    case (Inr msg)
    have rest: "await_settings env now (d\<lparr>cl_conn := conn\<rparr>) = (e, c') \<Longrightarrow> pipeline_ok d \<longrightarrow> pipeline_ok c'" for d
      using less.hyps [of "d\<lparr>cl_conn := conn\<rparr>" e c'] conn_recv_shorter [OF recv [unfolded Inr]] by simp
    show ?thesis
    proof (cases "msg_payload msg")
      case (PCodecHeader ch)
      obtain oe d where i: "init_audio_pipeline env ch (c\<lparr>cl_conn := conn\<rparr>) = (oe, d)" by fastforce
      from pipeline_ok_init [OF i] less.prems rest [of d] show ?thesis
        by (cases oe) (simp_all add: step Inr PCodecHeader i)
    next
      case (PServerSettings ss)
      with less.prems show ?thesis by (auto simp: step Inr)
    next
      case (PError er)
      with less.prems show ?thesis by (auto simp: step Inr)
    qed (use less.prems rest [of c] in \<open>simp_all add: step Inr\<close>)
  qed
qed

lemma pipeline_ok_hello: "send_hello env now c = (e, c') \<Longrightarrow> pipeline_ok c \<longrightarrow> pipeline_ok c'"
  by (auto simp: send_hello_def split: prod.splits option.splits dest: pipeline_ok_send pipeline_ok_await)

lemma pipeline_ok_step:
  "loop_step env now i quick c = Some (r, q, c') \<Longrightarrow> pipeline_ok c \<longrightarrow> pipeline_ok c'"
  by (auto simp: loop_step_def on_command_def on_error_def Let_def
      split: client_input.splits client_command.splits sum.splits prod.splits option.splits if_splits
      dest!: pipeline_ok_message pipeline_ok_send)

lemma pipeline_ok_inputs:
  "run_inputs env now is quick c = Some (r, c') \<Longrightarrow> pipeline_ok c \<longrightarrow> pipeline_ok c'"
  by (induction env now "is" quick c rule: run_inputs.induct)
    (auto split: option.splits prod.splits loop_result.splits dest: pipeline_ok_step)

lemma pipeline_ok_session:
  "client_session env sp c = Some (r, c') \<Longrightarrow> pipeline_ok c \<longrightarrow> pipeline_ok c'"
  by (auto simp: client_session_def receive_loop_def Let_def split: if_splits sum.splits prod.splits option.splits
      dest!: pipeline_ok_hello pipeline_ok_inputs)

lemma pipeline_ok_cleanup [simp]: "pipeline_ok c \<Longrightarrow> pipeline_ok (cleanup c)"
  by (simp add: pipeline_ok_def cleanup_def)

lemma pipeline_ok_run:
  "run_client env sps n c = Some (stopped, delays, c') \<Longrightarrow> pipeline_ok c \<Longrightarrow> pipeline_ok c'"
  by (induction env sps n c arbitrary: stopped delays c' rule: run_client.induct)
    (auto simp: Let_def split: option.splits prod.splits loop_result.splits dest: pipeline_ok_session)

lemma pipeline_ok_new: "controller_new st = Inr c \<Longrightarrow> pipeline_ok c"
  by (auto simp: controller_new_def pipeline_ok_def sb_new_def split: sum.splits)

text \<open>C8: over any number of connections, whatever the servers send and in whatever order, the format that
  the client announces, the stream that its player reads, every chunk waiting in that stream and the decoder
  in use agree on sample format and encoding: no chunk is ever played as another format than it was decoded to.\<close>

theorem pipeline_coherent:
  assumes "controller_new st = Inr c" "run_client env sps 0 c = Some (stopped, delays, c')"
  shows "stream_fits (cl_format c') (cl_encoding c') (cl_stream c') \<and>
    (\<forall>dec\<in>set_option (cl_decoder c'). decoder_ok (cl_format c') (cl_encoding c') dec)"
  using pipeline_ok_run [OF assms(2) pipeline_ok_new [OF assms(1)]] by (simp add: pipeline_ok_def)

text \<open>A server that refuses the first connection and closes the second one before its settings.\<close>

definition bare_env :: "unit client_env" where
  "bare_env = \<lparr>ce_libs = \<lparr>channels_from_bits = Some, channels_front_left = 1,
       sym_make = (\<lambda>p. Inl ''none''), sym_decode = (\<lambda>d n bs. (d, Inl ''none'')),
       opus_make = (\<lambda>r n. Inl ''none''), opus_decode = (\<lambda>d bs buf. (d, buf, Inl ''none'')),
       float_libs = \<lparr>lz4_compress = id, lz4_decompress = Inr, hkdf = (\<lambda>s k i. k),
         aead_seal = (\<lambda>k n x. None), aead_open = (\<lambda>k n c. None)\<rparr>\<rparr>,
     ce_print = sample_print, ce_parse = sample_parse, ce_hostname = ''h'', ce_mac = ''m'',
     ce_version = ''1'', ce_os = ''o'', ce_arch = ''a''\<rparr>"

definition refused_then_closed :: "script list" where
  "refused_then_closed =
     [\<lparr>sp_now = 0, sp_peer = None, sp_inputs = []\<rparr>, \<lparr>sp_now = 9, sp_peer = Some [1, 2], sp_inputs = []\<rparr>]"

lemma refused_then_closed_run:
  assumes "controller_new (client_conf_default\<lparr>cs_host := ''x''\<rparr>) = Inr (c :: unit controller)"
  shows "map_option (\<lambda>r. (fst r, fst (snd r))) (run_client bare_env refused_then_closed 0 c) = Some (False, [1, 2])"
  using assms
  by (auto simp: refused_then_closed_def controller_new_def snap_connection_def client_conf_default_def
      client_session_def conn_connect_def send_hello_def send_def conn_send_def write_frame_def
      await_settings.simps conn_recv.simps read_frame_short HEADER_SIZE_def reconnect_delay_def
      MAX_RECONNECT_DELAY_SECS_def conn_new_def cleanup_def Let_def)

lemma pipeline_coherent_witness:
  "\<exists>c c'. controller_new (client_conf_default\<lparr>cs_host := ''x''\<rparr>) = Inr (c :: unit controller) \<and>
     run_client bare_env refused_then_closed 0 c = Some (False, [1, 2], c') \<and>
     stream_fits (cl_format c') (cl_encoding c') (cl_stream c')"
proof -
  obtain c :: "unit controller" where c: "controller_new (client_conf_default\<lparr>cs_host := ''x''\<rparr>) = Inr c"
    by (simp add: controller_new_def snap_connection_def client_conf_default_def)
  then obtain c' where "run_client bare_env refused_then_closed 0 c = Some (False, [1, 2], c')"
    using refused_then_closed_run by fastforce
  with c show ?thesis using pipeline_coherent [OF c] by blast
qed

end
