(* ===== verification/EndToEnd.thy ===== *)
theory EndToEnd
  imports ControllerProps Session
begin

text \<open>
  The server's and the client's end of a connection together: what a session of the server writes, read
  by the client's controller.
\<close>

subsection \<open>Receiving what was written\<close>

lemma out_matches: "payload_matches (out_type m) (out_payload m)"
  by (cases m) (simp_all add: payload_matches_def)

lemma recv_out:
  assumes "tc_connected c" "tc_pending c = {}" "tc_in c = serialize_msg print t m @ rest"
    and "payload_ok print parse (out_payload m)" "type_ok True (out_type m)"
  shows "\<exists>msg. conn_recv parse now c = (Inr msg, c\<lparr>tc_in := rest\<rparr>) \<and> msg_payload msg = out_payload m"
proof -
  have "base_ok True \<lparr>bm_msg_type = out_type m, bm_id = 0, bm_refers_to = out_refers m,
      bm_sent = t, bm_received = tv_zero, bm_size = 0\<rparr>"
    using assms(5) by (simp add: base_ok_def)
  from read_frame_written [OF this, of "out_payload m" print parse "steady_time_of_day now" rest] assms(1-4)
  show ?thesis by (simp add: conn_recv_frame serialize_msg_def out_matches)
qed

text \<open>One message in the receive loop.\<close>

lemma loop_message:
  assumes "tc_connected (cl_conn c)" "tc_pending (cl_conn c) = {}"
    and "tc_in (cl_conn c) = serialize_msg print t m @ rest"
    and "payload_ok print (ce_parse env) (out_payload m)" "type_ok True (out_type m)"
  shows "\<exists>msg. msg_payload msg = out_payload m \<and>
    loop_step env now (InMessage ns usec) quick c =
      map_option (\<lambda>r. (fst (on_error r), quick, snd (on_error r)))
        (handle_message env ns msg (c\<lparr>cl_conn := (cl_conn c)\<lparr>tc_in := rest\<rparr>\<rparr>))"
proof -
  obtain msg where "conn_recv (ce_parse env) usec (cl_conn c) = (Inr msg, (cl_conn c)\<lparr>tc_in := rest\<rparr>)"
    "msg_payload msg = out_payload m"
    using recv_out [OF assms, of usec] by blast
  then show ?thesis by (intro exI [of _ msg]) (simp add: loop_step_def)
qed

definition pcm_chunk_of :: "sample_format \<Rightarrow> wire_chunk_data \<Rightarrow> pcm_chunk" where
  "pcm_chunk_of f d = pc_new_with_encoding (from_usec (wd_timestamp_usec d)) (wd_data d) f PcmInt"

lemma run_chunks:
  assumes "tc_connected (cl_conn c)" "tc_pending (cl_conn c) = {}" "cl_decoder c = Some PcmDecoder"
    and "cl_format c = f" "cl_encoding c = PcmInt"
    and "tc_in (cl_conn c) = concat (List.map (\<lambda>d. serialize_msg print t (chunk_message d)) ds)"
    and "\<forall>d\<in>set ds. payload_ok print (ce_parse env) (out_payload (chunk_message d))"
  shows "\<exists>c'. run_inputs env now (replicate (length ds) (InMessage ns usec)) quick c = Some (Going, c') \<and>
    cl_stream c' = fold add_chunk (List.map (pcm_chunk_of f) ds) (cl_stream c)"
  using assms
proof (induction ds arbitrary: c)
  case (Cons d ds)
  let ?rest = "concat (List.map (\<lambda>d. serialize_msg print t (chunk_message d)) ds)"
  let ?c = "c\<lparr>cl_conn := (cl_conn c)\<lparr>tc_in := ?rest\<rparr>, cl_decoder := Some PcmDecoder\<rparr>"
  let ?c1 = "deliver_chunk (from_usec (wd_timestamp_usec d)) (wd_data d) ?c"
  obtain msg where msg: "msg_payload msg = out_payload (chunk_message d)"
    "loop_step env now (InMessage ns usec) quick c = map_option (\<lambda>r. (fst (on_error r), quick, snd (on_error r)))
        (handle_message env ns msg (c\<lparr>cl_conn := (cl_conn c)\<lparr>tc_in := ?rest\<rparr>\<rparr>))"
  proof -
    have "tc_in (cl_conn c) = serialize_msg print t (chunk_message d) @ ?rest" using Cons.prems(6) by simp
    moreover have "payload_ok print (ce_parse env) (out_payload (chunk_message d))" using Cons.prems(7) by simp
    moreover have "type_ok True (out_type (chunk_message d))" by (simp add: chunk_message_def)
    ultimately show thesis
      using loop_message [OF Cons.prems(1,2), of print t "chunk_message d" ?rest env now ns usec quick] that
      by blast
  qed
  then have step: "loop_step env now (InMessage ns usec) quick c = Some (Going, quick, ?c1)"
    using Cons.prems(3)
    by (simp add: chunk_message_def handle_message_def handle_wire_chunk_def decode_chunk_def on_error_def)
  obtain c' where "run_inputs env now (replicate (length ds) (InMessage ns usec)) quick ?c1 = Some (Going, c')"
    "cl_stream c' = fold add_chunk (List.map (pcm_chunk_of f) ds) (cl_stream ?c1)"
    using Cons.IH [of ?c1] Cons.prems by auto
  then show ?case using Cons.prems(4,5) step by (simp add: pcm_chunk_of_def [of f d])
qed simp

lemma fold_add_chunk:
  "sb_chunks (fold add_chunk cs s) = sb_chunks s @ cs \<and> sb_format (fold add_chunk cs s) = sb_format s \<and>
   sb_buffer_ms (fold add_chunk cs s) = sb_buffer_ms s \<and> sb_encoding (fold add_chunk cs s) = sb_encoding s"
  by (induction cs arbitrary: s) (simp_all add: add_chunk_def)

lemma send_keeps:
  "tc_connected (cl_conn c) \<Longrightarrow>
   \<exists>out. send env now t p c = (None, c\<lparr>cl_conn := (cl_conn c)\<lparr>tc_out := out\<rparr>\<rparr>)"
  by (auto simp: send_def conn_send_def write_frame_def)

text \<open>The PCM header of a stream is accepted, and the buffer follows the settings known by then.\<close>

lemma pcm_encoding [simp]: "output_encoding PcmDecoder = PcmInt"
  by (simp add: output_encoding_def)

definition pcm_pipeline :: "sample_format \<Rightarrow> 'd controller \<Rightarrow> 'd controller" where
  "pcm_pipeline f c =
     (emit (StreamStarted ''pcm'' f) (c\<lparr>cl_format := f, cl_encoding := PcmInt\<rparr>))
       \<lparr>cl_stream := (case cl_server_settings c of None \<Rightarrow> sb_with_encoding f PcmInt
          | Some ss \<Rightarrow> set_buffer_ms (playout_ms (cl_settings c) ss) (sb_with_encoding f PcmInt)),
        cl_decoder := Some PcmDecoder\<rparr>"

lemma init_pcm:
  assumes "sf_rate f \<noteq> 0"
  shows "init_audio_pipeline env \<lparr>ch_codec = ''pcm'', ch_payload = build_wav_header f\<rparr> c = (None, pcm_pipeline f c)"
proof -
  have "create_decoder (ce_libs env) p \<lparr>ch_codec = ''pcm'', ch_payload = build_wav_header f\<rparr> = Inr PcmDecoder" for p
    by (simp add: create_decoder_def)
  moreover have "set_header (ce_libs env) (build_wav_header f) PcmDecoder = Inr (f, PcmDecoder)"
    using assms by (simp add: set_header_def wav_header_parsed)
  ultimately show ?thesis by (simp add: init_audio_pipeline_def pcm_pipeline_def Let_def split: option.split)
qed

lemma hello_then_settings:
  assumes "tc_connected (cl_conn c)" "tc_pending (cl_conn c) = {}"
    and "tc_in (cl_conn c) = serialize_msg print t (OutSettings ss refers) @ rest"
    and "payload_ok print (ce_parse env) (PServerSettings ss)"
  shows "\<exists>out. send_hello env now c = (None, (emit (settings_event ss)
      (c\<lparr>cl_conn := (cl_conn c)\<lparr>tc_out := out, tc_in := rest\<rparr>\<rparr>))\<lparr>cl_server_settings := Some ss\<rparr>)"
proof -
  obtain out where s: "send env now MHello (PHello (client_hello env (cl_settings c))) c =
      (None, c\<lparr>cl_conn := (cl_conn c)\<lparr>tc_out := out\<rparr>\<rparr>)"
    using send_keeps [OF assms(1)] by blast
  let ?conn = "(cl_conn c)\<lparr>tc_out := out\<rparr>"
  have "\<exists>msg. conn_recv (ce_parse env) now ?conn = (Inr msg, ?conn\<lparr>tc_in := rest\<rparr>) \<and>
      msg_payload msg = out_payload (OutSettings ss refers)"
    using assms by (intro recv_out [of _ print t]) simp_all
  then show ?thesis
    by (intro exI [of _ out]) (auto simp: send_hello_def s await_settings.simps)
qed

text \<open>A client between messages: connected, with nothing requested.\<close>

definition receiving :: "u8 list \<Rightarrow> 'd controller \<Rightarrow> bool" where
  "receiving bs c \<longleftrightarrow> tc_connected (cl_conn c) \<and> tc_pending (cl_conn c) = {} \<and> tc_in (cl_conn c) = bs"

text \<open>After the settings of the greeting the client is in its receive loop.\<close>

lemma session_greeted:
  assumes "cs_host (cl_settings c) \<noteq> []" "payload_ok print (ce_parse env) (PServerSettings ss)"
    and "sp_peer sp = Some (serialize_msg print t (OutSettings ss refers) @ rest)"
  shows "\<exists>c1. client_session env sp c = run_inputs env (sp_now sp) (sp_inputs sp) INITIAL_QUICK_SYNCS c1 \<and>
    receiving rest c1 \<and> cl_server_settings c1 = Some ss \<and> cl_settings c1 = cl_settings c"
proof -
  obtain conn where conn: "conn_connect (sp_peer sp) (cl_conn c) = Inr conn" "tc_connected conn"
    "tc_pending conn = {}" "tc_in conn = serialize_msg print t (OutSettings ss refers) @ rest"
    by (simp add: conn_connect_def assms(3))
  let ?c0 = "emit (Connected (cs_host (cl_settings c)) (cs_port (cl_settings c))) (c\<lparr>cl_conn := conn\<rparr>)"
  obtain out where hello: "send_hello env (sp_now sp) ?c0 = (None, (emit (settings_event ss)
      (?c0\<lparr>cl_conn := (cl_conn ?c0)\<lparr>tc_out := out, tc_in := rest\<rparr>\<rparr>))\<lparr>cl_server_settings := Some ss\<rparr>)"
    using hello_then_settings [of ?c0 print t ss refers rest env "sp_now sp"] conn assms(2) by auto
  let ?c1 = "(emit (settings_event ss)
      (?c0\<lparr>cl_conn := (cl_conn ?c0)\<lparr>tc_out := out, tc_in := rest\<rparr>\<rparr>))\<lparr>cl_server_settings := Some ss\<rparr>"
  have "tc_connected (cl_conn ?c1)" using conn by simp
  then obtain out2 where "send env (sp_now sp) MTime (PTime time_new) ?c1 =
      (None, ?c1\<lparr>cl_conn := (cl_conn ?c1)\<lparr>tc_out := out2\<rparr>\<rparr>)"
    using send_keeps by blast
  then have "request_time env (sp_now sp) ?c1 = ?c1\<lparr>cl_conn := (cl_conn ?c1)\<lparr>tc_out := out2\<rparr>\<rparr>"
    by (simp add: request_time_def)
  then have "client_session env sp c = run_inputs env (sp_now sp) (sp_inputs sp) INITIAL_QUICK_SYNCS
      (?c1\<lparr>cl_conn := (cl_conn ?c1)\<lparr>tc_out := out2\<rparr>\<rparr>)"
    by (simp add: client_session_def assms(1) conn(1) Let_def hello receive_loop_def del: emit_simps)
  with conn show ?thesis by (intro exI conjI) (assumption, simp_all add: receiving_def)
qed

lemma header_step:
  assumes "receiving (serialize_msg print t (OutCodec stream
      \<lparr>ci_codec = ''pcm'', ci_header = build_wav_header f\<rparr>) @ rest) c"
    and "payload_ok print (ce_parse env) (out_payload (OutCodec stream
      \<lparr>ci_codec = ''pcm'', ci_header = build_wav_header f\<rparr>))" "sf_rate f \<noteq> 0"
  shows "loop_step env now (InMessage ns usec) quick c =
    Some (Going, quick, pcm_pipeline f (c\<lparr>cl_conn := (cl_conn c)\<lparr>tc_in := rest\<rparr>\<rparr>))"
proof -
  let ?info = "\<lparr>ci_codec = ''pcm'', ci_header = build_wav_header f\<rparr>"
  have "type_ok True (out_type (OutCodec stream ?info))" by simp
  then obtain msg where "msg_payload msg = out_payload (OutCodec stream ?info)"
    "loop_step env now (InMessage ns usec) quick c =
      map_option (\<lambda>r. (fst (on_error r), quick, snd (on_error r)))
        (handle_message env ns msg (c\<lparr>cl_conn := (cl_conn c)\<lparr>tc_in := rest\<rparr>\<rparr>))"
    using loop_message [of c print t "OutCodec stream ?info" rest env now ns usec quick] assms(1,2)
    by (auto simp: receiving_def)
  then show ?thesis by (simp add: handle_message_def init_pcm [OF assms(3)] on_error_def)
qed

text \<open>From a PCM stream's session of the server to the client's player, nothing is lost or changed: after
  the greeting and any number of chunks have crossed the wire, the client's stream buffer has exactly the
  server's chunks, in order, with their bytes, their timestamps and the server's sample format, and its
  playout delay is the server's buffer less both latencies.\<close>

lemma pcm_end_to_end:
  assumes "cs_host (cl_settings c) \<noteq> []" "sf_rate f \<noteq> 0"
    and "se_out se = OutSettings ss refers #
      OutCodec stream \<lparr>ci_codec = ''pcm'', ci_header = build_wav_header f\<rparr> # List.map chunk_message ds"
    and "\<forall>m\<in>set (se_out se). payload_ok print (ce_parse env) (out_payload m)"
    and "sp_peer sp = Some (concat (List.map (serialize_msg print t) (se_out se)))"
    and "sp_inputs sp = replicate (length (se_out se) - 1) (InMessage ns usec)"
  shows "\<exists>c'. client_session env sp c = Some (Going, c') \<and>
    sb_chunks (cl_stream c') = List.map (pcm_chunk_of f) ds \<and>
    sb_format (cl_stream c') = f \<and> sb_buffer_ms (cl_stream c') = playout_ms (cl_settings c) ss"
proof -
  let ?hdr = "OutCodec stream \<lparr>ci_codec = ''pcm'', ci_header = build_wav_header f\<rparr>"
  let ?rest = "concat (List.map (\<lambda>d. serialize_msg print t (chunk_message d)) ds)"
  have ok: "payload_ok print (ce_parse env) (PServerSettings ss)" "payload_ok print (ce_parse env) (out_payload ?hdr)"
    "\<forall>d\<in>set ds. payload_ok print (ce_parse env) (out_payload (chunk_message d))"
    using assms(4) by (simp_all add: assms(3))
  have "sp_peer sp = Some (serialize_msg print t (OutSettings ss refers) @ (serialize_msg print t ?hdr @ ?rest))"
    by (simp add: assms(3,5) comp_def)
  from session_greeted [OF assms(1) ok(1) this] obtain c1 where c1:
    "client_session env sp c = run_inputs env (sp_now sp) (sp_inputs sp) INITIAL_QUICK_SYNCS c1"
    "receiving (serialize_msg print t ?hdr @ ?rest) c1" "cl_server_settings c1 = Some ss"
    "cl_settings c1 = cl_settings c" by blast
  define c2 where "c2 = pcm_pipeline f (c1\<lparr>cl_conn := (cl_conn c1)\<lparr>tc_in := ?rest\<rparr>\<rparr>)"
  have step: "loop_step env (sp_now sp) (InMessage ns usec) quick c1 = Some (Going, quick, c2)" for quick
    using header_step [OF c1(2) ok(2) assms(2)] by (simp add: c2_def)
  have "\<exists>c'. run_inputs env (sp_now sp) (replicate (length ds) (InMessage ns usec)) INITIAL_QUICK_SYNCS c2 =
      Some (Going, c') \<and> cl_stream c' = fold add_chunk (List.map (pcm_chunk_of f) ds) (cl_stream c2)"
    using c1(2) ok(3)
    by (intro run_chunks [of _ _ print t]) (simp_all add: c2_def pcm_pipeline_def receiving_def)
  then obtain c' where c':
    "run_inputs env (sp_now sp) (replicate (length ds) (InMessage ns usec)) INITIAL_QUICK_SYNCS c2 = Some (Going, c')"
    "cl_stream c' = fold add_chunk (List.map (pcm_chunk_of f) ds) (cl_stream c2)" by blast
  have "client_session env sp c = Some (Going, c')"
    by (simp add: c1(1) assms(3,6) step c'(1))
  moreover have "cl_stream c2 = set_buffer_ms (playout_ms (cl_settings c) ss) (sb_with_encoding f PcmInt)"
    using c1(3,4) by (simp add: c2_def pcm_pipeline_def)
  ultimately show ?thesis
    using c'(2) fold_add_chunk [of "List.map (pcm_chunk_of f) ds" "cl_stream c2"]
    by (simp add: set_buffer_ms_def sb_with_encoding_def)
qed

definition demo_codec_libs :: "unit codec_libs" where
  "demo_codec_libs = \<lparr>channels_from_bits = Some, channels_front_left = 1,
     sym_make = (\<lambda>p. Inl ''none''), sym_decode = (\<lambda>d n bs. (d, Inl ''none'')),
     opus_make = (\<lambda>r n. Inl ''none''), opus_decode = (\<lambda>d bs buf. (d, buf, Inl ''none'')), float_libs = demo_libs\<rparr>"

definition demo_settings :: server_settings where
  "demo_settings = \<lparr>ss_buffer_ms = 1000, ss_latency = 100, ss_volume = 50, ss_muted = False\<rparr>"

definition demo_client_env :: "unit client_env" where
  "demo_client_env = \<lparr>ce_libs = demo_codec_libs, ce_print = sample_print,
     ce_parse = (\<lambda>s. Some (server_settings_to_json demo_settings)), ce_hostname = ''h'', ce_mac = ''m'',
     ce_version = ''1'', ce_os = ''o'', ce_arch = ''a''\<rparr>"

definition demo_listener :: "unit controller" where
  "demo_listener = \<lparr>cl_settings = client_conf_default\<lparr>cs_host := ''server'', cs_latency := 200\<rparr>,
     cl_conn = conn_new ''server'' 1704, cl_time = tp_new, cl_stream = sb_new sf_default, cl_decoder = None,
     cl_format = sf_default, cl_encoding = PcmInt, cl_server_settings = None, cl_events = [], cl_audio = []\<rparr>"

definition demo_out :: "out_msg list" where
  "demo_out = [OutSettings demo_settings 1,
     OutCodec ''s'' \<lparr>ci_codec = ''pcm'', ci_header = build_wav_header (sf_new 48000 16 2)\<rparr>,
     chunk_message \<lparr>wd_stream_id = ''s'', wd_timestamp_usec = 20000, wd_data = [1, 2, 3, 4]\<rparr>]"

definition demo_audio_session :: session where
  "demo_audio_session = \<lparr>se_hello = client_hello demo_client_env (cl_settings demo_listener), se_hello_id = 1,
     se_phase = Running, se_settings = demo_settings, se_routing = \<lparr>ro_stream_id = ''s'',
       ro_client_muted = False, ro_group_muted = False\<rparr>, se_watch = \<lparr>ro_stream_id = ''s'',
       ro_client_muted = False, ro_group_muted = False\<rparr>, se_watch_changed = False, se_settings_rx = [],
     se_custom_rx = [], se_out = demo_out\<rparr>"

definition demo_script :: script where
  "demo_script = \<lparr>sp_now = 5, sp_peer = Some (concat (List.map (serialize_msg sample_print tv_zero) demo_out)),
     sp_inputs = [InMessage 0 0, InMessage 0 0]\<rparr>"

lemma demo_payloads:
  "payload_ok sample_print (ce_parse demo_client_env) (PServerSettings demo_settings)"
  "payload_ok sample_print parse (PCodecHeader \<lparr>ch_codec = ''pcm'', ch_payload = build_wav_header f\<rparr>)"
  "length d = 4 \<Longrightarrow> payload_ok sample_print parse (PWireChunk \<lparr>wc_timestamp = t, wc_payload = d\<rparr>)"
proof -
  have "str_ok ''pcm''" by (simp add: str_ok_def as_bytes_def byte_of_def utf8_valid_ascii)
  moreover have "length (build_wav_header f) = 44" by (simp add: build_wav_header_def Let_def)
  ultimately show
    "payload_ok sample_print (ce_parse demo_client_env) (PServerSettings demo_settings)"
    "payload_ok sample_print parse (PCodecHeader \<lparr>ch_codec = ''pcm'', ch_payload = build_wav_header f\<rparr>)"
    "length d = 4 \<Longrightarrow> payload_ok sample_print parse (PWireChunk \<lparr>wc_timestamp = t, wc_payload = d\<rparr>)"
    by (simp_all add: payload_ok_def write_payload_def small_def DEFAULT_MAX_PAYLOAD_SIZE_def json_text_ok_def
        sample_print_def string_ok_def write_json_def length_write_string length_write_bytes demo_client_env_def
        codec_header_ok_def write_codec_header_def wire_chunk_ok_def write_wire_chunk_def)
qed

lemma pcm_end_to_end_witness:
  "\<exists>c'. client_session demo_client_env demo_script demo_listener = Some (Going, c') \<and>
    List.map pc_data (sb_chunks (cl_stream c')) = [[1, 2, 3, 4]] \<and>
    sb_format (cl_stream c') = sf_new 48000 16 2 \<and> sb_buffer_ms (cl_stream c') = 700"
proof -
  let ?d = "\<lparr>wd_stream_id = ''s'', wd_timestamp_usec = 20000, wd_data = [1, 2, 3, 4]\<rparr>"
  have "\<exists>c'. client_session demo_client_env demo_script demo_listener = Some (Going, c') \<and>
    sb_chunks (cl_stream c') = List.map (pcm_chunk_of (sf_new 48000 16 2)) [?d] \<and>
    sb_format (cl_stream c') = sf_new 48000 16 2 \<and>
    sb_buffer_ms (cl_stream c') = playout_ms (cl_settings demo_listener) demo_settings"
    by (rule pcm_end_to_end [of demo_listener "sf_new 48000 16 2" demo_audio_session demo_settings 1 "''s''" "[?d]"
          sample_print demo_client_env demo_script tv_zero 0 0])
      (simp_all add: demo_listener_def demo_audio_session_def demo_out_def demo_script_def sf_new_def chunk_message_def
        demo_payloads)
  moreover have "playout_ms (cl_settings demo_listener) demo_settings = 700"
    by (simp add: playout_ms_def demo_settings_def demo_listener_def client_conf_default_def)
  ultimately show ?thesis by (auto simp: pcm_chunk_of_def pc_new_with_encoding_def)
qed

end
