(* ===== verification/SourceEnd.thy ===== *)
theory SourceEnd
  imports SourceProps EndToEnd ServerProps
begin

text \<open>
  The way of the audio from a source of the server program to the stream buffer of a client: the reader, the
  encoder's thread, a session of the server, the wire, and the client's controller.
\<close>

subsection \<open>The encoder's thread\<close>

definition stamped_data :: "string \<Rightarrow> u32 audio_frame \<Rightarrow> wire_chunk_data" where
  "stamped_data stream f =
     \<lparr>wd_stream_id = stream, wd_timestamp_usec = af_timestamp f,
      wd_data = (case af_data f of Pcm d \<Rightarrow> d | F32 _ \<Rightarrow> [])\<rparr>"

lemma pcm_thread_sent:
  assumes "et_encoder t = PcmEncoder f h" "\<forall>i\<in>set ins. \<exists>d. af_data (snd i) = Pcm d \<and> d \<noteq> []"
  shows "thread_run libs stream rate channels ins t =
    Some (t\<lparr>et_sent := et_sent t @ List.map (stamped_data stream \<circ> snd) ins,
            et_times := et_times t @ List.map fst ins\<rparr>)"
  using assms
proof (induction ins arbitrary: t)
  case (Cons i ins)
  obtain now fr where i: "i = (now, fr)" by (cases i)
  obtain d where d: "af_data fr = Pcm d" "d \<noteq> []" using Cons.prems(2) by (auto simp: i)
  let ?t = "t\<lparr>et_sent := et_sent t @ [stamped_data stream fr], et_times := et_times t @ [now]\<rparr>"
  have "thread_step libs stream rate channels i t = Some ?t"
    using d Cons.prems(1)
    by (cases t) (simp add: i thread_step_def encode_def pcm_encode_def send_encoded_def stamped_data_def)
  with Cons.IH [of ?t] Cons.prems show ?case by (simp add: i comp_def)
qed simp

subsection \<open>A session that forwards\<close>

text \<open>One turn of the loop for each chunk: the session takes the chunk, and drains its custom messages
  before it waits for the next.\<close>

fun forward_chunks :: "config \<Rightarrow> nat \<Rightarrow> wire_chunk_data list \<Rightarrow> server \<Rightarrow> server option" where
  "forward_chunks cfg sid [] v = Some v"
| "forward_chunks cfg sid (d # ds) v =
     Option.bind (on_chunk cfg sid d v) (\<lambda>w. Option.bind (drain_custom sid w) (forward_chunks cfg sid ds))"

text \<open>A running session that is routed to a stream, hears it, and has no message of its own pending.\<close>

definition listening :: "string \<Rightarrow> session \<Rightarrow> bool" where
  "listening stream se \<longleftrightarrow>
     se_custom_rx se = [] \<and> ro_stream_id (se_routing se) = stream \<and>
     \<not> ro_client_muted (se_routing se) \<and> \<not> ro_group_muted (se_routing se)"

lemma forward_chunks_out:
  assumes "running v sid = Some se" "listening stream se" "\<forall>d\<in>set ds. wd_stream_id d = stream"
  shows "\<exists>w. forward_chunks cfg sid ds v = Some w \<and>
    running w sid = Some (se\<lparr>se_out := se_out se @ List.map chunk_message ds\<rparr>)"
  using assms
proof (induction ds arbitrary: v se)
  case (Cons d ds)
  let ?se = "se\<lparr>se_out := se_out se @ [chunk_message d]\<rparr>"
  note se = running_session [OF Cons.prems(1)]
  let ?w = "v\<lparr>v_sessions := (v_sessions v)(sid \<mapsto> ?se\<lparr>se_phase := Draining\<rparr>)\<rparr>"
  let ?v = "v\<lparr>v_sessions := (v_sessions v)(sid \<mapsto> ?se)\<rparr>"
  have "on_chunk cfg sid d v = Some ?w"
    using on_chunk_after [OF Cons.prems(1), of cfg d] Cons.prems(2,3) by (simp add: forwarded_def listening_def)
  moreover have "drain_custom sid ?w = Some ?v"
    using drain_after [of ?w sid "?se\<lparr>se_phase := Draining\<rparr>"] se Cons.prems(2)
    by (cases se) (simp add: listening_def custom_messages_def)
  moreover have "running ?v sid = Some ?se" using se by (simp add: running_def)
  moreover have "listening stream ?se" using Cons.prems(2) by (simp add: listening_def)
  ultimately show ?case using Cons.IH [of ?v ?se] Cons.prems(3) by simp
qed simp

subsection \<open>From the pipe to the player\<close>

text \<open>The timestamp of the \<open>i\<close>th chunk.\<close>

definition chunk_time :: "source_round \<Rightarrow> u32 \<Rightarrow> nat \<Rightarrow> nat \<Rightarrow> timeval" where
  "chunk_time r rate frames i = from_usec (so_at r + int (i * frames) * 1000000 div uint rate)"

text \<open>C1: the audio of a named pipe, read by the server program, passed through the PCM encoder's thread, forwarded by
  a session, sent over the wire and read by a client's controller, is in the client's stream buffer in whole
  chunks with every byte in its place, stamped evenly from the opening of the pipe, in the server's sample
  format, under the delay of the server's buffer less both latencies.  Only a last partial chunk is missing.\<close>

theorem pipe_to_player:
  fixes f frames r stream
  defines "bytes \<equiv> frames * unat (frame_size f)"
  defines "chunks \<equiv> length (so_bytes r) div bytes"
  assumes "0 < bytes" "sf_rate f \<noteq> 0" "frames < 2 ^ 32" "so_opened r" "round_ok frames bytes r"
    and "pipe_reader None (sf_rate f) frames bytes [r] [] = Some sent" "length clock = length sent"
    and "thread_run libs stream (sf_rate f) (sf_channels f) (List.zip clock sent)
      \<lparr>et_encoder = PcmEncoder f (build_wav_header f), et_tick = None, et_sent = [], et_times = []\<rparr> = Some th"
    and "running v sid = Some se" "listening stream se"
    and "se_out se = [OutSettings ss refers, OutCodec stream \<lparr>ci_codec = ''pcm'', ci_header = build_wav_header f\<rparr>]"
    and "forward_chunks cfg sid (et_sent th) v = Some w" "running w sid = Some se'"
    and "cs_host (cl_settings c) \<noteq> []" "\<forall>m\<in>set (se_out se'). payload_ok print (ce_parse env) (out_payload m)"
    and "sp_peer sp = Some (concat (List.map (serialize_msg print t) (se_out se')))"
    and "sp_inputs sp = replicate (length (se_out se') - 1) (InMessage ns usec)"
  shows "\<exists>c'. client_session env sp c = Some (Going, c') \<and>
    concat (List.map pc_data (sb_chunks (cl_stream c'))) = take (chunks * bytes) (so_bytes r) \<and>
    List.map pc_timestamp (sb_chunks (cl_stream c')) = List.map (chunk_time r (sf_rate f) frames) [0..<chunks] \<and>
    (\<forall>p\<in>set (sb_chunks (cl_stream c')). length (pc_data p) = bytes \<and> pc_format p = f) \<and>
    sb_format (cl_stream c') = f \<and> sb_buffer_ms (cl_stream c') = playout_ms (cl_settings c) ss"
proof -
  have sent: "sent = source_chunks (so_at r) 0 (sf_rate f) frames bytes (so_bytes r)"
    using pipe_reader_chunks [OF assms(3-5), of "[r]" "[]"] assms(6-8) by simp
  have chunk: "length (take bytes (drop (i * bytes) (so_bytes r))) = bytes" if "i < chunks" for i
  proof -
    have "Suc i * bytes \<le> chunks * bytes" using that by (intro mult_le_mono1) simp
    also have "\<dots> \<le> length (so_bytes r)" by (simp add: chunks_def)
    finally show ?thesis by simp
  qed
  have "\<forall>x\<in>set sent. \<exists>d. af_data x = Pcm d \<and> d \<noteq> []"
    using assms(3) chunk by (force simp: sent source_chunks_def chunks_def)
  then have "\<forall>i\<in>set (List.zip clock sent). \<exists>d. af_data (snd i) = Pcm d \<and> d \<noteq> []" by (auto dest: set_zip_rightD)
  from pcm_thread_sent [where t = "\<lparr>et_encoder = PcmEncoder f (build_wav_header f), et_tick = None, et_sent = [], et_times = []\<rparr>"
      and f = f and h = "build_wav_header f" and libs = libs, OF _ this]
  have th: "et_sent th = List.map (stamped_data stream) sent"
    using assms(9,10) by (auto simp flip: List.map_map)
  have "\<forall>d\<in>set (et_sent th). wd_stream_id d = stream" by (auto simp: th stamped_data_def)
  from forward_chunks_out [OF assms(11,12) this, of cfg] assms(14,15)
  have out: "se_out se' = OutSettings ss refers #
      OutCodec stream \<lparr>ci_codec = ''pcm'', ci_header = build_wav_header f\<rparr> # List.map chunk_message (et_sent th)"
    by (auto simp: assms(13))
  obtain c' where c': "client_session env sp c = Some (Going, c')"
    "sb_chunks (cl_stream c') = List.map (pcm_chunk_of f) (et_sent th)" "sb_format (cl_stream c') = f"
    "sb_buffer_ms (cl_stream c') = playout_ms (cl_settings c) ss"
    using pcm_end_to_end [OF assms(16,4) out assms(17-19)] by blast
  let ?data = "\<lambda>x. case af_data x of Pcm d \<Rightarrow> d | F32 _ \<Rightarrow> []"
  have data: "List.map pc_data (sb_chunks (cl_stream c')) = List.map ?data sent"
    by (simp add: c' th comp_def pcm_chunk_of_def pc_new_with_encoding_def stamped_data_def)
  have "List.map pc_timestamp (sb_chunks (cl_stream c')) = List.map (from_usec \<circ> af_timestamp) sent"
    by (simp add: c' th comp_def pcm_chunk_of_def pc_new_with_encoding_def stamped_data_def)
  also have "\<dots> = List.map (chunk_time r (sf_rate f) frames) [0..<chunks]"
    by (simp add: sent source_chunks_def chunk_time_def chunks_def)
  finally have stamps: "List.map pc_timestamp (sb_chunks (cl_stream c')) =
      List.map (chunk_time r (sf_rate f) frames) [0..<chunks]" .
  have "\<forall>p\<in>set (sb_chunks (cl_stream c')). length (pc_data p) = bytes \<and> pc_format p = f"
    using chunk by (auto simp: c' th sent source_chunks_def pcm_chunk_of_def pc_new_with_encoding_def stamped_data_def
        chunks_def)
  with c' data stamps show ?thesis
    using source_chunks_bytes [OF assms(3), of "so_at r" 0 "sf_rate f" frames "so_bytes r"]
    by (simp add: sent chunks_def)
qed

definition demo_pipe :: source_round where
  "demo_pipe = \<lparr>so_opened = True, so_at = 20000, so_bytes = [1, 2, 3, 4], so_end = 30000\<rparr>"

definition demo_forwarding :: server where
  "demo_forwarding = (server_start server_config_default)
     \<lparr>v_sessions := [0 \<mapsto> demo_audio_session\<lparr>se_out := take 2 demo_out\<rparr>]\<rparr>"

lemma pipe_to_player_witness:
  "\<exists>c'. client_session demo_client_env demo_script demo_listener = Some (Going, c') \<and>
    concat (List.map pc_data (sb_chunks (cl_stream c'))) = [1, 2, 3, 4] \<and> sb_buffer_ms (cl_stream c') = 700"
proof -
  let ?f = "sf_new 48000 16 2"
  let ?t = "\<lparr>et_encoder = PcmEncoder ?f (build_wav_header ?f), et_tick = None, et_sent = [], et_times = []\<rparr>"
  let ?se = "demo_audio_session\<lparr>se_out := take 2 demo_out\<rparr>"
  let ?d = "\<lparr>wd_stream_id = ''s'', wd_timestamp_usec = 20000, wd_data = [1, 2, 3, 4]\<rparr>"
  have bytes: "unat (frame_size ?f) = 4" by (simp add: frame_size_def sample_size_def sf_new_def)
  have ok: "round_ok 1 4 demo_pipe" by (simp add: round_ok_def demo_pipe_def)
  have pipe: "pipe_reader None 48000 1 4 [demo_pipe] [] = Some [\<lparr>af_data = Pcm [1, 2, 3, 4], af_timestamp = 20000\<rparr>]"
    using pipe_reader_chunks [of 4 48000 1 "[demo_pipe]" "[]"] ok by (simp add: demo_pipe_def source_chunks_def)
  have thread: "thread_run demo_enc_libs ''s'' 48000 2 (List.zip [7] [\<lparr>af_data = Pcm [1, 2, 3, 4], af_timestamp = 20000\<rparr>]) ?t =
      Some (?t\<lparr>et_sent := [?d], et_times := [7]\<rparr>)"
    using pcm_thread_sent [of ?t ?f "build_wav_header ?f" "[(7, \<lparr>af_data = Pcm [1, 2, 3, 4], af_timestamp = 20000\<rparr>)]"]
    by (simp add: stamped_data_def)
  have se: "running demo_forwarding 0 = Some ?se" "listening ''s'' ?se"
    by (simp_all add: running_def demo_forwarding_def demo_audio_session_def listening_def)
  from forward_chunks_out [OF se, of "[?d]"] obtain w where w: "forward_chunks (session_config server_config_default ''s'') 0 [?d]
      demo_forwarding = Some w" "running w 0 = Some (?se\<lparr>se_out := demo_out\<rparr>)"
    by (auto simp: demo_out_def)
  have "\<exists>c'. client_session demo_client_env demo_script demo_listener = Some (Going, c') \<and>
      concat (List.map pc_data (sb_chunks (cl_stream c'))) =
        take (length (so_bytes demo_pipe) div (1 * unat (frame_size ?f)) * (1 * unat (frame_size ?f))) (so_bytes demo_pipe) \<and>
      List.map pc_timestamp (sb_chunks (cl_stream c')) = List.map (chunk_time demo_pipe (sf_rate ?f) 1)
        [0..<length (so_bytes demo_pipe) div (1 * unat (frame_size ?f))] \<and>
      (\<forall>p\<in>set (sb_chunks (cl_stream c')). length (pc_data p) = 1 * unat (frame_size ?f) \<and> pc_format p = ?f) \<and>
      sb_format (cl_stream c') = ?f \<and> sb_buffer_ms (cl_stream c') = playout_ms (cl_settings demo_listener) demo_settings"
    by (rule pipe_to_player [where stream = "''s''" and v = demo_forwarding and sid = 0 and se = ?se and
          se' = "?se\<lparr>se_out := demo_out\<rparr>" and w = w and clock = "[7]" and refers = 1 and print = sample_print and
          t = tv_zero and ns = 0 and usec = 0 and th = "?t\<lparr>et_sent := [?d], et_times := [7]\<rparr>" and
          sent = "[\<lparr>af_data = Pcm [1, 2, 3, 4], af_timestamp = 20000\<rparr>]" and libs = demo_enc_libs and
          cfg = "session_config server_config_default ''s''"])
      (use pipe thread se w ok in \<open>simp_all add: bytes [unfolded sf_new_def] demo_listener_def demo_script_def demo_out_def
         chunk_message_def demo_payloads sf_new_def demo_pipe_def
         del: pipe_reader.simps thread_run.simps forward_chunks.simps\<close>)
  moreover have "playout_ms (cl_settings demo_listener) demo_settings = 700"
    by (simp add: playout_ms_def demo_settings_def demo_listener_def client_conf_default_def)
  ultimately show ?thesis by (auto simp: bytes demo_pipe_def)
qed

end
