(* ===== verification/SourceMeta.thy ===== *)
theory SourceMeta
  imports Strings
begin

text \<open>
  What librespot and shairport-sync say of the track on their error output, as \<open>stream/librespot.rs\<close> and
  \<open>stream/airplay.rs\<close> read it: line by line, to the pairs of name and value that are sent on the metadata
  channel.
\<close>

text \<open>The lines of an output: a carriage return before the end of a line is dropped, and a line that is not
  UTF-8 ends the reading.\<close>

definition strip_cr :: "u8 list \<Rightarrow> u8 list" where
  "strip_cr bs = (if bs \<noteq> [] \<and> last bs = 13 then butlast bs else bs)"

function output_lines :: "u8 list \<Rightarrow> string list" where
  "output_lines bs =
     (if bs = [] then []
      else let line = takeWhile (\<lambda>b. b \<noteq> 10) bs; rest = dropWhile (\<lambda>b. b \<noteq> 10) bs in
           if \<not> utf8_valid line then []
           else if rest = [] then [from_bytes line]
           else from_bytes (strip_cr line) # output_lines (tl rest))"
  by pat_completeness auto
termination
proof (relation "measure length")
  show "(tl r, bs) \<in> measure length" if "r = dropWhile (\<lambda>b. b \<noteq> 10) bs" "r \<noteq> []" for r bs :: "u8 list"
  proof -
    have "length (tl r) < length r" using that(2) by simp
    also have "length r \<le> length bs" unfolding that(1) by (rule length_dropWhile_le)
    finally show ?thesis by simp
  qed
qed simp

declare output_lines.simps [simp del]

definition librespot_title :: "string \<Rightarrow> string option" where
  "librespot_title line =
     (case (split_once CHR ''<'' line, split_once CHR ''>'' line, split_once_str ''ms) loaded'' line) of
        (Some (a, _), Some (b, _), Some _) \<Rightarrow>
          if length a < length b then Some (drop (length a + 1) b) else None
      | _ \<Rightarrow> None)"

definition librespot_metadata :: "u8 list \<Rightarrow> (string \<times> string) list" where
  "librespot_metadata bs = List.map (\<lambda>t. (''title'', t)) (List.map_filter librespot_title (output_lines bs))"

definition airplay_entry :: "string \<Rightarrow> (string \<times> string) option" where
  "airplay_entry line =
     (case strip_prefix ''Title: '' line of
        Some t \<Rightarrow> Some (''title'', t)
      | None \<Rightarrow>
          (case strip_prefix ''Artist: '' line of
             Some a \<Rightarrow> Some (''artist'', a)
           | None \<Rightarrow> map_option (\<lambda>a. (''album'', a)) (strip_prefix ''Album: '' line)))"

definition airplay_metadata :: "u8 list \<Rightarrow> (string \<times> string) list" where
  "airplay_metadata bs = List.map_filter airplay_entry (output_lines bs)"

text \<open>The title is what stands between the brackets, as long as it has none itself: a title with a closing
  one is cut there.\<close>

lemma split_once_str_found: "split_once_str p (a @ p @ b) \<noteq> None"
proof (induction a)
  case Nil
  have "strip_prefix p (p @ b) = Some b" by simp
  then show ?case by (cases "p @ b") auto
next
  case (Cons x a)
  then show ?case by (auto split: option.split)
qed

lemma librespot_title_cut:
  assumes "CHR ''<'' \<notin> set before" "CHR ''>'' \<notin> set before" "CHR ''>'' \<notin> set t"
  shows "librespot_title (before @ ''<'' @ t @ ''>'' @ rest @ ''ms) loaded'') = Some t"
proof -
  have "split_once CHR ''<'' (before @ ''<'' @ t @ ''>'' @ rest @ ''ms) loaded'') = Some (before, t @ ''>'' @ rest @ ''ms) loaded'')"
    using assms(1) by (simp add: split_once_Some)
  moreover have "split_once CHR ''>'' (before @ ''<'' @ t @ ''>'' @ rest @ ''ms) loaded'') =
      Some (before @ ''<'' @ t, rest @ ''ms) loaded'')"
    using assms(2,3) by (simp add: split_once_Some)
  moreover have "split_once_str ''ms) loaded'' (before @ ''<'' @ t @ ''>'' @ rest @ ''ms) loaded'') \<noteq> None"
    using split_once_str_found [of "''ms) loaded''" "before @ ''<'' @ t @ ''>'' @ rest" "[]"] by simp
  ultimately show ?thesis by (auto simp: librespot_title_def)
qed

lemma airplay_entries:
  "airplay_entry (''Title: '' @ t) = Some (''title'', t)" "airplay_entry (''Artist: '' @ t) = Some (''artist'', t)"
  "airplay_entry (''Album: '' @ t) = Some (''album'', t)"
  by (simp_all add: airplay_entry_def)

end
