(* ===== verification/Spec2Isabelle.thy ===== *)
theory Spec2Isabelle
  imports EventNotify Http Cli SourceEnd SourceMeta
begin

text \<open>
  Snapcast in Rust plays the same audio on many clients at the same moment.  This development models the
  program's own logic (under \<open>src/crates\<close>) and proves what makes it correct.

  How the parts interact.  A source hands audio to the server library (\<open>snapcast-server\<close>), which cuts it
  into stamped chunks and encodes them; each connected client has a session, which greets it with its
  settings and the codec header of its stream and then forwards that stream's chunks.  Which stream a client
  hears follows from the shared state of clients and groups; commands change that state and push the
  consequences to the sessions.  The control API of the server program (\<open>snapserver-rs\<close>) turns JSON-RPC
  requests into commands.  The client library (\<open>snapcast-client\<close>) reads the frames (\<open>snapcast-proto\<close>),
  keeps an estimate of the server's clock, decodes the chunks into a stream buffer, and the player asks
  that buffer for audio, which it plays in time with the other clients by seeking, padding and resampling.

  The theories, in the order of the code:

  Shared: \<open>Prelude\<close> (machine integers, byte readers, updates of vectors; the locales \<open>wire_codec\<close>,
  \<open>exact_codec\<close> and \<open>invariant_system\<close>), \<open>Utf8\<close>, \<open>Strings\<close> (Rust strings and their parsers), \<open>Json\<close>,
  \<open>F64\<close> and \<open>F32\<close> (IEEE arithmetic as rounded rationals).

  Protocol (\<open>snapcast-proto\<close>): \<open>Timeval\<close> (types.rs), \<open>SampleFormat\<close> (sample_format.rs), \<open>Wire\<close>
  (message/wire.rs), \<open>Messages\<close> (message/*.rs), \<open>Frames\<close> (message/factory.rs and the two frame readers),
  \<open>Status\<close> and \<open>StatusJson\<close> (status.rs).  Every reader and writer interprets \<open>wire_codec\<close>; the lemmas are
  round trips, the limits of accepted input, and exactness of the time arithmetic.

  Server state and sessions (\<open>snapcast-server\<close>): \<open>ServerState\<close> and \<open>GroupLemmas\<close> (state.rs), \<open>ServerAuth\<close>
  (auth.rs), \<open>Session\<close> (session.rs), \<open>Command\<close> and \<open>CommandLemmas\<close> (command.rs), \<open>Routing\<close>,
  \<open>ServerSteps\<close> (the interleaving of commands and sessions as the relation \<open>server_step\<close>, an
  \<open>invariant_system\<close>), \<open>CodecOrder\<close>, \<open>ServerProps\<close>.  A session's loop alternates between the phase Draining, the
  top of a turn, where the pending custom messages are written, and Running, where it waits in \<open>select!\<close> for one
  of its sources; each of the two is a step of its own.  The lemmas: every mutation keeps the state well
  formed and does what it says; no command leaves a session's routing behind the state; only admitted clients
  have sessions; headers precede audio.

  Audio on the server: \<open>AudioSender\<close> (time.rs and F32AudioSender of lib.rs), \<open>PcmCodec\<close> (encoder/mod.rs,
  encoder/pcm.rs, and the client's conversions), \<open>F32Lz4\<close> (encoder/f32lz4.rs, crypto.rs, and the client's
  decoder), \<open>FlacEncoder\<close> (encoder/flac.rs), \<open>Encoders\<close> and \<open>EncoderProps\<close> (encoder/opus.rs, encoder/vorbis.rs
  and the encoder threads of lib.rs), \<open>SnapServer\<close> (the server of lib.rs up to its loops).  The lemmas: nothing
  is lost or reordered, timestamps do not drift, codecs are lossless, the samples of whole frames are cut into
  the right blocks, float sources keep the pace of real time, and a client reads out of every header what the
  server put there.

  The server program (\<open>snapserver-rs\<close>): \<open>Config\<close> (config.rs), \<open>Uri\<close> (stream/uri.rs), \<open>Sources\<close> and
  \<open>SourceProps\<close> (the readers of stream/*.rs and the start of the sources in main.rs), \<open>SourceEnd\<close> (the way of
  the audio from a pipe to a client's stream buffer), \<open>SourceMeta\<close> (the track metadata that the readers of
  librespot and shairport-sync pick up), \<open>EventNotify\<close> (the task of main.rs that broadcasts the
  library's events).  The lemmas: every setting comes from where it should, URIs round-trip as far as they are ASCII, the audio of a
  pipe arrives whole and in place; and what a source's format, an idle source or a doubled notification does.

  Control API (\<open>snapserver-rs\<close>): \<open>Rpc\<close> (jsonrpc.rs, notify.rs, auth.rs), \<open>Control\<close> (control.rs), \<open>Http\<close>
  (http.rs), \<open>RpcProps\<close>.  The locales \<open>status_backend\<close> and \<open>command_backend\<close> say what the API asks of the
  command channel; they are interpreted on the model's own dispatcher.

  Client (\<open>snapcast-client\<close>): \<open>DoubleBuffer\<close> and \<open>TimeProvider\<close> (the clock estimate), \<open>PcmChunk\<close>,
  \<open>PcmStream\<close>, \<open>StreamRead\<close>, \<open>StreamRate\<close>, \<open>StreamSync\<close> (stream.rs), \<open>Decoders\<close> (decoder/*.rs), \<open>ClientConn\<close>
  (connection/mod.rs), \<open>Controller\<close> and \<open>ControllerProps\<close> (controller.rs), \<open>EndToEnd\<close> (a server's session
  read by a client), \<open>Resampler\<close> (resampler.rs).  The lemmas: every request for audio returns; reading refines a
  queue; corrections are spread evenly; a hard sync starts at the time it is asked for; the rate adjustment and the clock estimate
  are bounded; the audio pipeline stays coherent over any messages and connections.

  The client program (\<open>snapclient-rs\<close>): \<open>Player\<close> (player/mod.rs, mixer.rs and the volume events of main.rs),
  \<open>Cli\<close> (cli.rs, logging.rs, the settings of snapcast-client/src/config.rs, and main.rs up to the run of the
  client).  \<open>playback_step\<close> interleaves the device's callbacks with what the controller does to the shared
  stream; it is an \<open>invariant_system\<close>.  The lemmas: callbacks always return and fill their buffer, muting is
  silence, the first audio is heard one device buffer early, addresses round-trip; and what happens without an address, or on a device with other channels.

  Conventions.  Integers that are stored or sent are words of their width; intermediate arithmetic is on
  integers with the wrap-around of the release profile written out.  Strings are lists of the characters of
  their UTF-8 bytes.  A fallible call returns a sum, its error on the left.  The option None marks a call
  that does not return: a panic, an endless loop (\<open>partial_function\<close>) or a wait for room in a channel.  A
  bounded channel is a list with its capacity.  A connection is the list of bytes that arrive before it
  ends or falls silent and the list of bytes written.  No fuel is used: every loop is structural, has a
  termination measure, or is a \<open>partial_function\<close> with a theorem on when it returns.

  Parameters stand for code that is not in the repository, with documented behaviour as hypotheses where
  it matters: serde_json (\<open>json_text_ok\<close>: what was printed parses to the same value), base64, LZ4, HKDF
  and AES-GCM (\<open>libs_ok\<close>), JSON Web Tokens (a token is
  accepted or not at a time: \<open>at_time\<close> is the surroundings of a request with its wall clock), the symphonia and Opus decoders (which may refuse to be made), the flacenc, libopus and
  vorbis_rs encoders (each call of which may fail; \<open>flac_documented\<close>: a FLAC header has the layout of the format), rubato (\<open>rubato_ok\<close>: as many samples for every channel), the INI reader, the audio
  device and the ALSA controls, uuid (a supply of fresh ids), the clocks, embedder-supplied validators and
  filters.  Feature flags are on.

  Bounds.  A device buffer has at most 65536 frames, a device at least 1000 Hz and a stream that is converted
  at most 1048576 Hz, so that the frames asked of the stream, computed in doubles, stay below a billion; a
  request for audio has at most a billion frames and a chunk less than a tebibyte, so that no intermediate
  number of the synchronisation wraps.  Real buffers and chunks are far below.

  Not modelled: sockets, TLS, mDNS and signals; the WebSocket transports of the client, which are never constructed; the parsing of arguments by the clap
  library; the routing and static files of the HTTP server; the writing of log lines; the test harness and the
  FLAC experiment under src/tools.
\<close>

end
